(* ===== verification/Prelude.thy ===== *)
theory Prelude
  imports Main
    "HOL-Library.AList"
    "HOL-Library.Char_ord"
    "HOL-Library.List_Lexorder"
    "HOL-Library.Product_Lexorder"
    "HOL-Library.Multiset"
begin

text \<open>
  Shared vocabulary of the development: Python exceptions as values, insertion-ordered
  dictionaries as association lists, and the string operations of \<open>str\<close> that the program
  uses.  A string is a list of characters whose code points are 0 to 255 (the Latin-1 range of
  Unicode); the classification functions below agree with Python's on that range.
\<close>

named_theorems dict_simps \<open>rewrite rules for insertion-ordered dictionaries\<close>
named_theorems str_simps \<open>unfolding rules for the string operations\<close>

fun the_default :: "'a \<Rightarrow> 'a option \<Rightarrow> 'a" where
  "the_default d None = d"
| "the_default d (Some x) = x"

section \<open>Exceptions\<close>

text \<open>The exception classes that the modelled code raises or catches, with \<open>str(exc)\<close>; that of a \<open>KeyError\<close> is the
  quoted key.\<close>

datatype exn =
    ValueError string
  | RuntimeError string
  | TypeError string
  | AttributeError string
  | KeyError string
  | IndexError string
  | OSError string
  | OverflowError string
  | ZeroDivisionError string

fun exn_str :: "exn \<Rightarrow> string" where
  "exn_str (ValueError m) = m"
| "exn_str (RuntimeError m) = m"
| "exn_str (TypeError m) = m"
| "exn_str (AttributeError m) = m"
| "exn_str (KeyError m) = CHR 0x27 # m @ [CHR 0x27]"
| "exn_str (IndexError m) = m"
| "exn_str (OSError m) = m"
| "exn_str (OverflowError m) = m"
| "exn_str (ZeroDivisionError m) = m"

definition ebind :: "'e + 'a \<Rightarrow> ('a \<Rightarrow> 'e + 'b) \<Rightarrow> 'e + 'b" where
  "ebind m f = (case m of Inl e \<Rightarrow> Inl e | Inr a \<Rightarrow> f a)"

lemma ebind_simps [simp]:
  "ebind (Inl e) f = Inl e"
  "ebind (Inr a) f = f a"
  by (simp_all add: ebind_def)

lemma ebind_eq_Inr [simp]: "ebind m f = Inr b \<longleftrightarrow> (\<exists>a. m = Inr a \<and> f a = Inr b)"
  by (cases m) auto

text \<open>A loop over a list whose body may raise: the first exception ends the loop.\<close>

fun efold :: "('a \<Rightarrow> 's \<Rightarrow> 'e + 's) \<Rightarrow> 'a list \<Rightarrow> 's \<Rightarrow> 'e + 's" where
  "efold f [] s = Inr s"
| "efold f (x # xs) s = ebind (f x s) (efold f xs)"

lemma efold_append: "efold f (xs @ ys) s = ebind (efold f xs s) (efold f ys)"
proof (induction xs arbitrary: s)
  case (Cons x xs)
  then show ?case by (cases "f x s") auto
qed simp

lemma efold_invariant:
  assumes "\<And>x s s'. x \<in> set xs \<Longrightarrow> P s \<Longrightarrow> f x s = Inr s' \<Longrightarrow> P s'"
    and "P s" and "efold f xs s = Inr s'"
  shows "P s'"
  using assms
proof (induction xs arbitrary: s)
  case (Cons x xs)
  from Cons.prems(3) obtain t where t: "f x s = Inr t" and r: "efold f xs t = Inr s'" by auto
  have "P t" using Cons.prems(1) [of x s t] Cons.prems(2) t by simp
  then show ?case using Cons.IH [of t] Cons.prems(1) r by auto
qed simp

lemma fold_invariant_in:
  "(\<And>x s. x \<in> set xs \<Longrightarrow> P s \<Longrightarrow> P (f x s)) \<Longrightarrow> P s \<Longrightarrow> P (fold f xs s)"
  by (induction xs arbitrary: s) auto

section \<open>Dictionaries\<close>

text \<open>
  A Python \<open>dict\<close> keeps insertion order, and assigning to an existing key keeps its place.
  This is exactly \<open>AList.update\<close>.  Lookup is \<open>map_of\<close>.
\<close>

type_synonym ('k, 'v) dict = "('k \<times> 'v) list"

definition dict_get :: "('k, 'v) dict \<Rightarrow> 'k \<Rightarrow> 'v \<Rightarrow> 'v" where
  "dict_get d k v = (case map_of d k of None \<Rightarrow> v | Some w \<Rightarrow> w)"

definition dict_setdefault :: "('k, 'v) dict \<Rightarrow> 'k \<Rightarrow> 'v \<Rightarrow> ('k, 'v) dict" where
  "dict_setdefault d k v = (case map_of d k of None \<Rightarrow> AList.update k v d | Some _ \<Rightarrow> d)"

definition dict_of_pairs :: "('k \<times> 'v) list \<Rightarrow> ('k, 'v) dict" where
  "dict_of_pairs ps = fold (\<lambda>(k, v) d. AList.update k v d) ps []"

lemma map_of_update [dict_simps]: "map_of (AList.update k v d) = (map_of d)(k \<mapsto> v)"
  by (rule update_conv')

lemma dict_keys_update: "set (map fst (AList.update k v d)) = insert k (set (map fst d))"
  by (induction d) auto

lemma distinct_keys_update: "distinct (map fst d) \<Longrightarrow> distinct (map fst (AList.update k v d))"
  by (rule distinct_update)

lemma update_values_cases:
  "(k', w) \<in> set (AList.update k v d) \<Longrightarrow> (k' = k \<and> w = v) \<or> (k', w) \<in> set d"
  by (induction d) (auto split: if_splits)

lemma update_new: "map_of d k = None \<Longrightarrow> AList.update k v d = d @ [(k, v)]"
  by (induction d) auto

lemma map_of_mem: "distinct (map fst d) \<Longrightarrow> (map_of d k = Some v) \<longleftrightarrow> (k, v) \<in> set d"
  by (auto simp: map_of_eq_Some_iff)

lemma snd_set_map_of:
  "distinct (map fst d) \<Longrightarrow> v \<in> snd ` set d \<longleftrightarrow> (\<exists>k. map_of d k = Some v)"
  by (force simp: map_of_mem)

lemma dict_get_update [dict_simps]:
  "dict_get (AList.update k v d) k' w = (if k' = k then v else dict_get d k' w)"
  by (simp add: dict_get_def dict_simps)

lemma map_of_setdefault [dict_simps]:
  "map_of (dict_setdefault d k v) k' =
     (if k' = k \<and> map_of d k = None then Some v else map_of d k')"
  by (auto simp: dict_setdefault_def dict_simps split: option.splits)

section \<open>Sorting\<close>

text \<open>Python's \<open>sorted\<close> is stable, and so is the library's \<open>sort_key\<close>.\<close>

lemma set_sort_key' [simp]: "set (sort_key f xs) = set xs"
  by simp

section \<open>Characters\<close>

definition code_point :: "char \<Rightarrow> nat" where
  "code_point c = of_char c"

definition py_isspace :: "char \<Rightarrow> bool" where
  "py_isspace c = (let n = code_point c in
     (9 \<le> n \<and> n \<le> 13) \<or> (28 \<le> n \<and> n \<le> 32) \<or> n = 133 \<or> n = 160)"

definition is_digit :: "char \<Rightarrow> bool" where
  "is_digit c = (let n = code_point c in 48 \<le> n \<and> n \<le> 57)"

definition digit_val :: "char \<Rightarrow> int" where
  "digit_val c = int (code_point c) - 48"

text \<open>\<open>str.lower\<close> on one character: ASCII and the accented capitals of Latin-1.\<close>

definition lower_char :: "char \<Rightarrow> char" where
  "lower_char c = (let n = code_point c in
     if (65 \<le> n \<and> n \<le> 90) \<or> (192 \<le> n \<and> n \<le> 222 \<and> n \<noteq> 215) then char_of (n + 32) else c)"

definition py_lower :: "string \<Rightarrow> string" where
  "py_lower s = map lower_char s"

text \<open>The line boundaries of \<open>str.splitlines\<close>; a carriage return and newline count as one.\<close>

definition is_linebreak :: "char \<Rightarrow> bool" where
  "is_linebreak c = (let n = code_point c in
     (10 \<le> n \<and> n \<le> 13) \<or> (28 \<le> n \<and> n \<le> 30) \<or> n = 133)"

section \<open>String methods\<close>

definition lstrip :: "string \<Rightarrow> string" where
  "lstrip s = dropWhile py_isspace s"

definition rstrip :: "string \<Rightarrow> string" where
  "rstrip s = rev (dropWhile py_isspace (rev s))"

definition strip :: "string \<Rightarrow> string" where
  "strip s = rstrip (lstrip s)"

text \<open>\<open>s.strip(c)\<close> with a single character.\<close>

definition strip_char :: "char \<Rightarrow> string \<Rightarrow> string" where
  "strip_char c s = rev (dropWhile (\<lambda>x. x = c) (rev (dropWhile (\<lambda>x. x = c) s)))"

fun startswith :: "string \<Rightarrow> string \<Rightarrow> bool" where
  "startswith s [] = True"
| "startswith [] (p # ps) = False"
| "startswith (c # cs) (p # ps) = (c = p \<and> startswith cs ps)"

text \<open>\<open>sub in s\<close>.\<close>

fun str_in :: "string \<Rightarrow> string \<Rightarrow> bool" where
  "str_in sub [] = (sub = [])"
| "str_in sub (c # cs) = (startswith (c # cs) sub \<or> str_in sub cs)"

lemma startswith_iff: "startswith s p \<longleftrightarrow> (\<exists>t. s = p @ t)"
  by (induction s p rule: startswith.induct) auto

lemma str_in_iff: "str_in sub s \<longleftrightarrow> (\<exists>a b. s = a @ sub @ b)"
proof (induction s)
  case (Cons c cs)
  show ?case (is "?l \<longleftrightarrow> ?r")
  proof
    assume ?l
    then show ?r
    proof (cases "startswith (c # cs) sub")
      case True
      then obtain b where "c # cs = [] @ sub @ b" by (auto simp: startswith_iff)
      then show ?thesis by blast
    next
      case False
      with \<open>?l\<close> Cons.IH obtain a b where "cs = a @ sub @ b" by auto
      then have "c # cs = (c # a) @ sub @ b" by simp
      then show ?thesis by blast
    qed
  next
    assume ?r
    then obtain a b where ab: "c # cs = a @ sub @ b" by blast
    show ?l
    proof (cases a)
      case Nil
      with ab have "startswith (c # cs) sub" by (auto simp: startswith_iff)
      then show ?thesis by simp
    next
      case (Cons x a')
      with ab have "\<exists>a b. cs = a @ sub @ b" by auto
      then show ?thesis using Cons.IH by simp
    qed
  qed
qed auto

text \<open>\<open>s.split(c)\<close> with a one-character separator, and \<open>s.split(c, 1)\<close> as a pair.\<close>

fun split_on :: "char \<Rightarrow> string \<Rightarrow> string list" where
  "split_on c [] = [[]]"
| "split_on c (x # xs) =
     (if x = c then [] # split_on c xs
      else (case split_on c xs of [] \<Rightarrow> [[x]] | w # ws \<Rightarrow> (x # w) # ws))"

definition split1 :: "char \<Rightarrow> string \<Rightarrow> string \<times> string option" where
  "split1 c s = (case dropWhile (\<lambda>x. x \<noteq> c) s of
     [] \<Rightarrow> (s, None)
   | _ # rest \<Rightarrow> (takeWhile (\<lambda>x. x \<noteq> c) s, Some rest))"

text \<open>\<open>s.split()\<close>: maximal runs of non-space characters.\<close>

function split_ws :: "string \<Rightarrow> string list" where
  "split_ws s = (let t = lstrip s in
     if t = [] then []
     else takeWhile (\<lambda>c. \<not> py_isspace c) t # split_ws (dropWhile (\<lambda>c. \<not> py_isspace c) t))"
  by pat_completeness auto
termination
proof (relation "measure length")
  fix s :: string and t
  assume t: "t = lstrip s" and ne: "t \<noteq> []"
  from ne t have hd: "\<not> py_isspace (hd t)" by (simp add: lstrip_def hd_dropWhile)
  then have "length (dropWhile (\<lambda>c. \<not> py_isspace c) t) < length t"
    using ne by (cases t) (auto simp: le_imp_less_Suc length_dropWhile_le)
  also have "\<dots> \<le> length s" using t by (simp add: lstrip_def length_dropWhile_le)
  finally show "(dropWhile (\<lambda>c. \<not> py_isspace c) t, s) \<in> measure length" by simp
qed simp

declare split_ws.simps [simp del]

fun splitlines_acc :: "string \<Rightarrow> string \<Rightarrow> string list" where
  "splitlines_acc acc [] = (if acc = [] then [] else [rev acc])"
| "splitlines_acc acc [c] = (if is_linebreak c then [rev acc] else [rev (c # acc)])"
| "splitlines_acc acc (c # d # cs) =
     (if c = CHR 0x0D \<and> d = CHR 0x0A then rev acc # splitlines_acc [] cs
      else if is_linebreak c then rev acc # splitlines_acc [] (d # cs)
      else splitlines_acc (c # acc) (d # cs))"

definition splitlines :: "string \<Rightarrow> string list" where
  "splitlines s = splitlines_acc [] s"

fun join :: "string \<Rightarrow> string list \<Rightarrow> string" where
  "join sep [] = []"
| "join sep [s] = s"
| "join sep (s # t # ts) = s @ sep @ join sep (t # ts)"

text \<open>\<open>s.replace(c, d)\<close> for single characters, and the deletion of a character.\<close>

definition replace_char :: "char \<Rightarrow> char \<Rightarrow> string \<Rightarrow> string" where
  "replace_char c d s = map (\<lambda>x. if x = c then d else x) s"

definition remove_char :: "char \<Rightarrow> string \<Rightarrow> string" where
  "remove_char c s = filter (\<lambda>x. x \<noteq> c) s"

section \<open>Numbers as text\<close>

text \<open>The decimal digits of a non-negative integer.\<close>

function int_digits :: "int \<Rightarrow> string" where
  "int_digits i = (if i < 10 then [char_of (48 + i)] else int_digits (i div 10) @ [char_of (48 + i mod 10)])"
  by pat_completeness auto
termination
  by (relation "measure nat") auto

declare int_digits.simps [simp del]

definition int_str :: "int \<Rightarrow> string" where
  "int_str i = (if i < 0 then CHR ''-'' # int_digits (- i) else int_digits i)"

definition nat_str :: "nat \<Rightarrow> string" where
  "nat_str n = int_str (int n)"

definition rjust :: "nat \<Rightarrow> char \<Rightarrow> string \<Rightarrow> string" where
  "rjust n c s = replicate (n - length s) c @ s"

text \<open>
  The digit part of a numeric literal as \<open>int(...)\<close> accepts it: at least one digit, single
  underscores between digits.
\<close>

fun digits_ok :: "string \<Rightarrow> bool" where
  "digits_ok [] = False"
| "digits_ok [c] = is_digit c"
| "digits_ok (c # d # cs) =
     (is_digit c \<and> (if d = CHR ''_'' then digits_ok cs else digits_ok (d # cs)))"

definition digits_value :: "string \<Rightarrow> int" where
  "digits_value s = foldl (\<lambda>a c. 10 * a + digit_val c) 0 (remove_char (CHR ''_'') s)"

text \<open>\<open>int(s)\<close> for a string: \<open>None\<close> is \<open>ValueError\<close>.\<close>

definition py_int :: "string \<Rightarrow> int option" where
  "py_int s = (case strip s of
     [] \<Rightarrow> None
   | c # cs \<Rightarrow>
       if c = CHR ''-'' then (if digits_ok cs then Some (- digits_value cs) else None)
       else if c = CHR ''+'' then (if digits_ok cs then Some (digits_value cs) else None)
       else (if digits_ok (c # cs) then Some (digits_value (c # cs)) else None))"

text \<open>\<open>str.isdigit\<close> on the Latin-1 range also accepts the superscript digits.\<close>

definition py_isdigit :: "string \<Rightarrow> bool" where
  "py_isdigit s = (s \<noteq> [] \<and>
     list_all (\<lambda>c. is_digit c \<or> code_point c \<in> {178, 179, 185}) s)"

lemma int_digits_nonempty [simp]: "int_digits n \<noteq> []"
  by (subst int_digits.simps) simp

lemma code_point_digit: "0 \<le> d \<Longrightarrow> d < 10 \<Longrightarrow> int (code_point (char_of (48 + d))) = 48 + d"
proof -
  assume d: "0 \<le> d" "d < 10"
  have "int (of_char (char_of (48 + d))) = of_char (char_of (48 + d))"
    by (simp only: of_nat_of_char)
  also have "\<dots> = (48 + d) mod 256" by (rule of_char_of)
  also have "\<dots> = 48 + d" using d by simp
  finally show ?thesis unfolding code_point_def .
qed

lemma is_digit_char_of [simp]: "0 \<le> d \<Longrightarrow> d < 10 \<Longrightarrow> is_digit (char_of (48 + d :: int))"
  using code_point_digit [of d] by (simp add: is_digit_def Let_def)

lemma digit_val_char_of [simp]: "0 \<le> d \<Longrightarrow> d < 10 \<Longrightarrow> digit_val (char_of (48 + d)) = d"
  using code_point_digit [of d] by (simp add: digit_val_def)

lemma int_digits_all_digits: "0 \<le> n \<Longrightarrow> list_all is_digit (int_digits n)"
proof (induction n rule: int_digits.induct)
  case (1 n)
  then show ?case by (subst int_digits.simps) auto
qed

lemma digits_ok_all: "s \<noteq> [] \<Longrightarrow> list_all is_digit s \<Longrightarrow> digits_ok s"
  by (induction s rule: digits_ok.induct) (auto simp: is_digit_def code_point_def)

lemma remove_underscore_digits: "list_all is_digit s \<Longrightarrow> remove_char (CHR ''_'') s = s"
  by (auto simp: remove_char_def list_all_iff is_digit_def code_point_def intro!: filter_True)

lemma digits_value_int_digits: "0 \<le> n \<Longrightarrow> digits_value (int_digits n) = n"
proof (induction n rule: int_digits.induct)
  case (1 n)
  note rem = remove_underscore_digits [OF int_digits_all_digits]
  show ?case
  proof (cases "n < 10")
    case True
    then show ?thesis
      using rem [of n] "1.prems" by (simp add: digits_value_def int_digits.simps [of n])
  next
    case False
    with "1" have "digits_value (int_digits (n div 10)) = n div 10" by simp
    with False show ?thesis
      using rem [of n] rem [of "n div 10"] "1.prems"
      by (simp add: digits_value_def int_digits.simps [of n])
  qed
qed

text \<open>A printed integer reads back as itself.\<close>

lemma strip_digits: "s \<noteq> [] \<Longrightarrow> list_all is_digit s \<Longrightarrow> strip s = s"
proof -
  assume s: "s \<noteq> []" "list_all is_digit s"
  have d: "\<not> py_isspace c" if "is_digit c" for c
    using that by (auto simp: py_isspace_def is_digit_def Let_def)
  have "dropWhile py_isspace t = t" if "t \<noteq> []" "list_all is_digit t" for t
    using that d by (cases t) auto
  from this [of s] this [of "rev s"] s show ?thesis by (simp add: strip_def lstrip_def rstrip_def)
qed

lemma py_int_int_str: "py_int (int_str i) = Some i"
proof (cases "i < 0")
  case False
  then have d: "list_all is_digit (int_digits i)" by (simp add: int_digits_all_digits)
  then obtain c cs where c: "int_digits i = c # cs" "is_digit c" by (cases "int_digits i") auto
  have "c \<noteq> CHR ''-''" "c \<noteq> CHR ''+''" using c(2) by (auto simp: is_digit_def code_point_def)
  with False c d digits_ok_all [OF _ d] digits_value_int_digits [of i] strip_digits [OF _ d]
  show ?thesis by (simp add: py_int_def int_str_def)
next
  case True
  then have d: "list_all is_digit (int_digits (- i))" by (simp add: int_digits_all_digits)
  let ?s = "CHR ''-'' # int_digits (- i)"
  have sp: "\<not> py_isspace (CHR ''-'')" by (simp add: py_isspace_def code_point_def)
  have "dropWhile py_isspace (rev (int_digits (- i)) @ [CHR ''-'']) = rev (int_digits (- i)) @ [CHR ''-'']"
    using strip_digits [OF _ d] d
    by (cases "rev (int_digits (- i))") (auto simp: py_isspace_def is_digit_def Let_def list_all_iff dest!: arg_cong [of _ _ set])
  then have "strip ?s = ?s" using sp by (simp add: strip_def lstrip_def rstrip_def)
  with True d digits_ok_all [OF _ d] digits_value_int_digits [of "- i"] show ?thesis
    by (simp add: py_int_def int_str_def)
qed

end
