(* ===== verification/PyRegex.thy ===== *)
theory PyRegex
  imports Prelude
begin

text \<open>
  The part of Python's \<open>re\<close> that the program uses: the pattern language (classes, groups,
  alternation, greedy and lazy repetition, \<open>^\<close>, \<open>$\<close>, word boundaries, lookahead and the
  flags \<open>re.I\<close> and \<open>re.M\<close>), compiled from the pattern text by a character-driven parser, and the
  backtracking matcher, which lists every way to match in the order in which \<open>re\<close> tries them.
  \<open>matches\<close> specifies matching as a relation; \<open>rmatch_iff\<close> and \<open>search_iff\<close> prove the
  matcher sound and complete for it.  Isabelle string literals cannot hold a backslash: \<open>raw\<close>
  writes it as a backquote, a character that none of the program's patterns contains.
\<close>

definition backslash :: char where
  "backslash = CHR 0x5C"

definition raw :: "string \<Rightarrow> string" where
  "raw s = replace_char (CHR 0x60) backslash s"

section \<open>Patterns\<close>

datatype cset = CChar char | CRange char char | CDigit | CWord | CSpace

datatype regex =
    Void                              \<comment> \<open>matches nothing\<close>
  | Eps
  | One bool bool "cset list"         \<comment> \<open>a character of (or, negated, outside) a class: ignore case, negated\<close>
  | Cat regex regex
  | Or regex regex
  | Star bool regex                   \<comment> \<open>greedy or lazy repetition\<close>
  | Group nat regex
  | Boundary
  | Begin bool                        \<comment> \<open>multiline\<close>
  | End
  | Ahead regex

definition is_word :: "char \<Rightarrow> bool" where
  "is_word c = (let n = code_point c in 48 \<le> n \<and> n \<le> 57 \<or> 65 \<le> n \<and> n \<le> 90 \<or> n = 95 \<or> 97 \<le> n \<and> n \<le> 122 \<or>
     n \<in> {170, 178, 179, 181, 185, 186, 188, 189, 190} \<or> 192 \<le> n \<and> n \<noteq> 215 \<and> n \<noteq> 247)"

fun in_cset :: "cset \<Rightarrow> char \<Rightarrow> bool" where
  "in_cset (CChar d) c = (c = d)"
| "in_cset (CRange a b) c = (code_point a \<le> code_point c \<and> code_point c \<le> code_point b)"
| "in_cset CDigit c = is_digit c"
| "in_cset CWord c = is_word c"
| "in_cset CSpace c = py_isspace c"

definition other_case :: "char \<Rightarrow> char" where
  "other_case c = (let n = code_point c in
     if 65 \<le> n \<and> n \<le> 90 then char_of (n + 32) else if 97 \<le> n \<and> n \<le> 122 then char_of (n - 32) else c)"

definition accepts :: "bool \<Rightarrow> bool \<Rightarrow> cset list \<Rightarrow> char \<Rightarrow> bool" where
  "accepts ic neg ks c = (neg \<noteq> list_ex (\<lambda>k. in_cset k c \<or> ic \<and> in_cset k (other_case c)) ks)"

section \<open>Compiling a pattern\<close>

datatype frame_kind = KTop | KPlain | KCapture nat | KAhead

record frame =
  fr_kind :: frame_kind
  fr_alts :: "regex option"   \<comment> \<open>the alternatives completed so far\<close>
  fr_items :: "regex list"    \<comment> \<open>the current alternative, last item first\<close>

datatype mode =
    Normal | Quantified | Escaped | Opened | OpenedQ
  | Hex "char list" | Repeat string
  | ClassStart | InClass bool "cset list" | ClassEscape bool "cset list" | ClassDash bool "cset list" char

record parser =
  pa_mode :: mode
  pa_frames :: "frame list"
  pa_groups :: nat

record flags =
  ignore_case :: bool
  multi_line :: bool

definition no_flags :: flags where "no_flags = \<lparr>ignore_case = False, multi_line = False\<rparr>"
definition re_I :: flags where "re_I = \<lparr>ignore_case = True, multi_line = False\<rparr>"
definition re_M :: flags where "re_M = \<lparr>ignore_case = False, multi_line = True\<rparr>"

definition cat_items :: "regex list \<Rightarrow> regex" where
  "cat_items items = (case rev items of [] \<Rightarrow> Eps | r # rs \<Rightarrow> foldl Cat r rs)"

definition frame_body :: "frame \<Rightarrow> regex" where
  "frame_body f = (case fr_alts f of None \<Rightarrow> cat_items (fr_items f) | Some a \<Rightarrow> Or a (cat_items (fr_items f)))"

definition push_item :: "mode \<Rightarrow> regex \<Rightarrow> parser \<Rightarrow> parser option" where
  "push_item m r P = (case pa_frames P of [] \<Rightarrow> None
     | f # fs \<Rightarrow> Some (P\<lparr>pa_mode := m, pa_frames := f\<lparr>fr_items := r # fr_items f\<rparr> # fs\<rparr>))"

definition map_last :: "mode \<Rightarrow> (regex \<Rightarrow> regex) \<Rightarrow> parser \<Rightarrow> parser option" where
  "map_last m g P = (case pa_frames P of [] \<Rightarrow> None
     | f # fs \<Rightarrow> (case fr_items f of [] \<Rightarrow> None
        | r # rs \<Rightarrow> Some (P\<lparr>pa_mode := m, pa_frames := f\<lparr>fr_items := g r # rs\<rparr> # fs\<rparr>)))"

definition open_frame :: "frame_kind \<Rightarrow> parser \<Rightarrow> parser" where
  "open_frame k P = P\<lparr>pa_mode := Normal, pa_frames := \<lparr>fr_kind = k, fr_alts = None, fr_items = []\<rparr> # pa_frames P\<rparr>"

definition close_frame :: "parser \<Rightarrow> parser option" where
  "close_frame P = (case pa_frames P of
     f # g # fs \<Rightarrow> push_item Normal
       (case fr_kind f of KCapture n \<Rightarrow> Group n (frame_body f) | KAhead \<Rightarrow> Ahead (frame_body f) | _ \<Rightarrow> frame_body f)
       (P\<lparr>pa_frames := g # fs\<rparr>)
   | _ \<Rightarrow> None)"

definition lazy_item :: "regex \<Rightarrow> regex" where
  "lazy_item r = (case r of Star _ a \<Rightarrow> Star False a | Cat a (Star _ b) \<Rightarrow> Cat a (Star False b)
     | Or a Eps \<Rightarrow> Or Eps a | _ \<Rightarrow> r)"

definition normal_char :: "flags \<Rightarrow> char \<Rightarrow> parser \<Rightarrow> parser option" where
  "normal_char fl c P =
    (if c = backslash then Some (P\<lparr>pa_mode := Escaped\<rparr>)
     else if c = CHR ''('' then Some (P\<lparr>pa_mode := Opened\<rparr>)
     else if c = CHR '')'' then close_frame P
     else if c = CHR ''['' then Some (P\<lparr>pa_mode := ClassStart\<rparr>)
     else if c = CHR ''{'' then Some (P\<lparr>pa_mode := Repeat []\<rparr>)
     else if c = CHR ''|'' then (case pa_frames P of [] \<Rightarrow> None
       | f # fs \<Rightarrow> Some (P\<lparr>pa_mode := Normal,
           pa_frames := f\<lparr>fr_alts := Some (frame_body f), fr_items := []\<rparr> # fs\<rparr>))
     else if c = CHR ''*'' then map_last Quantified (Star True) P
     else if c = CHR ''+'' then map_last Quantified (\<lambda>r. Cat r (Star True r)) P
     else if c = CHR ''?'' then map_last Quantified (\<lambda>r. Or r Eps) P
     else if c = CHR ''.'' then push_item Normal (One False True [CChar (CHR 0x0A)]) P
     else if c = CHR ''^'' then push_item Normal (Begin (multi_line fl)) P
     else if c = CHR ''$'' then push_item Normal End P
     else push_item Normal (One (ignore_case fl) False [CChar c]) P)"

definition class_of_escape :: "char \<Rightarrow> cset option" where
  "class_of_escape c = (if c = CHR ''d'' then Some CDigit else if c = CHR ''w'' then Some CWord
     else if c = CHR ''s'' then Some CSpace else if c = CHR ''n'' then Some (CChar (CHR 0x0A))
     else if is_word c then None else Some (CChar c))"

definition escape_char :: "flags \<Rightarrow> char \<Rightarrow> parser \<Rightarrow> parser option" where
  "escape_char fl c P =
    (if c = CHR ''b'' then push_item Normal Boundary P
     else if c = CHR ''S'' then push_item Normal (One False True [CSpace]) P
     else if c = CHR ''x'' then Some (P\<lparr>pa_mode := Hex []\<rparr>)
     else (case class_of_escape c of None \<Rightarrow> None
       | Some k \<Rightarrow> push_item Normal (One (ignore_case fl) False [k]) P))"

definition hex_digit :: "char \<Rightarrow> nat option" where
  "hex_digit c = (let n = code_point c in if 48 \<le> n \<and> n \<le> 57 then Some (n - 48)
     else if 97 \<le> n \<and> n \<le> 102 then Some (n - 87) else if 65 \<le> n \<and> n \<le> 70 then Some (n - 55) else None)"

definition hex_char :: "char \<Rightarrow> char \<Rightarrow> char option" where
  "hex_char a b = (case (hex_digit a, hex_digit b) of
     (Some m, Some n) \<Rightarrow> Some (char_of (16 * m + n)) | _ \<Rightarrow> None)"

text \<open>\<open>r{m}\<close> and \<open>r{m,n}\<close>: m copies, then up to n - m optional ones, greedily.\<close>

fun opt_copies :: "nat \<Rightarrow> regex \<Rightarrow> regex" where
  "opt_copies 0 r = Eps"
| "opt_copies (Suc n) r = Or (Cat r (opt_copies n r)) Eps"

fun copies :: "nat \<Rightarrow> nat \<Rightarrow> regex \<Rightarrow> regex" where
  "copies 0 n r = opt_copies n r"
| "copies (Suc m) n r = Cat r (copies m n r)"

definition repeat_bounds :: "string \<Rightarrow> (nat \<times> nat) option" where
  "repeat_bounds s = (case map py_int (split_on (CHR '','') s) of
     [Some m] \<Rightarrow> if 0 \<le> m then Some (nat m, 0) else None
   | [Some m, Some n] \<Rightarrow> if 0 \<le> m \<and> m \<le> n then Some (nat m, nat (n - m)) else None
   | _ \<Rightarrow> None)"

definition class_char :: "flags \<Rightarrow> bool \<Rightarrow> cset list \<Rightarrow> char \<Rightarrow> parser \<Rightarrow> parser option" where
  "class_char fl neg ks c P =
    (if c = CHR '']'' \<and> ks \<noteq> [] then push_item Normal (One (ignore_case fl) neg (rev ks)) P
     else if c = backslash then Some (P\<lparr>pa_mode := ClassEscape neg ks\<rparr>)
     else (case (c = CHR ''-'', ks) of
         (True, CChar lo # ks') \<Rightarrow> Some (P\<lparr>pa_mode := ClassDash neg ks' lo\<rparr>)
       | _ \<Rightarrow> Some (P\<lparr>pa_mode := InClass neg (CChar c # ks)\<rparr>)))"

definition parse_char :: "flags \<Rightarrow> char \<Rightarrow> parser \<Rightarrow> parser option" where
  "parse_char fl c P = (case pa_mode P of
     Normal \<Rightarrow> normal_char fl c P
   | Quantified \<Rightarrow> if c = CHR ''?'' then map_last Normal lazy_item P else normal_char fl c P
   | Escaped \<Rightarrow> escape_char fl c P
   | Opened \<Rightarrow> if c = CHR ''?'' then Some (P\<lparr>pa_mode := OpenedQ\<rparr>)
       else normal_char fl c (open_frame (KCapture (pa_groups P + 1)) (P\<lparr>pa_groups := pa_groups P + 1\<rparr>))
   | OpenedQ \<Rightarrow> if c = CHR '':'' then Some (open_frame KPlain P)
       else if c = CHR ''='' then Some (open_frame KAhead P) else None
   | Hex [] \<Rightarrow> Some (P\<lparr>pa_mode := Hex [c]\<rparr>)
   | Hex (a # _) \<Rightarrow> (case hex_char a c of None \<Rightarrow> None
       | Some x \<Rightarrow> push_item Normal (One (ignore_case fl) False [CChar x]) P)
   | Repeat s \<Rightarrow> if c = CHR ''}'' then (case repeat_bounds (rev s) of None \<Rightarrow> None
         | Some (m, n) \<Rightarrow> map_last Quantified (copies m n) P)
       else Some (P\<lparr>pa_mode := Repeat (c # s)\<rparr>)
   | ClassStart \<Rightarrow> if c = CHR ''^'' then Some (P\<lparr>pa_mode := InClass True []\<rparr>) else class_char fl False [] c P
   | InClass neg ks \<Rightarrow> class_char fl neg ks c P
   | ClassEscape neg ks \<Rightarrow> (case class_of_escape c of None \<Rightarrow> None
       | Some k \<Rightarrow> Some (P\<lparr>pa_mode := InClass neg (k # ks)\<rparr>))
   | ClassDash neg ks lo \<Rightarrow> if c = CHR '']''
       then push_item Normal (One (ignore_case fl) neg (rev (CChar (CHR ''-'') # CChar lo # ks))) P
       else if c = backslash then None
       else Some (P\<lparr>pa_mode := InClass neg (CRange lo c # ks)\<rparr>))"

fun parse_chars :: "flags \<Rightarrow> string \<Rightarrow> parser \<Rightarrow> parser option" where
  "parse_chars fl [] P = Some P"
| "parse_chars fl (c # cs) P = (case parse_char fl c P of None \<Rightarrow> None | Some Q \<Rightarrow> parse_chars fl cs Q)"

definition start_parser :: parser where
  "start_parser = \<lparr>pa_mode = Normal, pa_frames = [\<lparr>fr_kind = KTop, fr_alts = None, fr_items = []\<rparr>], pa_groups = 0\<rparr>"

text \<open>\<open>None\<close>: the pattern is malformed, or uses a construct outside the supported language.\<close>

definition parse_pattern :: "flags \<Rightarrow> string \<Rightarrow> regex option" where
  "parse_pattern fl s = (case parse_chars fl s start_parser of
     Some P \<Rightarrow> (case (pa_mode P \<in> {Normal, Quantified}, pa_frames P) of
        (True, [f]) \<Rightarrow> Some (frame_body f) | _ \<Rightarrow> None)
   | None \<Rightarrow> None)"

definition re_compile :: "flags \<Rightarrow> string \<Rightarrow> regex" where
  "re_compile fl s = (case parse_pattern fl s of Some r \<Rightarrow> r | None \<Rightarrow> Void)"

fun group_count :: "regex \<Rightarrow> nat" where
  "group_count (Cat a b) = max (group_count a) (group_count b)"
| "group_count (Or a b) = max (group_count a) (group_count b)"
| "group_count (Star _ a) = group_count a"
| "group_count (Ahead a) = group_count a"
| "group_count (Group n a) = max n (group_count a)"
| "group_count _ = 0"

section \<open>The backtracking matcher\<close>

text \<open>A position: the character before it, the text after it, and the captures, last one first.\<close>

type_synonym pos = "char option \<times> string \<times> (nat \<times> string) list"

abbreviation rest_of :: "pos \<Rightarrow> string" where "rest_of st \<equiv> fst (snd st)"

definition at_boundary :: "char option \<Rightarrow> string \<Rightarrow> bool" where
  "at_boundary p s = ((case p of None \<Rightarrow> False | Some c \<Rightarrow> is_word c) \<noteq> (case s of [] \<Rightarrow> False | c # _ \<Rightarrow> is_word c))"

definition at_begin :: "bool \<Rightarrow> char option \<Rightarrow> bool" where
  "at_begin ml p = (case p of None \<Rightarrow> True | Some c \<Rightarrow> ml \<and> c = CHR 0x0A)"

definition at_end :: "string \<Rightarrow> bool" where
  "at_end s = (s = [] \<or> s = [CHR 0x0A])"

definition guard_pos :: "bool \<Rightarrow> pos \<Rightarrow> pos list" where
  "guard_pos b st = (if b then [st] else [])"

definition one_char :: "bool \<Rightarrow> bool \<Rightarrow> cset list \<Rightarrow> pos \<Rightarrow> pos list" where
  "one_char ic neg ks st = (case rest_of st of [] \<Rightarrow> []
     | c # s \<Rightarrow> if accepts ic neg ks c then [(Some c, s, snd (snd st))] else [])"

definition capture :: "nat \<Rightarrow> pos \<Rightarrow> pos \<Rightarrow> pos" where
  "capture n st st' = (fst st', rest_of st',
     (n, take (length (rest_of st) - length (rest_of st')) (rest_of st)) # snd (snd st'))"

function (sequential) rmatch :: "regex \<Rightarrow> pos \<Rightarrow> pos list" where
  "rmatch Void st = []"
| "rmatch Eps st = [st]"
| "rmatch (One ic neg ks) st = one_char ic neg ks st"
| "rmatch (Cat a b) st = concat (map (rmatch b) (rmatch a st))"
| "rmatch (Or a b) st = rmatch a st @ rmatch b st"
| "rmatch (Star greedy a) st =
    (let more = concat (map (\<lambda>st'. if length (rest_of st') < length (rest_of st)
                                   then rmatch (Star greedy a) st' else []) (rmatch a st))
     in if greedy then more @ [st] else st # more)"
| "rmatch (Group n a) st = map (capture n st) (rmatch a st)"
| "rmatch Boundary st = guard_pos (at_boundary (fst st) (rest_of st)) st"
| "rmatch (Begin ml) st = guard_pos (at_begin ml (fst st)) st"
| "rmatch End st = guard_pos (at_end (rest_of st)) st"
| "rmatch (Ahead a) st = guard_pos (rmatch a st \<noteq> []) st"
  by pat_completeness auto
termination
  by (relation "measures [\<lambda>(r, st). size r, \<lambda>(r, st). length (rest_of st)]") auto

declare rmatch.simps(6) [simp del]  \<comment> \<open>it would unfold itself under the \<open>map\<close>\<close>

record re_match =
  m_before :: string                  \<comment> \<open>the text skipped before the match\<close>
  m_text :: string
  m_prev :: "char option"
  m_rest :: string
  m_caps :: "(nat \<times> string) list"

definition match_at :: "regex \<Rightarrow> char option \<Rightarrow> string \<Rightarrow> re_match option" where
  "match_at r p s = (case rmatch r (p, s, []) of [] \<Rightarrow> None
     | (p', s', g) # _ \<Rightarrow> Some \<lparr>m_before = [], m_text = take (length s - length s') s, m_prev = p', m_rest = s', m_caps = g\<rparr>)"

fun search_from :: "regex \<Rightarrow> char option \<Rightarrow> string \<Rightarrow> re_match option" where
  "search_from r p [] = match_at r p []"
| "search_from r p (c # s) = (case match_at r p (c # s) of Some m \<Rightarrow> Some m
     | None \<Rightarrow> map_option (\<lambda>m. m\<lparr>m_before := c # m_before m\<rparr>) (search_from r (Some c) s))"

text \<open>\<open>re.search\<close>, \<open>re.match\<close>, \<open>m.group(n)\<close> and \<open>m.groups()\<close>.\<close>

definition re_search :: "regex \<Rightarrow> string \<Rightarrow> re_match option" where
  "re_search r s = search_from r None s"

definition re_found :: "regex \<Rightarrow> string \<Rightarrow> bool" where
  "re_found r s = (case re_search r s of None \<Rightarrow> False | Some _ \<Rightarrow> True)"

definition re_match_start :: "regex \<Rightarrow> string \<Rightarrow> re_match option" where
  "re_match_start r s = match_at r None s"

definition m_group :: "re_match \<Rightarrow> nat \<Rightarrow> string option" where
  "m_group m n = (if n = 0 then Some (m_text m) else map_of (m_caps m) n)"

definition m_groups :: "regex \<Rightarrow> re_match \<Rightarrow> string option list" where
  "m_groups r m = map (m_group m) [1..<Suc (group_count r)]"

text \<open>
  The successive matches of \<open>re.finditer\<close>.  An empty match ends the list: none of the
  patterns used with \<open>re.sub\<close>, \<open>re.findall\<close> or \<open>re.split\<close> matches the empty string.
\<close>

lemma match_at_rest:
  "match_at r p s = Some m \<Longrightarrow> m_text m \<noteq> [] \<Longrightarrow> length (m_rest m) < length s"
  by (auto simp: match_at_def split: list.splits)

lemma search_from_rest:
  "search_from r p s = Some m \<Longrightarrow> m_text m \<noteq> [] \<Longrightarrow> length (m_rest m) < length s"
  by (induction r p s arbitrary: m rule: search_from.induct)
    (auto dest: match_at_rest intro: less_SucI split: option.splits)

function find_from :: "regex \<Rightarrow> char option \<Rightarrow> string \<Rightarrow> re_match list" where
  "find_from r p s = (case search_from r p s of None \<Rightarrow> []
     | Some m \<Rightarrow> if m_text m = [] then [] else m # find_from r (m_prev m) (m_rest m))"
  by pat_completeness auto
termination
  by (relation "measure (\<lambda>(r, p, s). length s)") (auto dest: search_from_rest)

declare find_from.simps [simp del]

definition re_findall :: "regex \<Rightarrow> string \<Rightarrow> re_match list" where
  "re_findall r s = find_from r None s"

definition after_last :: "string \<Rightarrow> re_match list \<Rightarrow> string" where
  "after_last s ms = (if ms = [] then s else m_rest (last ms))"

definition re_sub :: "regex \<Rightarrow> string \<Rightarrow> string \<Rightarrow> string" where
  "re_sub r new s = (let ms = re_findall r s in
     concat (map (\<lambda>m. m_before m @ new) ms) @ after_last s ms)"

definition re_split :: "regex \<Rightarrow> string \<Rightarrow> string list" where
  "re_split r s = (let ms = re_findall r s in map m_before ms @ [after_last s ms])"


section \<open>Specification of matching\<close>

inductive matches :: "regex \<Rightarrow> pos \<Rightarrow> pos \<Rightarrow> bool" where
  m_Eps: "matches Eps st st"
| m_One: "accepts ic neg ks c \<Longrightarrow> matches (One ic neg ks) (p, c # s, g) (Some c, s, g)"
| m_Cat: "matches a st st1 \<Longrightarrow> matches b st1 st2 \<Longrightarrow> matches (Cat a b) st st2"
| m_Or1: "matches a st st1 \<Longrightarrow> matches (Or a b) st st1"
| m_Or2: "matches b st st1 \<Longrightarrow> matches (Or a b) st st1"
| m_Stop: "matches (Star greedy a) st st"
| m_More: "matches a st st1 \<Longrightarrow> length (rest_of st1) < length (rest_of st) \<Longrightarrow>
    matches (Star greedy a) st1 st2 \<Longrightarrow> matches (Star greedy a) st st2"
| m_Group: "matches a st st1 \<Longrightarrow> matches (Group n a) st (capture n st st1)"
| m_Boundary: "at_boundary p s \<Longrightarrow> matches Boundary (p, s, g) (p, s, g)"
| m_Begin: "at_begin ml p \<Longrightarrow> matches (Begin ml) (p, s, g) (p, s, g)"
| m_End: "at_end s \<Longrightarrow> matches End (p, s, g) (p, s, g)"
| m_Ahead: "matches a st st1 \<Longrightarrow> matches (Ahead a) st st"

inductive_cases matches_elims:
  "matches Void st st'" "matches Eps st st'" "matches (One ic neg ks) st st'" "matches (Cat a b) st st'"
  "matches (Or a b) st st'" "matches (Group n a) st st'" "matches Boundary st st'"
  "matches (Begin ml) st st'" "matches End st st'" "matches (Ahead a) st st'"

inductive_cases matches_StarE: "matches (Star greedy a) st st'"

lemma matches_Cat_iff: "matches (Cat a b) st st' \<longleftrightarrow> (\<exists>st1. matches a st st1 \<and> matches b st1 st')"
  by (blast intro: m_Cat elim: matches_elims)

lemma matches_Or_iff: "matches (Or a b) st st' \<longleftrightarrow> matches a st st' \<or> matches b st st'"
  by (auto intro: m_Or1 m_Or2 elim: matches_elims)

lemma matches_One_iff:
  "matches (One ic neg ks) (p, s, g) st' \<longleftrightarrow> (\<exists>c s'. s = c # s' \<and> accepts ic neg ks c \<and> st' = (Some c, s', g))"
  by (auto intro: m_One elim: matches_elims)

lemma matches_Star_iff: "matches (Star b a) st st' \<longleftrightarrow> st' = st \<or>
    (\<exists>st1. matches a st st1 \<and> length (rest_of st1) < length (rest_of st) \<and> matches (Star b a) st1 st')"
  by (auto intro: m_Stop m_More elim: matches_StarE)

theorem rmatch_iff: "st' \<in> set (rmatch r st) \<longleftrightarrow> matches r st st'"
proof (induction r st arbitrary: st' rule: rmatch.induct)
  case (3 ic neg ks st)
  obtain p s g where "st = (p, s, g)" by (cases st)
  then show ?case by (cases s) (auto simp: one_char_def matches_One_iff)
next
  case (4 a b st)
  have "st' \<in> set (rmatch (Cat a b) st) \<longleftrightarrow> (\<exists>st1 \<in> set (rmatch a st). st' \<in> set (rmatch b st1))" by simp
  also have "\<dots> \<longleftrightarrow> matches (Cat a b) st st'" unfolding matches_Cat_iff using 4 by blast
  finally show ?case .
next
  case (5 a b st)
  then show ?case by (auto simp: matches_Or_iff)
next
  case (6 greedy a st)
  have "st' \<in> set (rmatch (Star greedy a) st) \<longleftrightarrow> st' = st \<or>
    (\<exists>st1 \<in> set (rmatch a st). length (rest_of st1) < length (rest_of st) \<and> st' \<in> set (rmatch (Star greedy a) st1))"
    unfolding rmatch.simps(6) [of greedy a st] Let_def by (auto split: if_splits)
  also have "\<dots> \<longleftrightarrow> matches (Star greedy a) st st'"
    unfolding matches_Star_iff [of greedy a st] using 6 by blast
  finally show ?case .
next
  case (8 st)
  show ?case by (cases st) (auto simp: guard_pos_def intro: m_Boundary elim: matches_elims)
next
  case (9 ml st)
  show ?case by (cases st) (auto simp: guard_pos_def intro: m_Begin elim: matches_elims)
next
  case (10 st)
  show ?case by (cases st) (auto simp: guard_pos_def intro: m_End elim: matches_elims)
next
  case (11 a st)
  show ?case
  proof
    assume "st' \<in> set (rmatch (Ahead a) st)"
    then have "st' = st" "rmatch a st \<noteq> []" by (auto simp: guard_pos_def split: if_splits)
    then obtain st1 where "st1 \<in> set (rmatch a st)" by (cases "rmatch a st") auto
    with 11 \<open>st' = st\<close> show "matches (Ahead a) st st'" by (auto intro: m_Ahead)
  next
    assume "matches (Ahead a) st st'"
    then obtain st1 where "st' = st" "matches a st st1" by (auto elim: matches_elims)
    with 11 have "st1 \<in> set (rmatch a st)" by simp
    with \<open>st' = st\<close> show "st' \<in> set (rmatch (Ahead a) st)" by (auto simp: guard_pos_def)
  qed
qed (auto intro: matches.intros elim: matches_elims)

lemma matches_suffix: "matches r st st' \<Longrightarrow> \<exists>w. rest_of st = w @ rest_of st'"
  by (induction rule: matches.induct) (auto simp: capture_def)

definition prev_char :: "char option \<Rightarrow> string \<Rightarrow> char option" where
  "prev_char p w = (if w = [] then p else Some (last w))"

lemma prev_char_simps [simp]:
  "prev_char p [] = p" "prev_char p (c # w) = prev_char (Some c) w" "prev_char p (w @ [c]) = Some c"
  by (auto simp: prev_char_def)

text \<open>A successful match splits the text into the part before, the match and the rest.\<close>

definition found_at :: "regex \<Rightarrow> char option \<Rightarrow> string \<Rightarrow> re_match \<Rightarrow> bool" where
  "found_at r p s m \<longleftrightarrow> s = m_before m @ m_text m @ m_rest m \<and>
     matches r (prev_char p (m_before m), m_text m @ m_rest m, []) (m_prev m, m_rest m, m_caps m)"

definition no_match :: "regex \<Rightarrow> char option \<Rightarrow> string \<Rightarrow> bool" where
  "no_match r p s \<longleftrightarrow> (\<forall>st'. \<not> matches r (p, s, []) st')"

lemma match_at_None: "match_at r p s = None \<longleftrightarrow> no_match r p s"
  unfolding no_match_def rmatch_iff [symmetric] match_at_def by (cases "rmatch r (p, s, [])") auto

lemma match_at_Some: "match_at r p s = Some m \<Longrightarrow> found_at r p s m \<and> m_before m = []"
proof -
  assume a: "match_at r p s = Some m"
  then obtain p' s' g ps where r: "rmatch r (p, s, []) = (p', s', g) # ps"
    and m: "m = \<lparr>m_before = [], m_text = take (length s - length s') s, m_prev = p', m_rest = s', m_caps = g\<rparr>"
    by (auto simp: match_at_def split: list.splits)
  have mt: "matches r (p, s, []) (p', s', g)" unfolding rmatch_iff [symmetric] r by simp
  from matches_suffix [OF this] obtain w where "s = w @ s'" by auto
  with mt m show ?thesis by (simp add: found_at_def)
qed

lemma search_from_spec:
  "case search_from r p s of
     None \<Rightarrow> \<forall>pre post. s = pre @ post \<longrightarrow> no_match r (prev_char p pre) post
   | Some m \<Rightarrow> found_at r p s m \<and>
       (\<forall>pre post. s = pre @ post \<longrightarrow> length pre < length (m_before m) \<longrightarrow> no_match r (prev_char p pre) post)"
proof (induction r p s rule: search_from.induct)
  case (1 r p)
  then show ?case using match_at_None [of r p "[]"] match_at_Some [of r p "[]"] by (cases "match_at r p []") auto
next
  case (2 r p c s)
  show ?case
  proof (cases "match_at r p (c # s)")
    case (Some m)
    then show ?thesis using match_at_Some [OF Some] by simp
  next
    case None
    then have n: "no_match r p (c # s)" by (simp add: match_at_None)
    have ih: "case search_from r (Some c) s of
     None \<Rightarrow> \<forall>pre post. s = pre @ post \<longrightarrow> no_match r (prev_char (Some c) pre) post
   | Some m \<Rightarrow> found_at r (Some c) s m \<and>
       (\<forall>pre post. s = pre @ post \<longrightarrow> length pre < length (m_before m) \<longrightarrow> no_match r (prev_char (Some c) pre) post)"
      using 2 None by simp
    show ?thesis
    proof (cases "search_from r (Some c) s")
      case None': None
      have "no_match r (prev_char p pre) post" if "c # s = pre @ post" for pre post
        using that n ih None' by (cases pre) auto
      then show ?thesis using None None' by simp
    next
      case (Some m)
      have "no_match r (prev_char p pre) post" if "c # s = pre @ post" "length pre < Suc (length (m_before m))" for pre post
        using that n ih Some by (cases pre) auto
      then show ?thesis using None Some ih by (auto simp: found_at_def)
    qed
  qed
qed

text \<open>\<open>re.search\<close> is sound, complete and leftmost: a result is a genuine match of the pattern at
  the place it names, with no match starting further left, and no result means that the
  pattern matches nowhere in the text.\<close>

theorem re_search_spec:
  "case re_search r s of
     None \<Rightarrow> \<forall>pre post. s = pre @ post \<longrightarrow> no_match r (prev_char None pre) post
   | Some m \<Rightarrow> found_at r None s m \<and>
       (\<forall>pre post. s = pre @ post \<longrightarrow> length pre < length (m_before m) \<longrightarrow> no_match r (prev_char None pre) post)"
  unfolding re_search_def by (rule search_from_spec)

lemma re_found_iff: "re_found r s \<longleftrightarrow> (\<exists>pre post st'. s = pre @ post \<and> matches r (prev_char None pre, post, []) st')"
proof (cases "re_search r s")
  case None
  then show ?thesis using re_search_spec [where r = r and s = s] by (auto simp: re_found_def no_match_def)
next
  case (Some m)
  then have "found_at r None s m" using re_search_spec [where r = r and s = s] by simp
  then show ?thesis using Some unfolding re_found_def found_at_def by fastforce
qed

lemma re_found_search: "re_found r s \<longleftrightarrow> (\<exists>m. re_search r s = Some m)"
  by (cases "re_search r s") (simp_all add: re_found_def)

lemma re_found_Or: "re_found (Or a b) s \<longleftrightarrow> re_found a s \<or> re_found b s"
  unfolding re_found_iff matches_Or_iff by blast

section \<open>Literal patterns\<close>

definition lit_item :: "char \<Rightarrow> regex" where
  "lit_item c = One False False [CChar c]"

definition is_literal :: "string \<Rightarrow> regex \<Rightarrow> bool" where
  "is_literal w r \<longleftrightarrow> r = cat_items (rev (map lit_item w))"

lemma matches_lit_item: "matches (lit_item c) (p, s, g) st' \<longleftrightarrow> (\<exists>s'. s = c # s' \<and> st' = (Some c, s', g))"
  by (auto simp: lit_item_def matches_One_iff accepts_def)

lemma matches_foldl_Cat:
  "matches (foldl Cat r (map lit_item w)) st st' \<longleftrightarrow>
    (\<exists>p s g. matches r st (p, w @ s, g) \<and> st' = (prev_char p w, s, g))"
proof (induction w arbitrary: r st')
  case Nil
  then show ?case by (cases st') auto
next
  case (Cons c w)
  have "matches (foldl Cat r (map lit_item (c # w))) st st' \<longleftrightarrow>
     (\<exists>p s g. matches (Cat r (lit_item c)) st (p, w @ s, g) \<and> st' = (prev_char p w, s, g))"
    using Cons by simp
  also have "\<dots> \<longleftrightarrow> (\<exists>p s g. matches r st (p, (c # w) @ s, g) \<and> st' = (prev_char p (c # w), s, g))"
    by (auto simp: matches_Cat_iff matches_lit_item)
  finally show ?case .
qed

lemma matches_literal:
  assumes "is_literal w r" "w \<noteq> []"
  shows "matches r (p, s, g) st' \<longleftrightarrow> (\<exists>s'. s = w @ s' \<and> st' = (prev_char p w, s', g))"
proof -
  from assms(2) obtain c v where w: "w = c # v" by (cases w) auto
  then have "r = foldl Cat (lit_item c) (map lit_item v)" using assms(1) by (simp add: is_literal_def cat_items_def)
  then show ?thesis by (auto simp: matches_foldl_Cat matches_lit_item w)
qed

lemma re_found_literal:
  assumes "is_literal w r" "w \<noteq> []" shows "re_found r s \<longleftrightarrow> str_in w s"
  unfolding re_found_iff str_in_iff matches_literal [OF assms] by auto

end
