(* ===== verification/PyFloat.thy ===== *)
theory PyFloat
  imports Complex_Main Prelude
begin

text \<open>
  Python's \<open>float\<close>: IEEE 754 binary64 numbers with round-half-even, as exact rationals.
  \<open>fl\<close> rounds a rational to the nearest double (subnormals included), \<open>py_float\<close> is
  \<open>float(s)\<close> on a string and \<open>fixed\<close> is the \<open>:.nf\<close> format.  Only the sign of zero is not
  represented.  The error bound \<open>fl_error\<close> is what the duration lemmas of \<open>Config\<close> use.
\<close>

section \<open>Rounding\<close>

definition round_half_even :: "rat \<Rightarrow> int" where
  "round_half_even x = (let f = \<lfloor>x\<rfloor>; r = x - of_int f in
     if r < 1 / 2 then f else if r > 1 / 2 then f + 1 else if even f then f else f + 1)"

text \<open>\<open>ilog2 x\<close> for positive \<open>x\<close>: the integer \<open>k\<close> with \<open>2^k \<le> x < 2^(k+1)\<close>.\<close>

function ilog2_up :: "rat \<Rightarrow> int" where
  "ilog2_up x = (if x < 2 then 0 else 1 + ilog2_up (x / 2))"
  by pat_completeness auto
termination
proof (relation "measure (\<lambda>x. nat \<lfloor>x\<rfloor>)")
  fix x :: rat
  assume "\<not> x < 2"
  then have x: "2 \<le> x" by simp
  then have "x / 2 \<le> x - 1" by simp
  then have "\<lfloor>x / 2\<rfloor> \<le> \<lfloor>x\<rfloor> - 1" by linarith
  moreover have "1 \<le> \<lfloor>x / 2\<rfloor>" using x by (simp add: le_floor_iff)
  ultimately show "(x / 2, x) \<in> measure (\<lambda>x. nat \<lfloor>x\<rfloor>)" by simp
qed simp

definition ilog2 :: "rat \<Rightarrow> int" where
  "ilog2 x = (if 1 \<le> x then ilog2_up x else
     (let k = ilog2_up (1 / x) in if 1 / x = 2 ^ nat k then - k else - k - 1))"

declare ilog2_up.simps [simp del]

definition pow2 :: "int \<Rightarrow> rat" where
  "pow2 k = (if 0 \<le> k then 2 ^ nat k else 1 / 2 ^ nat (- k))"

definition fl :: "rat \<Rightarrow> rat" where
  "fl x = (if x = 0 then 0 else
     (let u = pow2 (max (ilog2 \<bar>x\<bar> - 52) (-1074)) in of_int (round_half_even (x / u)) * u))"

section \<open>Values\<close>

datatype pyfloat = Fin rat | PosInf | NegInf | NaN

text \<open>The comparisons \<open>x < y\<close> and \<open>x <= y\<close> (false on not-a-number) and \<open>max(x, y)\<close>, which is
  \<open>x\<close> unless \<open>y > x\<close>.  An integer is compared by its exact value.\<close>

fun pf_less :: "pyfloat \<Rightarrow> pyfloat \<Rightarrow> bool" where
  "pf_less (Fin x) (Fin y) = (x < y)"
| "pf_less NaN _ = False"
| "pf_less _ NaN = False"
| "pf_less PosInf _ = False"
| "pf_less _ PosInf = True"
| "pf_less _ NegInf = False"
| "pf_less NegInf _ = True"

definition pf_le :: "pyfloat \<Rightarrow> pyfloat \<Rightarrow> bool" where
  "pf_le x y = (pf_less x y \<or> x = y \<and> x \<noteq> NaN)"

definition pf_max :: "pyfloat \<Rightarrow> pyfloat \<Rightarrow> pyfloat" where
  "pf_max x y = (if pf_less x y then y else x)"

text \<open>The largest finite double, \<open>(2^53 - 1) * 2^971\<close>.\<close>

definition float_max :: rat where
  "float_max =
   179769313486231570814527423731704356798070567525844996598917476803157260780028538760589558632766878171540458953514382464234321326889464182768467546703537516986049910576551282076245490090389328944075868508455133942304583236903222948165808559332123348274797826204144723168738177180919299881250404026184124858368"

definition to_pyfloat :: "rat \<Rightarrow> pyfloat" where
  "to_pyfloat x = (let y = fl x in
     if y > float_max then PosInf else if y < - float_max then NegInf else Fin y)"

text \<open>
  \<open>float(s)\<close>: \<open>None\<close> is \<open>ValueError\<close>.  The literal is a decimal with an optional point
  and exponent, or one of the names of infinity and not-a-number, in any case.
\<close>

definition float_digits :: "string \<Rightarrow> int option" where
  "float_digits s = (if s = [] then Some 0 else if digits_ok s then Some (digits_value s) else None)"

definition parse_exponent :: "string option \<Rightarrow> int option" where
  "parse_exponent e = (case e of None \<Rightarrow> Some 0
     | Some [] \<Rightarrow> None
     | Some (c # cs) \<Rightarrow>
         if c = CHR ''-'' then (if digits_ok cs then Some (- digits_value cs) else None)
         else if c = CHR ''+'' then (if digits_ok cs then Some (digits_value cs) else None)
         else if digits_ok (c # cs) then Some (digits_value (c # cs)) else None)"

definition pow10 :: "int \<Rightarrow> rat" where
  "pow10 k = (if 0 \<le> k then 10 ^ nat k else 1 / 10 ^ nat (- k))"

definition parse_decimal :: "string \<Rightarrow> rat option" where
  "parse_decimal s = (let (m, e) = split1 (CHR ''e'') s; (ip, fp) = split1 (CHR ''.'') m;
       frac = (case fp of None \<Rightarrow> [] | Some f \<Rightarrow> f)
     in if ip = [] \<and> frac = [] then None
        else case (float_digits ip, float_digits frac, parse_exponent e) of
          (Some i, Some f, Some k) \<Rightarrow>
            Some ((of_int i + of_int f / 10 ^ length (remove_char (CHR ''_'') frac)) * pow10 k)
        | _ \<Rightarrow> None)"

definition negate_float :: "pyfloat \<Rightarrow> pyfloat" where
  "negate_float x = (case x of Fin r \<Rightarrow> Fin (- r) | PosInf \<Rightarrow> NegInf | NegInf \<Rightarrow> PosInf | NaN \<Rightarrow> NaN)"

definition parse_unsigned :: "string \<Rightarrow> pyfloat option" where
  "parse_unsigned s =
     (if s = ''inf'' \<or> s = ''infinity'' then Some PosInf
      else if s = ''nan'' then Some NaN
      else map_option to_pyfloat (parse_decimal s))"

definition py_float :: "string \<Rightarrow> pyfloat option" where
  "py_float s = (case py_lower (strip s) of
     [] \<Rightarrow> None
   | c # cs \<Rightarrow>
       if c = CHR ''-'' then map_option negate_float (parse_unsigned cs)
       else if c = CHR ''+'' then parse_unsigned cs
       else parse_unsigned (c # cs))"

text \<open>\<open>int(x)\<close> truncates towards zero.\<close>

definition trunc :: "rat \<Rightarrow> int" where
  "trunc x = (if 0 \<le> x then \<lfloor>x\<rfloor> else - \<lfloor>- x\<rfloor>)"

text \<open>The \<open>:.nf\<close> format of a finite float.\<close>

definition fixed :: "nat \<Rightarrow> rat \<Rightarrow> string" where
  "fixed n x = (let q = round_half_even (\<bar>x\<bar> * 10 ^ n); d = int_digits q;
       p = rjust (n + 1) (CHR ''0'') d; k = length p - n
     in (if x < 0 then ''-'' else []) @ take k p @ (if n = 0 then [] else CHR ''.'' # drop k p))"

definition pf_fixed :: "nat \<Rightarrow> pyfloat \<Rightarrow> string" where
  "pf_fixed n x = (case x of Fin r \<Rightarrow> fixed n r | PosInf \<Rightarrow> ''inf'' | NegInf \<Rightarrow> ''-inf'' | NaN \<Rightarrow> ''nan'')"

text \<open>
  \<open>repr(x)\<close>: the shortest decimal that rounds back to the same double, in positional notation
  for decimal exponents from -4 to 15 and in scientific notation otherwise.
\<close>

function ilog10_up :: "rat \<Rightarrow> int" where
  "ilog10_up x = (if x < 10 then 0 else 1 + ilog10_up (x / 10))"
  by pat_completeness auto
termination
proof (relation "measure (\<lambda>x. nat \<lfloor>x\<rfloor>)")
  fix x :: rat
  assume "\<not> x < 10"
  then have x: "10 \<le> x" by simp
  then have "x / 10 \<le> x - 1" by simp
  then have "\<lfloor>x / 10\<rfloor> \<le> \<lfloor>x\<rfloor> - 1" by linarith
  moreover have "1 \<le> \<lfloor>x / 10\<rfloor>" using x by (simp add: le_floor_iff)
  ultimately show "(x / 10, x) \<in> measure (\<lambda>x. nat \<lfloor>x\<rfloor>)" by simp
qed simp

declare ilog10_up.simps [simp del]

definition ilog10 :: "rat \<Rightarrow> int" where
  "ilog10 x = (if 1 \<le> x then ilog10_up x else
     (let k = ilog10_up (1 / x) in if 1 / x = 10 ^ nat k then - k else - k - 1))"

text \<open>\<open>n\<close> significant digits of a positive number, with the power of ten of the last one.\<close>

definition sig_digits :: "nat \<Rightarrow> rat \<Rightarrow> int \<times> int" where
  "sig_digits n x = (let k = ilog10 x - int n + 1 in (round_half_even (x / pow10 k), k))"

fun shortest :: "nat \<Rightarrow> nat \<Rightarrow> rat \<Rightarrow> int \<times> int" where
  "shortest 0 n x = sig_digits n x"
| "shortest (Suc fuel) n x = (let (q, k) = sig_digits n x in
     if fl (of_int q * pow10 k) = x then (q, k) else shortest fuel (Suc n) x)"

fun drop_zeros :: "string \<Rightarrow> string" where
  "drop_zeros s = rev (dropWhile (\<lambda>c. c = CHR ''0'') (rev s))"

definition repr_positive :: "rat \<Rightarrow> string" where
  "repr_positive x = (let (q, k) = shortest 16 1 x; ds = int_digits q;
       e = int (length ds) - 1 + k; sig = drop_zeros ds
     in if -4 \<le> e \<and> e < 16 then
          (if e < 0 then ''0.'' @ replicate (nat (- e) - 1) (CHR ''0'') @ sig
           else let ip = take (nat e + 1) sig; fp = drop (nat e + 1) sig
             in ip @ replicate (nat e + 1 - length ip) (CHR ''0'') @ CHR ''.'' # (if fp = [] then ''0'' else fp))
        else (case sig of [] \<Rightarrow> [] | c # cs \<Rightarrow>
          c # (if cs = [] then [] else CHR ''.'' # cs) @ CHR ''e'' # (if e < 0 then ''-'' else ''+'') @
          rjust 2 (CHR ''0'') (int_digits \<bar>e\<bar>)))"

definition float_repr :: "pyfloat \<Rightarrow> string" where
  "float_repr v = (case v of PosInf \<Rightarrow> ''inf'' | NegInf \<Rightarrow> ''-inf'' | NaN \<Rightarrow> ''nan''
     | Fin x \<Rightarrow> if x = 0 then ''0.0'' else if x < 0 then ''-'' @ repr_positive (- x) else repr_positive x)"

section \<open>The rounding error\<close>

lemma round_half_even_error: "\<bar>of_int (round_half_even x) - x\<bar> \<le> 1 / 2"
proof -
  have "of_int \<lfloor>x\<rfloor> \<le> x" "x < of_int \<lfloor>x\<rfloor> + 1" by linarith+
  then show ?thesis by (simp add: round_half_even_def Let_def abs_le_iff)
qed

lemma round_half_even_of_int [simp]: "round_half_even (of_int n) = n"
  by (simp add: round_half_even_def)

lemma round_half_even_mono: "x \<le> y \<Longrightarrow> round_half_even x \<le> round_half_even y"
proof -
  assume xy: "x \<le> y"
  show ?thesis
  proof (cases "\<lfloor>x\<rfloor> = \<lfloor>y\<rfloor>")
    case True
    show ?thesis unfolding round_half_even_def Let_def True by (use xy in auto)
  next
    case False
    with xy have "\<lfloor>x\<rfloor> + 1 \<le> \<lfloor>y\<rfloor>" using floor_mono [OF xy] by linarith
    moreover have "round_half_even x \<le> \<lfloor>x\<rfloor> + 1" "\<lfloor>y\<rfloor> \<le> round_half_even y"
      by (simp_all add: round_half_even_def Let_def)
    ultimately show ?thesis by linarith
  qed
qed

lemma pow2_pos [simp]: "0 < pow2 k"
  by (simp add: pow2_def)

lemma pow2_nonzero [simp]: "pow2 k \<noteq> 0"
  by (simp add: pow2_def)

lemma pow2_abs [simp]: "\<bar>pow2 k\<bar> = pow2 k"
  by (rule abs_of_pos) simp

lemma pow2_add: "pow2 (a + b) = pow2 a * pow2 b"
proof -
  have p: "pow2 k = (2::rat) powi k" for k
    by (simp add: pow2_def power_int_def inverse_eq_divide power_one_over)
  show ?thesis by (simp add: p power_int_add)
qed

lemma ilog2_up_spec: "1 \<le> x \<Longrightarrow> 0 \<le> ilog2_up x \<and> pow2 (ilog2_up x) \<le> x \<and> x < pow2 (ilog2_up x + 1)"
proof (induction x rule: ilog2_up.induct)
  case (1 x)
  show ?case
  proof (cases "x < 2")
    case True
    with 1 show ?thesis by (subst (1 2 3) ilog2_up.simps) (simp add: pow2_def)
  next
    case False
    with 1 have IH: "0 \<le> ilog2_up (x / 2)" "pow2 (ilog2_up (x / 2)) \<le> x / 2" "x / 2 < pow2 (ilog2_up (x / 2) + 1)"
      by simp_all
    have e: "ilog2_up x = 1 + ilog2_up (x / 2)" using False by (subst ilog2_up.simps) simp
    have d: "pow2 (1 + k) = 2 * pow2 k" for k using pow2_add [of 1 k] by (simp add: pow2_def [of 1])
    have "1 + ilog2_up (x / 2) + 1 = 1 + (ilog2_up (x / 2) + 1)" by simp
    with IH show ?thesis unfolding e by (simp only: d) simp
  qed
qed

lemma ilog2_spec:
  assumes "0 < x"
  shows "pow2 (ilog2 x) \<le> x"
proof (cases "1 \<le> x")
  case True
  then show ?thesis using ilog2_up_spec by (simp add: ilog2_def)
next
  case False
  with assms have "1 \<le> 1 / x" by simp
  note up = ilog2_up_spec [OF this]
  let ?k = "ilog2_up (1 / x)"
  have inv: "pow2 (- m) = 1 / pow2 m" for m by (auto simp: pow2_def)
  show ?thesis
  proof (cases "1 / x = 2 ^ nat ?k")
    case True
    then have "1 / x = pow2 ?k" using up by (simp add: pow2_def)
    with False True assms show ?thesis by (simp add: ilog2_def Let_def inv field_simps)
  next
    case no: False
    have "1 / x < pow2 (?k + 1)" using up by simp
    then have "1 / pow2 (?k + 1) < x"
      using assms by (simp add: field_simps)
    moreover have "pow2 (- ?k - 1) = 1 / pow2 (?k + 1)" using inv [of "?k + 1"] by simp
    ultimately have "pow2 (- ?k - 1) \<le> x" by simp
    with False no show ?thesis by (simp add: ilog2_def Let_def)
  qed
qed

text \<open>The relative error is at most \<open>2^-53\<close>, the absolute one below \<open>2^-1074\<close> for tiny values.\<close>

lemma fl_error: "\<bar>fl x - x\<bar> \<le> \<bar>x\<bar> / 2 ^ 53 + 1 / 2 ^ 1074"
proof (cases "x = 0")
  case False
  let ?k = "max (ilog2 \<bar>x\<bar> - 52) (-1074)"
  let ?u = "pow2 ?k"
  have f: "fl x = of_int (round_half_even (x / ?u)) * ?u" using False by (simp add: fl_def Let_def)
  have "\<bar>fl x - x\<bar> = \<bar>of_int (round_half_even (x / ?u)) - x / ?u\<bar> * ?u"
  proof -
    have "fl x - x = (of_int (round_half_even (x / ?u)) - x / ?u) * ?u"
      using pow2_pos [of ?k] unfolding f by (simp add: field_simps)
    then show ?thesis using pow2_pos [of ?k] by (simp add: abs_mult)
  qed
  also have "\<dots> \<le> 1 / 2 * ?u" using round_half_even_error by (intro mult_right_mono) (auto simp: less_imp_le)
  also have "\<dots> \<le> \<bar>x\<bar> / 2 ^ 53 + 1 / 2 ^ 1074"
  proof (cases "ilog2 \<bar>x\<bar> - 52 \<le> -1074")
    case True
    then have "?u = 1 / 2 ^ 1074" by (simp add: pow2_def max_def)
    moreover have "0 \<le> \<bar>x\<bar> / 2 ^ 53" by simp
    ultimately show ?thesis by simp
  next
    case no: False
    then have u: "?u = pow2 (ilog2 \<bar>x\<bar>) * pow2 (-52)" using pow2_add [of "ilog2 \<bar>x\<bar>" "-52"] by (simp add: max_def)
    have "pow2 (ilog2 \<bar>x\<bar>) \<le> \<bar>x\<bar>" using ilog2_spec False by simp
    then have "1 / 2 * ?u \<le> 1 / 2 * (\<bar>x\<bar> * pow2 (-52))" unfolding u by (intro mult_left_mono mult_right_mono) (auto simp: less_imp_le)
    also have "\<dots> = \<bar>x\<bar> / 2 ^ 53" by (simp add: pow2_def)
    also have "\<dots> \<le> \<bar>x\<bar> / 2 ^ 53 + 1 / 2 ^ 1074" by simp
    finally show ?thesis .
  qed
  finally show ?thesis .
qed (simp add: fl_def)

lemma fl_nonneg: "0 \<le> x \<Longrightarrow> 0 \<le> fl x"
proof (cases "x = 0")
  case False
  assume "0 \<le> x"
  let ?u = "pow2 (max (ilog2 \<bar>x\<bar> - 52) (-1074))"
  have "0 \<le> round_half_even (x / ?u)"
    using round_half_even_mono [of 0 "x / ?u"] round_half_even_of_int [of 0] \<open>0 \<le> x\<close> by (simp add: less_imp_le)
  with False show ?thesis by (simp add: fl_def Let_def less_imp_le)
qed (simp add: fl_def)

end
