(* ===== verification/UtilText.thy ===== *)
theory UtilText
  imports PyRegex PyFloat
begin

text \<open>
  The text and operating-system helpers of \<open>util.py\<close>.  The operating system is a parameter:
  \<open>sys\<close> is one reading of it, with the contents of files (\<open>read_file\<close> gives the empty string
  for a file that cannot be read), the results of \<open>glob.glob\<close>, of \<open>os.path.exists\<close> and of
  external commands (\<open>run\<close> never raises).
\<close>

record cmd_result =
  returncode :: int
  stdout :: string
  stderr :: string

record sys =
  read_file :: "string \<Rightarrow> string"
  glob :: "string \<Rightarrow> string list"
  path_exists :: "string \<Rightarrow> bool"
  run_cmd :: "string list \<Rightarrow> cmd_result"

definition out :: "sys \<Rightarrow> string list \<Rightarrow> string" where
  "out sy cmd = (let res = run_cmd sy cmd in if returncode res = 0 then stdout res else [])"

definition read_int :: "sys \<Rightarrow> string \<Rightarrow> int \<Rightarrow> int" where
  "read_int sy path dflt = (case py_int (strip (read_file sy path)) of Some i \<Rightarrow> i | None \<Rightarrow> dflt)"

definition newline :: string where
  "newline = [CHR 0x0A]"

section \<open>Paths\<close>

definition path_join :: "string \<Rightarrow> string \<Rightarrow> string" where
  "path_join a b = (if startswith b ''/'' then b
     else if a = [] \<or> last a = CHR ''/'' then a @ b else a @ ''/'' @ b)"

definition basename :: "string \<Rightarrow> string" where
  "basename p = last (split_on (CHR ''/'') p)"

definition dirname :: "string \<Rightarrow> string" where
  "dirname p = (let head = join ''/'' (butlast (split_on (CHR ''/'') p));
                    cut = rev (dropWhile (\<lambda>c. c = CHR ''/'') (rev head))
                in if \<not> str_in ''/'' p then [] else if cut = [] then head @ ''/'' else cut)"

section \<open>Formatting\<close>

definition fmt_duration :: "rat \<Rightarrow> string" where
  "fmt_duration seconds = (let s = trunc (max 0 seconds);
       h = s div 3600; rem = s mod 3600; mi = rem div 60; sec = rem mod 60
     in int_str h @ '':'' @ rjust 2 (CHR ''0'') (int_str mi) @ '':'' @ rjust 2 (CHR ''0'') (int_str sec))"

fun fmt_units :: "rat \<Rightarrow> string list \<Rightarrow> string" where
  "fmt_units n [] = fixed 1 n @ '' PiB''"
| "fmt_units n (u # us) =
    (if \<bar>n\<bar> < 1024 \<or> u = ''PiB'' then (if u \<noteq> ''B'' then fixed 1 n @ '' '' @ u else int_str (trunc n) @ '' B'')
     else fmt_units (fl (n / 1024)) us)"

definition fmt_bytes :: "rat \<Rightarrow> string" where
  "fmt_bytes n = fmt_units (fl n) [''B'', ''KiB'', ''MiB'', ''GiB'', ''TiB'', ''PiB'']"

definition fmt_int_bytes :: "int \<Rightarrow> string" where
  "fmt_int_bytes n = fmt_bytes (of_int n)"

definition SAFE_RE :: regex where
  "SAFE_RE = re_compile no_flags ''[^A-Za-z0-9._-]+''"

definition safe_name :: "string \<Rightarrow> string" where
  "safe_name text = (let t = take 48 (strip_char (CHR ''_'') (re_sub SAFE_RE ''_'' text))
     in if t = [] then ''unknown'' else t)"

definition MEMINFO_RE :: regex where
  "MEMINFO_RE = re_compile no_flags (raw ''(`w+):`s+(`d+)'')"

definition meminfo_of :: "string \<Rightarrow> (string, int) dict" where
  "meminfo_of text = fold (\<lambda>line info. case re_match_start MEMINFO_RE line of
       Some m \<Rightarrow> (case (m_group m 1, m_group m 2) of
           (Some k, Some v) \<Rightarrow> AList.update k (digits_value v * 1024) info | _ \<Rightarrow> info)
     | None \<Rightarrow> info) (splitlines text) []"

definition meminfo :: "sys \<Rightarrow> (string, int) dict" where
  "meminfo sy = meminfo_of (read_file sy ''/proc/meminfo'')"

end
