(* ===== verification/PyValue.thy ===== *)
theory PyValue
  imports PyFloat
begin

text \<open>
  JSON values as Python holds them after \<open>json.load\<close>, with the accessors the program uses
  on them.  A method call on a value of the wrong class raises \<open>AttributeError\<close>, as
  \<open>x.get\<close> does on anything but a dict.
\<close>

datatype pyval =
    PNone
  | PBool bool
  | PInt int
  | PFloat pyfloat
  | PStr string
  | PList "pyval list"
  | PDict "(string \<times> pyval) list"

text \<open>Truth value of a value: \<open>bool(x)\<close>.\<close>

fun truthy :: "pyval \<Rightarrow> bool" where
  "truthy PNone = False"
| "truthy (PBool b) = b"
| "truthy (PInt i) = (i \<noteq> 0)"
| "truthy (PFloat x) = (x \<noteq> Fin 0)"
| "truthy (PStr s) = (s \<noteq> [])"
| "truthy (PList xs) = (xs \<noteq> [])"
| "truthy (PDict d) = (d \<noteq> [])"

text \<open>\<open>x.get(k, dflt)\<close>.\<close>

fun py_get :: "pyval \<Rightarrow> string \<Rightarrow> pyval \<Rightarrow> exn + pyval" where
  "py_get (PDict d) k v = Inr (dict_get d k v)"
| "py_get _ k v = Inl (AttributeError ''object has no attribute 'get' '')"

text \<open>\<open>k in x\<close> for a dict.\<close>

definition has_key :: "(string \<times> pyval) list \<Rightarrow> string \<Rightarrow> bool" where
  "has_key d k = (map_of d k \<noteq> None)"

text \<open>\<open>int(x)\<close> of a value.\<close>

fun py_int_of :: "pyval \<Rightarrow> exn + int" where
  "py_int_of (PBool b) = Inr (if b then 1 else 0)"
| "py_int_of (PInt i) = Inr i"
| "py_int_of (PFloat x) = (case x of Fin r \<Rightarrow> Inr (trunc r)
     | NaN \<Rightarrow> Inl (ValueError ''cannot convert float NaN to integer'')
     | _ \<Rightarrow> Inl (OverflowError ''cannot convert float infinity to integer''))"
| "py_int_of (PStr s) = (case py_int s of Some i \<Rightarrow> Inr i
     | None \<Rightarrow> Inl (ValueError (''invalid literal for int() with base 10: '' @ s)))"
| "py_int_of _ = Inl (TypeError ''int() argument must be a string or a number'')"

lemma truthy_PDict_nonempty: "truthy (PDict d) \<longleftrightarrow> d \<noteq> []"
  by simp

end
