(* ===== verification/Config.thy ===== *)
theory Config
  imports PyValue
begin

text \<open>
  Models \<open>config.py\<close>: the option record, the parsers of the kernel command line (with the
  POSIX tokenizer of \<open>shlex.split\<close>) and of \<open>pccheck.conf\<close>, the typed assignment
  \<open>_apply\<close>, the range checks of \<open>load_options\<close> and the phase plan of \<open>build_plan\<close>.
  The texts of the two sources are arguments.
\<close>

section \<open>Profiles and phases\<close>

record profile_info =
  pi_hours :: rat
  pi_disk_wait_hours :: rat
  pi_long_selftest :: bool
  pi_label :: string

definition PROFILES :: "(string, profile_info) dict" where
  "PROFILES =
    [(''quick'', \<lparr>pi_hours = 1, pi_disk_wait_hours = 0, pi_long_selftest = False, pi_label = ''Quick smoke test''\<rparr>),
     (''standard'', \<lparr>pi_hours = 12, pi_disk_wait_hours = 2, pi_long_selftest = True, pi_label = ''Standard burn-in''\<rparr>),
     (''extended'', \<lparr>pi_hours = 24, pi_disk_wait_hours = 8, pi_long_selftest = True, pi_label = ''Extended burn-in''\<rparr>),
     (''burnin'', \<lparr>pi_hours = 72, pi_disk_wait_hours = 24, pi_long_selftest = True, pi_label = ''Full burn-in''\<rparr>)]"

definition PHASE_WEIGHTS :: "(string \<times> rat) list" where
  "PHASE_WEIGHTS =
    [(''cpu'', fl (12 / 100)), (''memory'', fl (20 / 100)), (''mprime'', fl (14 / 100)),
     (''ycruncher'', fl (12 / 100)), (''transient'', fl (12 / 100)), (''idle'', fl (8 / 100)),
     (''combined'', fl (22 / 100))]"

section \<open>Options\<close>

record options =
  profile :: string
  hours :: pyfloat
  auto_start :: bool
  destructive :: string
  destructive_countdown :: int
  http :: bool
  identify :: bool
  max_unexpected_reboots :: int
  skip_phases :: "string list"
  iperf3 :: string
  reboot_cycles :: int
  reboot_method :: string
  ce_fail :: int
  mce_fail :: int
  aer_fail :: int
  sata_link_fail :: int
  cpu_temp_warn :: pyfloat
  drive_temp_warn :: pyfloat
  slow_read_seconds :: pyfloat
  validation_errors :: "string list"

definition default_options :: options where
  "default_options = \<lparr>profile = ''standard'', hours = Fin 0, auto_start = True, destructive = ''0'',
     destructive_countdown = 120, http = True, identify = True, max_unexpected_reboots = 3,
     skip_phases = [], iperf3 = [], reboot_cycles = 0, reboot_method = ''auto'',
     ce_fail = 1, mce_fail = 1, aer_fail = 20, sata_link_fail = 10,
     cpu_temp_warn = Fin 90, drive_temp_warn = Fin 70, slow_read_seconds = Fin 5,
     validation_errors = []\<rparr>"

definition profile_info :: "options \<Rightarrow> profile_info" where
  "profile_info o' = (case map_of PROFILES (profile o') of Some p \<Rightarrow> p
     | None \<Rightarrow> the (map_of PROFILES ''standard''))"

text \<open>\<open>x > 0\<close>, \<open>lo <= x <= hi\<close> and \<open>math.isfinite\<close> for floats; not-a-number compares false.\<close>

definition float_gt0 :: "pyfloat \<Rightarrow> bool" where
  "float_gt0 x = (case x of Fin r \<Rightarrow> r > 0 | PosInf \<Rightarrow> True | _ \<Rightarrow> False)"

definition float_between :: "rat \<Rightarrow> rat \<Rightarrow> pyfloat \<Rightarrow> bool" where
  "float_between lo hi x = (case x of Fin r \<Rightarrow> lo \<le> r \<and> r \<le> hi | _ \<Rightarrow> False)"

definition isfinite :: "pyfloat \<Rightarrow> bool" where
  "isfinite x = (case x of Fin _ \<Rightarrow> True | _ \<Rightarrow> False)"

definition total_hours :: "options \<Rightarrow> pyfloat" where
  "total_hours o' = (if float_gt0 (hours o') then hours o' else Fin (pi_hours (profile_info o')))"

definition is_destructive :: "options \<Rightarrow> bool" where
  "is_destructive o' = (destructive o' \<in> {''1'', ''yes'', ''true'', ''force''})"

section \<open>Assigning an option\<close>

definition parse_bool :: "string \<Rightarrow> bool" where
  "parse_bool value = (py_lower (strip value) \<in> {''1'', ''yes'', ''true'', ''on'', ''y''})"

text \<open>The option fields with the type of their current value, which selects the conversion.\<close>

datatype field =
    BoolField "bool \<Rightarrow> options \<Rightarrow> options"
  | IntField "int \<Rightarrow> options \<Rightarrow> options"
  | FloatField "pyfloat \<Rightarrow> options \<Rightarrow> options"
  | TupleField "string list \<Rightarrow> options \<Rightarrow> options"
  | StrField "string \<Rightarrow> options \<Rightarrow> options"

definition field_types :: "(string, field) dict" where
  "field_types =
    [(''profile'', StrField (\<lambda>v o'. o'\<lparr>profile := v\<rparr>)),
     (''hours'', FloatField (\<lambda>v o'. o'\<lparr>hours := v\<rparr>)),
     (''auto'', BoolField (\<lambda>v o'. o'\<lparr>auto_start := v\<rparr>)),
     (''destructive'', StrField (\<lambda>v o'. o'\<lparr>destructive := v\<rparr>)),
     (''destructive_countdown'', IntField (\<lambda>v o'. o'\<lparr>destructive_countdown := v\<rparr>)),
     (''http'', BoolField (\<lambda>v o'. o'\<lparr>http := v\<rparr>)),
     (''identify'', BoolField (\<lambda>v o'. o'\<lparr>identify := v\<rparr>)),
     (''max_unexpected_reboots'', IntField (\<lambda>v o'. o'\<lparr>max_unexpected_reboots := v\<rparr>)),
     (''skip'', TupleField (\<lambda>v o'. o'\<lparr>skip_phases := v\<rparr>)),
     (''iperf3'', StrField (\<lambda>v o'. o'\<lparr>iperf3 := v\<rparr>)),
     (''reboot_cycles'', IntField (\<lambda>v o'. o'\<lparr>reboot_cycles := v\<rparr>)),
     (''reboot_method'', StrField (\<lambda>v o'. o'\<lparr>reboot_method := v\<rparr>)),
     (''ce_fail'', IntField (\<lambda>v o'. o'\<lparr>ce_fail := v\<rparr>)),
     (''mce_fail'', IntField (\<lambda>v o'. o'\<lparr>mce_fail := v\<rparr>)),
     (''aer_fail'', IntField (\<lambda>v o'. o'\<lparr>aer_fail := v\<rparr>)),
     (''sata_link_fail'', IntField (\<lambda>v o'. o'\<lparr>sata_link_fail := v\<rparr>)),
     (''cpu_temp_warn'', FloatField (\<lambda>v o'. o'\<lparr>cpu_temp_warn := v\<rparr>)),
     (''drive_temp_warn'', FloatField (\<lambda>v o'. o'\<lparr>drive_temp_warn := v\<rparr>)),
     (''slow_read_seconds'', FloatField (\<lambda>v o'. o'\<lparr>slow_read_seconds := v\<rparr>))]"

definition bad_value :: "string \<Rightarrow> string \<Rightarrow> options \<Rightarrow> options" where
  "bad_value key value o' =
     o'\<lparr>validation_errors := validation_errors o' @ [''Invalid '' @ key @ '': '' @ value]\<rparr>"

definition set_field :: "field \<Rightarrow> string \<Rightarrow> options \<Rightarrow> options option" where
  "set_field f value o' = (case f of
     BoolField put \<Rightarrow> Some (put (parse_bool value) o')
   | IntField put \<Rightarrow> map_option (\<lambda>i. put i o') (py_int value)
   | FloatField put \<Rightarrow> map_option (\<lambda>x. put x o') (py_float value)
   | TupleField put \<Rightarrow> Some (put (filter (\<lambda>v. v \<noteq> []) (map strip (split_on (CHR '','') value))) o')
   | StrField put \<Rightarrow> Some (put (strip value) o'))"

definition option_key :: "string \<Rightarrow> string" where
  "option_key key = replace_char (CHR ''-'') (CHR ''_'') (py_lower (strip key))"

definition apply_option :: "string \<Rightarrow> string \<Rightarrow> options \<Rightarrow> options" where
  "apply_option key0 value o' = (let key = option_key key0 in
     case map_of field_types key of
       None \<Rightarrow> o'
     | Some f \<Rightarrow> (case set_field f value o' of
         None \<Rightarrow> bad_value key value o'
       | Some o'' \<Rightarrow>
           if key = ''profile'' \<and> map_of PROFILES (profile o'') = None
           then o''\<lparr>profile := ''standard''\<rparr> else o''))"

section \<open>Parsing the two sources\<close>

text \<open>
  \<open>shlex.split(text)\<close>: the tokenizer in POSIX mode, splitting at blanks only.  The states are
  between words, inside a word, inside quotes, and after a backslash (in a word or in double
  quotes).  \<open>None\<close> is \<open>ValueError\<close>: no closing quotation or no escaped character.
\<close>

datatype shlex_state = Blank | Word | Quoted char | Escape bool

definition shlex_blank :: "char \<Rightarrow> bool" where
  "shlex_blank c = (c \<in> {CHR '' '', CHR 0x09, CHR 0x0D, CHR 0x0A})"

fun shlex :: "shlex_state \<Rightarrow> string \<Rightarrow> bool \<Rightarrow> string \<Rightarrow> string list option" where
  "shlex (Quoted q) tok quoted [] = None"
| "shlex (Escape dq) tok quoted [] = None"
| "shlex st tok quoted [] = Some (if tok \<noteq> [] \<or> quoted then [tok] else [])"
| "shlex Blank tok quoted (c # cs) =
     (if shlex_blank c then shlex Blank tok quoted cs
      else if c = CHR 0x5C then shlex (Escape False) tok quoted cs
      else if c = CHR 0x22 \<or> c = CHR 0x27 then shlex (Quoted c) tok quoted cs
      else shlex Word [c] quoted cs)"
| "shlex Word tok quoted (c # cs) =
     (if shlex_blank c then
        (if tok \<noteq> [] \<or> quoted then map_option ((#) tok) (shlex Blank [] False cs)
         else shlex Blank tok quoted cs)
      else if c = CHR 0x22 \<or> c = CHR 0x27 then shlex (Quoted c) tok quoted cs
      else if c = CHR 0x5C then shlex (Escape False) tok quoted cs
      else shlex Word (tok @ [c]) quoted cs)"
| "shlex (Quoted q) tok quoted (c # cs) =
     (if c = q then shlex Word tok True cs
      else if c = CHR 0x5C \<and> q = CHR 0x22 then shlex (Escape True) tok True cs
      else shlex (Quoted q) (tok @ [c]) True cs)"
| "shlex (Escape dq) tok quoted (c # cs) =
     (let tok' = (if dq \<and> c \<noteq> CHR 0x5C \<and> c \<noteq> CHR 0x22 then tok @ [CHR 0x5C] else tok) @ [c]
      in if dq then shlex (Quoted (CHR 0x22)) tok' quoted cs else shlex Word tok' quoted cs)"

definition shlex_split :: "string \<Rightarrow> string list option" where
  "shlex_split text = shlex Blank [] False text"

definition parse_cmdline :: "string \<Rightarrow> (string, string) dict" where
  "parse_cmdline text =
    (let tokens = (case shlex_split text of Some ts \<Rightarrow> ts | None \<Rightarrow> split_ws text)
     in fold (\<lambda>tok result.
          if startswith tok ''pccheck.'' then
            (case split1 (CHR ''='') (drop (length ''pccheck.'') tok) of
               (key, Some value) \<Rightarrow> AList.update key value result
             | _ \<Rightarrow> result)
          else result) tokens [])"

definition parse_conf :: "string \<Rightarrow> (string, string) dict" where
  "parse_conf text = fold (\<lambda>line0 result.
     (case split1 (CHR ''='') (strip (fst (split1 (CHR ''#'') line0))) of
        (key, Some value) \<Rightarrow>
          AList.update (strip key) (strip_char (CHR 0x27) (strip_char (CHR 0x22) (strip value))) result
      | _ \<Rightarrow> result)) (splitlines text) []"

section \<open>Validation\<close>

text \<open>
  \<open>not math.isfinite(value) or not minimum <= value <= maximum\<close>, for an integer: converting an
  integer beyond the float range raises \<open>OverflowError\<close>.
\<close>

definition int_out_of_range :: "int \<Rightarrow> int \<Rightarrow> int \<Rightarrow> exn + bool" where
  "int_out_of_range lo hi v =
    (if isfinite (to_pyfloat (of_int v)) then Inr (\<not> (lo \<le> v \<and> v \<le> hi))
     else Inl (OverflowError ''int too large to convert to float''))"

definition range_error :: "string \<Rightarrow> string \<Rightarrow> string \<Rightarrow> string \<Rightarrow> options \<Rightarrow> options" where
  "range_error key lo hi v o' = o'\<lparr>validation_errors := validation_errors o' @
     [key @ '' must be between '' @ lo @ '' and '' @ hi @ ''; got '' @ v]\<rparr>"

definition check_int :: "string \<Rightarrow> int \<Rightarrow> int \<Rightarrow> (options \<Rightarrow> int) \<Rightarrow> (int \<Rightarrow> options \<Rightarrow> options) \<Rightarrow>
    options \<Rightarrow> exn + options" where
  "check_int key lo hi get put o' = ebind (int_out_of_range lo hi (get o')) (\<lambda>bad.
     Inr (if bad then put (get default_options) (range_error key (int_str lo) (int_str hi) (int_str (get o')) o')
          else o'))"

definition check_float :: "string \<Rightarrow> string \<times> rat \<Rightarrow> string \<times> rat \<Rightarrow> (options \<Rightarrow> pyfloat) \<Rightarrow>
    (pyfloat \<Rightarrow> options \<Rightarrow> options) \<Rightarrow> options \<Rightarrow> options" where
  "check_float key lo hi get put o' =
     (if \<not> isfinite (get o') \<or> \<not> float_between (snd lo) (snd hi) (get o')
      then put (get default_options) (range_error key (fst lo) (fst hi) (float_repr (get o')) o')
      else o')"

definition check_ranges :: "options \<Rightarrow> exn + options" where
  "check_ranges o0 =
    ebind (check_int ''destructive_countdown'' 0 3600 destructive_countdown
             (\<lambda>v o'. o'\<lparr>destructive_countdown := v\<rparr>)
             (check_float ''hours'' (''0'', 0) (''8760'', 8760) hours (\<lambda>v o'. o'\<lparr>hours := v\<rparr>) o0)) (\<lambda>o1.
    ebind (check_int ''reboot_cycles'' 0 50 reboot_cycles (\<lambda>v o'. o'\<lparr>reboot_cycles := v\<rparr>) o1) (\<lambda>o2.
    ebind (check_int ''max_unexpected_reboots'' 1 50 max_unexpected_reboots
             (\<lambda>v o'. o'\<lparr>max_unexpected_reboots := v\<rparr>) o2) (\<lambda>o3.
    let o4 = check_float ''cpu_temp_warn'' (''20'', 20) (''150'', 150) cpu_temp_warn (\<lambda>v o'. o'\<lparr>cpu_temp_warn := v\<rparr>) o3;
        o5 = check_float ''drive_temp_warn'' (''20'', 20) (''150'', 150) drive_temp_warn (\<lambda>v o'. o'\<lparr>drive_temp_warn := v\<rparr>) o4;
        o6 = check_float ''slow_read_seconds'' (''0.001'', fl (1 / 1000)) (''3600'', 3600) slow_read_seconds
               (\<lambda>v o'. o'\<lparr>slow_read_seconds := v\<rparr>) o5
    in ebind (check_int ''ce_fail'' 1 1000000 ce_fail (\<lambda>v o'. o'\<lparr>ce_fail := v\<rparr>) o6) (\<lambda>o7.
    ebind (check_int ''mce_fail'' 1 1000000 mce_fail (\<lambda>v o'. o'\<lparr>mce_fail := v\<rparr>) o7) (\<lambda>o8.
    ebind (check_int ''aer_fail'' 1 1000000 aer_fail (\<lambda>v o'. o'\<lparr>aer_fail := v\<rparr>) o8) (\<lambda>o9.
    check_int ''sata_link_fail'' 1 1000000 sata_link_fail (\<lambda>v o'. o'\<lparr>sata_link_fail := v\<rparr>) o9))))))"

definition check_choice :: "string \<Rightarrow> string list \<Rightarrow> (options \<Rightarrow> string) \<Rightarrow> (string \<Rightarrow> options \<Rightarrow> options) \<Rightarrow>
    options \<Rightarrow> options" where
  "check_choice key allowed get put o' =
     (if get o' \<notin> set allowed then put (get default_options) (bad_value key (get o') o') else o')"

definition load_options :: "string option \<Rightarrow> string \<Rightarrow> exn + options" where
  "load_options conf cmdline =
    (let o1 = (case conf of None \<Rightarrow> default_options
               | Some text \<Rightarrow> fold (\<lambda>(k, v). apply_option k v) (parse_conf text) default_options);
         o2 = fold (\<lambda>(k, v). apply_option k v) (parse_cmdline cmdline) o1
     in ebind (check_ranges o2) (\<lambda>o3.
          Inr (check_choice ''reboot_method'' [''auto'', ''ipmi'', ''reboot''] reboot_method (\<lambda>v o'. o'\<lparr>reboot_method := v\<rparr>)
            (check_choice ''destructive'' [''0'', ''1'', ''yes'', ''true'', ''force''] destructive
               (\<lambda>v o'. o'\<lparr>destructive := v\<rparr>) o3))))"

section \<open>The plan\<close>

record plan_item =
  pl_name :: string
  pl_duration :: int

text \<open>\<open>int(total * weight)\<close>; the weights are below one, so only an infinite total overflows.\<close>

definition int_share :: "pyfloat \<Rightarrow> rat \<Rightarrow> exn + int" where
  "int_share total_s weight = (case total_s of
     Fin t \<Rightarrow> Inr (trunc (fl (t * weight)))
   | NaN \<Rightarrow> Inl (ValueError ''cannot convert float NaN to integer'')
   | _ \<Rightarrow> Inl (OverflowError ''cannot convert float infinity to integer''))"

fun plan_phases :: "pyfloat \<Rightarrow> (string \<times> rat) list \<Rightarrow> exn + plan_item list" where
  "plan_phases total_s [] = Inr []"
| "plan_phases total_s ((name, weight) # ps) =
     ebind (int_share total_s weight) (\<lambda>d.
     ebind (plan_phases total_s ps) (\<lambda>rest.
     Inr (\<lparr>pl_name = name, pl_duration = max 60 d\<rparr> # rest)))"

definition float_times :: "pyfloat \<Rightarrow> rat \<Rightarrow> pyfloat" where
  "float_times x c = (case x of Fin r \<Rightarrow> to_pyfloat (r * c) | _ \<Rightarrow> x)"

definition build_plan :: "options \<Rightarrow> exn + plan_item list" where
  "build_plan o' =
    ebind (plan_phases (float_times (total_hours o') 3600)
             (filter (\<lambda>(name, _). name \<notin> set (skip_phases o')) PHASE_WEIGHTS)) (\<lambda>phases.
    Inr ([\<lparr>pl_name = ''inventory'', pl_duration = 0\<rparr>] @ phases @
      (if reboot_cycles o' > 0 \<and> ''powercycle'' \<notin> set (skip_phases o')
       then [\<lparr>pl_name = ''powercycle'', pl_duration = 0\<rparr>] else [])))"

section \<open>Every loaded option is in range\<close>

definition in_range_int :: "int \<Rightarrow> int \<Rightarrow> int \<Rightarrow> bool" where
  "in_range_int lo hi v \<longleftrightarrow> lo \<le> v \<and> v \<le> hi"

definition options_ok :: "options \<Rightarrow> bool" where
  "options_ok o' \<longleftrightarrow>
     float_between 0 8760 (hours o') \<and> in_range_int 0 3600 (destructive_countdown o') \<and>
     in_range_int 0 50 (reboot_cycles o') \<and> in_range_int 1 50 (max_unexpected_reboots o') \<and>
     float_between 20 150 (cpu_temp_warn o') \<and> float_between 20 150 (drive_temp_warn o') \<and>
     float_between (fl (1 / 1000)) 3600 (slow_read_seconds o') \<and>
     in_range_int 1 1000000 (ce_fail o') \<and> in_range_int 1 1000000 (mce_fail o') \<and>
     in_range_int 1 1000000 (aer_fail o') \<and> in_range_int 1 1000000 (sata_link_fail o') \<and>
     destructive o' \<in> {''0'', ''1'', ''yes'', ''true'', ''force''} \<and>
     reboot_method o' \<in> {''auto'', ''ipmi'', ''reboot''} \<and> map_of PROFILES (profile o') \<noteq> None"

lemma check_int_rule:
  assumes "check_int key lo hi get put o' = Inr o''" and "P o'"
    and "\<And>v x. P (put v x) = P x" "\<And>es x. P (x\<lparr>validation_errors := es\<rparr>) = P x"
    and "\<And>v x. get (put v x) = v" and "lo \<le> get default_options" "get default_options \<le> hi"
  shows "in_range_int lo hi (get o'') \<and> P o''"
  using assms by (auto simp: check_int_def int_out_of_range_def range_error_def in_range_int_def split: if_splits)

lemma check_float_rule:
  assumes "P o'" "\<And>v x. P (put v x) = P x" "\<And>es x. P (x\<lparr>validation_errors := es\<rparr>) = P x"
    and "\<And>v x. get (put v x) = v" and "float_between (snd lo) (snd hi) (get default_options)"
  shows "float_between (snd lo) (snd hi) (get (check_float key lo hi get put o')) \<and>
    P (check_float key lo hi get put o')"
  using assms by (auto simp: check_float_def range_error_def)

lemma check_choice_rule:
  assumes "P o'" "\<And>v x. P (put v x) = P x" "\<And>es x. P (x\<lparr>validation_errors := es\<rparr>) = P x"
    and "\<And>v x. get (put v x) = v" and "get default_options \<in> set allowed"
  shows "get (check_choice key allowed get put o') \<in> set allowed \<and> P (check_choice key allowed get put o')"
  using assms by (auto simp: check_choice_def bad_value_def)

lemma fl_milli: "fl (1 / 1000) = 1152921504606847 / 1152921504606846976"
  by code_simp

definition profile_ok :: "options \<Rightarrow> bool" where
  "profile_ok o' \<longleftrightarrow> map_of PROFILES (profile o') \<noteq> None"

lemma map_of_PROFILES_standard [simp]: "\<exists>p. map_of PROFILES ''standard'' = Some p"
  by (simp add: PROFILES_def)

lemma field_types_profile:
  "map_of field_types key = Some f \<Longrightarrow> key \<noteq> ''profile'' \<Longrightarrow> set_field f value o' = Some o'' \<Longrightarrow>
   profile o'' = profile o'"
  by (auto simp: field_types_def set_field_def split: if_splits)

lemma profile_ok_apply: "profile_ok o' \<Longrightarrow> profile_ok (apply_option k v o')"
  using field_types_profile [of "option_key k"]
  by (auto simp: apply_option_def Let_def profile_ok_def bad_value_def split: option.splits)

lemma profile_ok_fold: "profile_ok o' \<Longrightarrow> profile_ok (fold (\<lambda>(k, v). apply_option k v) kvs o')"
  by (rule fold_invariant_in) (auto simp: profile_ok_apply)

lemma check_ranges_ok:
  assumes c: "check_ranges o0 = Inr o'" and p: "profile_ok o0"
  shows "float_between 0 8760 (hours o') \<and> in_range_int 0 3600 (destructive_countdown o') \<and>
     in_range_int 0 50 (reboot_cycles o') \<and> in_range_int 1 50 (max_unexpected_reboots o') \<and>
     float_between 20 150 (cpu_temp_warn o') \<and> float_between 20 150 (drive_temp_warn o') \<and>
     float_between (fl (1 / 1000)) 3600 (slow_read_seconds o') \<and>
     in_range_int 1 1000000 (ce_fail o') \<and> in_range_int 1 1000000 (mce_fail o') \<and>
     in_range_int 1 1000000 (aer_fail o') \<and> in_range_int 1 1000000 (sata_link_fail o') \<and> profile_ok o'"
proof -
  let ?hours = "check_float ''hours'' (''0'', 0) (''8760'', 8760) hours (\<lambda>v o'. o'\<lparr>hours := v\<rparr>)"
  let ?cpu = "check_float ''cpu_temp_warn'' (''20'', 20) (''150'', 150) cpu_temp_warn (\<lambda>v o'. o'\<lparr>cpu_temp_warn := v\<rparr>)"
  let ?drive = "check_float ''drive_temp_warn'' (''20'', 20) (''150'', 150) drive_temp_warn (\<lambda>v o'. o'\<lparr>drive_temp_warn := v\<rparr>)"
  let ?slow = "check_float ''slow_read_seconds'' (''0.001'', fl (1 / 1000)) (''3600'', 3600) slow_read_seconds
               (\<lambda>v o'. o'\<lparr>slow_read_seconds := v\<rparr>)"
  from c obtain o1 o2 o3 o7 o8 o9 where
    c1: "check_int ''destructive_countdown'' 0 3600 destructive_countdown
             (\<lambda>v o'. o'\<lparr>destructive_countdown := v\<rparr>) (?hours o0) = Inr o1"
    and c2: "check_int ''reboot_cycles'' 0 50 reboot_cycles (\<lambda>v o'. o'\<lparr>reboot_cycles := v\<rparr>) o1 = Inr o2"
    and c3: "check_int ''max_unexpected_reboots'' 1 50 max_unexpected_reboots
             (\<lambda>v o'. o'\<lparr>max_unexpected_reboots := v\<rparr>) o2 = Inr o3"
    and c7: "check_int ''ce_fail'' 1 1000000 ce_fail (\<lambda>v o'. o'\<lparr>ce_fail := v\<rparr>) (?slow (?drive (?cpu o3))) = Inr o7"
    and c8: "check_int ''mce_fail'' 1 1000000 mce_fail (\<lambda>v o'. o'\<lparr>mce_fail := v\<rparr>) o7 = Inr o8"
    and c9: "check_int ''aer_fail'' 1 1000000 aer_fail (\<lambda>v o'. o'\<lparr>aer_fail := v\<rparr>) o8 = Inr o9"
    and c10: "check_int ''sata_link_fail'' 1 1000000 sata_link_fail (\<lambda>v o'. o'\<lparr>sata_link_fail := v\<rparr>) o9 = Inr o'"
    unfolding check_ranges_def Let_def ebind_eq_Inr by blast
  define P0 where "P0 = profile_ok"
  define P1 where "P1 = (\<lambda>o'. float_between 0 8760 (hours o') \<and> P0 o')"
  define P2 where "P2 = (\<lambda>o'. in_range_int 0 3600 (destructive_countdown o') \<and> P1 o')"
  define P3 where "P3 = (\<lambda>o'. in_range_int 0 50 (reboot_cycles o') \<and> P2 o')"
  define P4 where "P4 = (\<lambda>o'. in_range_int 1 50 (max_unexpected_reboots o') \<and> P3 o')"
  define P5 where "P5 = (\<lambda>o'. float_between 20 150 (cpu_temp_warn o') \<and> P4 o')"
  define P6 where "P6 = (\<lambda>o'. float_between 20 150 (drive_temp_warn o') \<and> P5 o')"
  define P7 where "P7 = (\<lambda>o'. float_between (fl (1 / 1000)) 3600 (slow_read_seconds o') \<and> P6 o')"
  define P8 where "P8 = (\<lambda>o'. in_range_int 1 1000000 (ce_fail o') \<and> P7 o')"
  define P9 where "P9 = (\<lambda>o'. in_range_int 1 1000000 (mce_fail o') \<and> P8 o')"
  define P10 where "P10 = (\<lambda>o'. in_range_int 1 1000000 (aer_fail o') \<and> P9 o')"
  note defs = P0_def P1_def P2_def P3_def P4_def P5_def P6_def P7_def P8_def P9_def P10_def
    default_options_def profile_ok_def
  have s1: "P1 (?hours o0)"
    using check_float_rule [of P0 o0 "\<lambda>v o'. o'\<lparr>hours := v\<rparr>" hours "(''0'', 0)" "(''8760'', 8760)" "''hours''"] p
    by (simp add: defs float_between_def)
  have s2: "P2 o1" using check_int_rule [OF c1, of P1] s1 by (simp add: defs)
  have s3: "P3 o2" using check_int_rule [OF c2, of P2] s2 by (simp add: defs)
  have s4: "P4 o3" using check_int_rule [OF c3, of P3] s3 by (simp add: defs)
  have s5: "P5 (?cpu o3)"
    using check_float_rule [of P4 o3 "\<lambda>v o'. o'\<lparr>cpu_temp_warn := v\<rparr>" cpu_temp_warn "(''20'', 20)" "(''150'', 150)" "''cpu_temp_warn''"] s4
    by (simp add: defs float_between_def)
  have s6: "P6 (?drive (?cpu o3))"
    using check_float_rule [of P5 "?cpu o3" "\<lambda>v o'. o'\<lparr>drive_temp_warn := v\<rparr>" drive_temp_warn "(''20'', 20)" "(''150'', 150)" "''drive_temp_warn''"] s5
    by (simp add: defs float_between_def)
  have s7: "P7 (?slow (?drive (?cpu o3)))"
    using check_float_rule [of P6 "?drive (?cpu o3)" "\<lambda>v o'. o'\<lparr>slow_read_seconds := v\<rparr>" slow_read_seconds
       "(''0.001'', fl (1 / 1000))" "(''3600'', 3600)" "''slow_read_seconds''"] s6
    by (simp add: defs float_between_def fl_milli)
  have s8: "P8 o7" using check_int_rule [OF c7, of P7] s7 by (simp add: defs)
  have s9: "P9 o8" using check_int_rule [OF c8, of P8] s8 by (simp add: defs)
  have s10: "P10 o9" using check_int_rule [OF c9, of P9] s9 by (simp add: defs)
  have "in_range_int 1 1000000 (sata_link_fail o') \<and> P10 o'"
    using check_int_rule [OF c10, of P10] s10 by (simp add: defs)
  then show ?thesis by (simp add: defs)
qed

text \<open>C37: whatever the configuration file and the kernel command line say, options that load are
  within the documented limits, with known values for the destructive mode, the reboot method
  and the profile.\<close>

theorem load_options_valid:
  assumes "load_options conf cmdline = Inr o'"
  shows "options_ok o'"
proof -
  have d: "profile_ok default_options" by (simp add: profile_ok_def default_options_def)
  from assms obtain o2 o3 where "check_ranges o2 = Inr o3" "profile_ok o2"
    and o': "o' = check_choice ''reboot_method'' [''auto'', ''ipmi'', ''reboot''] reboot_method (\<lambda>v o'. o'\<lparr>reboot_method := v\<rparr>)
            (check_choice ''destructive'' [''0'', ''1'', ''yes'', ''true'', ''force''] destructive
               (\<lambda>v o'. o'\<lparr>destructive := v\<rparr>) o3)"
    by (auto simp: load_options_def Let_def profile_ok_fold d split: option.splits)
  from check_ranges_ok [OF this(1,2)] show ?thesis
    unfolding o' options_ok_def profile_ok_def
    by (auto simp: check_choice_def bad_value_def default_options_def)
qed

theorem load_options_valid_witness:
  "\<exists>o'. load_options None ''pccheck.hours=36 pccheck.ce_fail=0'' = Inr o' \<and> options_ok o'"
proof -
  have "case load_options None ''pccheck.hours=36 pccheck.ce_fail=0'' of Inl _ \<Rightarrow> False | Inr _ \<Rightarrow> True"
    by code_simp
  then show ?thesis using load_options_valid by (auto split: sum.splits)
qed

section \<open>The phase plan\<close>

lemma plan_phases_Fin:
  "plan_phases (Fin t) ps =
     Inr (map (\<lambda>(name, w). \<lparr>pl_name = name, pl_duration = max 60 (trunc (fl (t * w)))\<rparr>) ps)"
  by (induction ps) (auto simp: int_share_def)

lemma plan_phases_names:
  "plan_phases t ps = Inr plan \<Longrightarrow> map pl_name plan = map fst ps \<and> list_all (\<lambda>p. 60 \<le> pl_duration p) plan"
  by (induction ps arbitrary: plan) auto

text \<open>A plan starts with the inventory, then lists exactly the phases that are not skipped,
  once each and in the fixed order, with at least a minute for each, and ends with the
  reboot cycles exactly when some are requested and not skipped.\<close>

theorem build_plan_shape:
  assumes "build_plan o' = Inr plan"
  shows "map pl_name plan = [''inventory''] @
      filter (\<lambda>n. n \<notin> set (skip_phases o'))
        [''cpu'', ''memory'', ''mprime'', ''ycruncher'', ''transient'', ''idle'', ''combined''] @
      (if reboot_cycles o' > 0 \<and> ''powercycle'' \<notin> set (skip_phases o') then [''powercycle''] else []) \<and>
    distinct (map pl_name plan) \<and>
    list_all (\<lambda>p. pl_name p \<in> {''inventory'', ''powercycle''} \<or> 60 \<le> pl_duration p) plan"
proof -
  let ?ps = "filter (\<lambda>(name, _). name \<notin> set (skip_phases o')) PHASE_WEIGHTS"
  from assms obtain phases where ph: "plan_phases (float_times (total_hours o') 3600) ?ps = Inr phases"
    and plan: "plan = [\<lparr>pl_name = ''inventory'', pl_duration = 0\<rparr>] @ phases @
      (if reboot_cycles o' > 0 \<and> ''powercycle'' \<notin> set (skip_phases o')
       then [\<lparr>pl_name = ''powercycle'', pl_duration = 0\<rparr>] else [])"
    by (auto simp: build_plan_def)
  let ?all = "[''cpu'', ''memory'', ''mprime'', ''ycruncher'', ''transient'', ''idle'', ''combined'']"
  have names: "map pl_name phases = filter (\<lambda>n. n \<notin> set (skip_phases o')) ?all"
    using plan_phases_names [OF ph] by (simp add: PHASE_WEIGHTS_def)
  have m: "map pl_name plan = [''inventory''] @ filter (\<lambda>n. n \<notin> set (skip_phases o')) ?all @
      (if reboot_cycles o' > 0 \<and> ''powercycle'' \<notin> set (skip_phases o') then [''powercycle''] else [])"
    unfolding plan map_append names by simp
  have "distinct (map pl_name plan)" unfolding m by simp
  moreover have "list_all (\<lambda>p. pl_name p \<in> {''inventory'', ''powercycle''} \<or> 60 \<le> pl_duration p) plan"
    using plan_phases_names [OF ph] unfolding plan by (auto simp: list_all_iff)
  ultimately show ?thesis using m by blast
qed

lemma twelve_hours: "float_times (Fin 12) 3600 = Fin 43200"
  by code_simp

theorem build_plan_shape_witness:
  "\<exists>plan. build_plan (default_options\<lparr>skip_phases := [''idle'', ''mprime'']\<rparr>) = Inr plan \<and>
     map pl_name plan = [''inventory'', ''cpu'', ''memory'', ''ycruncher'', ''transient'', ''combined'']"
proof -
  let ?o = "default_options\<lparr>skip_phases := [''idle'', ''mprime'']\<rparr>"
  have "total_hours ?o = Fin 12"
    by (simp add: total_hours_def default_options_def profile_info_def PROFILES_def float_gt0_def)
  then obtain plan where p: "build_plan ?o = Inr plan"
    by (simp add: build_plan_def twelve_hours plan_phases_Fin)
  from build_plan_shape [OF p] p show ?thesis by (simp add: default_options_def)
qed

text \<open>The seven weights add up to one, up to the rounding of their doubles.\<close>

lemma fl_near: "0 \<le> x \<Longrightarrow> x \<le> 40000000 \<Longrightarrow> \<bar>fl x - x\<bar> \<le> 1 / 100000000"
proof -
  assume x: "0 \<le> x" "x \<le> 40000000"
  have "\<bar>fl x - x\<bar> \<le> \<bar>x\<bar> / 2 ^ 53 + 1 / 2 ^ 1074" by (rule fl_error)
  also have "\<dots> \<le> 40000000 / 2 ^ 53 + 1 / 2 ^ 1074" using x by (intro add_right_mono divide_right_mono) auto
  also have "\<dots> \<le> 1 / 100000000" by simp
  finally show ?thesis .
qed

lemma fl_weight: "0 \<le> x \<Longrightarrow> x \<le> 1 \<Longrightarrow> \<bar>fl x - x\<bar> \<le> 1 / 1000000000000000"
proof -
  assume x: "0 \<le> x" "x \<le> 1"
  have "\<bar>fl x - x\<bar> \<le> \<bar>x\<bar> / 2 ^ 53 + 1 / 2 ^ 1074" by (rule fl_error)
  also have "\<dots> \<le> 1 / 2 ^ 53 + 1 / 2 ^ 1074" using x by (intro add_right_mono divide_right_mono) auto
  also have "\<dots> \<le> 1 / 1000000000000000" by simp
  finally show ?thesis .
qed

lemma share_bounds:
  assumes t: "0 \<le> t" "t \<le> 31600000" and c: "0 \<le> c" "c \<le> 1"
  shows "t * c - 1 - 1 / 10000000 \<le> of_int (trunc (fl (t * fl c))) \<and>
    of_int (trunc (fl (t * fl c))) \<le> t * c + 1 / 10000000"
proof -
  let ?w = "fl c"
  have w: "\<bar>?w - c\<bar> \<le> 1 / 1000000000000000" by (rule fl_weight [OF c])
  have w0: "0 \<le> ?w" by (rule fl_nonneg [OF c(1)])
  have w1: "?w \<le> 1 + 1 / 1000000000000000" using w c by linarith
  have "t * ?w \<le> 31600000 * (1 + 1 / 1000000000000000)" using t w0 w1 by (intro mult_mono) auto
  then have p: "0 \<le> t * ?w" "t * ?w \<le> 40000000" using t w0 by auto
  have "\<bar>t * ?w - t * c\<bar> = t * \<bar>?w - c\<bar>" using t by (simp add: abs_mult flip: right_diff_distrib)
  also have "\<dots> \<le> 31600000 * (1 / 1000000000000000)" using t w by (intro mult_mono) auto
  finally have "\<bar>t * ?w - t * c\<bar> \<le> 1 / 20000000" by simp
  with fl_near [OF p] have "\<bar>fl (t * ?w) - t * c\<bar> \<le> 1 / 10000000" by linarith
  moreover have "0 \<le> fl (t * ?w)" by (rule fl_nonneg [OF p(1)])
  then have "of_int (trunc (fl (t * ?w))) \<le> fl (t * ?w)" "fl (t * ?w) < of_int (trunc (fl (t * ?w))) + 1"
    by (simp add: trunc_def, simp add: trunc_def, linarith)
  ultimately show ?thesis by linarith
qed

lemma sum_shares:
  assumes t: "800 \<le> t" "t \<le> 31600000"
  shows "t - 71 / 10 < of_int (\<Sum>(n, w)\<leftarrow>PHASE_WEIGHTS. max 60 (trunc (fl (t * w)))) \<and>
    of_int (\<Sum>(n, w)\<leftarrow>PHASE_WEIGHTS. max 60 (trunc (fl (t * w)))) \<le> t + 1 / 1000000"
proof -
  have S: "t * c - 1 - 1 / 10000000 \<le> of_int (trunc (fl (t * fl c))) \<and>
      of_int (trunc (fl (t * fl c))) \<le> t * c + 1 / 10000000 \<and>
      max 60 (trunc (fl (t * fl c))) = trunc (fl (t * fl c))" if "8 / 100 \<le> c" "c \<le> 1" for c
  proof -
    have b: "t * c - 1 - 1 / 10000000 \<le> of_int (trunc (fl (t * fl c))) \<and>
      of_int (trunc (fl (t * fl c))) \<le> t * c + 1 / 10000000" using that t by (intro share_bounds) auto
    have "800 * (8 / 100) \<le> t * c" using that t by (intro mult_mono) auto
    with b have "(60::rat) \<le> of_int (trunc (fl (t * fl c)))" by simp
    with b show ?thesis by simp
  qed
  show ?thesis
    using S [of "12/100"] S [of "20/100"] S [of "14/100"] S [of "8/100"] S [of "22/100"]
    by (simp add: PHASE_WEIGHTS_def)
qed

text \<open>With no phase skipped and at least a quarter of an hour of stress time, the planned
  durations add up to the requested time: they never exceed it and fall short by less than
  eight seconds, in spite of floating-point rounding and truncation in every phase.\<close>

theorem plan_uses_the_budget:
  assumes "hours o' = Fin h" "1 / 4 \<le> h" "h \<le> 8760" "skip_phases o' = []" "build_plan o' = Inr plan"
  shows "h * 3600 - 8 < of_int (\<Sum>p\<leftarrow>plan. pl_duration p) \<and>
    of_int (\<Sum>p\<leftarrow>plan. pl_duration p) \<le> h * 3600 + 1 / 1000"
proof -
  let ?t = "fl (h * 3600)"
  have near: "\<bar>?t - h * 3600\<bar> \<le> 1 / 100000000" using assms(2,3) by (intro fl_near) auto
  with assms(2,3) have t: "800 \<le> ?t" "?t \<le> 31600000" by linarith+
  have "to_pyfloat (h * 3600) = Fin ?t" using t by (simp add: to_pyfloat_def float_max_def Let_def)
  then have "float_times (total_hours o') 3600 = Fin ?t"
    using assms(1,2) by (simp add: total_hours_def float_gt0_def float_times_def)
  with assms(4,5) have plan: "plan = [\<lparr>pl_name = ''inventory'', pl_duration = 0\<rparr>] @
      map (\<lambda>(name, w). \<lparr>pl_name = name, pl_duration = max 60 (trunc (fl (?t * w)))\<rparr>) PHASE_WEIGHTS @
      (if reboot_cycles o' > 0 then [\<lparr>pl_name = ''powercycle'', pl_duration = 0\<rparr>] else [])"
    by (simp add: build_plan_def plan_phases_Fin)
  have "(\<Sum>p\<leftarrow>plan. pl_duration p) = (\<Sum>(n, w)\<leftarrow>PHASE_WEIGHTS. max 60 (trunc (fl (?t * w))))"
    unfolding plan by (simp add: comp_def split_def)
  with sum_shares [OF t] near show ?thesis by linarith
qed

theorem plan_uses_the_budget_witness:
  "\<exists>plan. build_plan (default_options\<lparr>hours := Fin 12\<rparr>) = Inr plan \<and>
     43192 < (\<Sum>p\<leftarrow>plan. pl_duration p) \<and> (\<Sum>p\<leftarrow>plan. pl_duration p) \<le> 43200"
proof -
  let ?o = "default_options\<lparr>hours := Fin 12\<rparr>"
  have "total_hours ?o = Fin 12"
    by (simp add: total_hours_def default_options_def profile_info_def PROFILES_def float_gt0_def)
  then obtain plan where p: "build_plan ?o = Inr plan"
    by (simp add: build_plan_def twelve_hours plan_phases_Fin)
  have "12 * 3600 - 8 < rat_of_int (\<Sum>p\<leftarrow>plan. pl_duration p) \<and>
    rat_of_int (\<Sum>p\<leftarrow>plan. pl_duration p) \<le> 12 * 3600 + 1 / 1000"
    by (rule plan_uses_the_budget [OF _ _ _ _ p]) (simp_all add: default_options_def)
  then have "43192 < (\<Sum>p\<leftarrow>plan. pl_duration p)" "(\<Sum>p\<leftarrow>plan. pl_duration p) < 43201"
    by linarith+
  with p show ?thesis by (intro exI [of _ plan]) simp
qed

end
