(* ===== verification/Util.thy ===== *)
theory Util
  imports Prelude
begin

text \<open>
  Models \<open>util.py\<close>: the crash-safe pair of rotating save files (\<open>rotating_paths\<close>,
  \<open>atomic_write\<close>, \<open>write_rotating\<close>, \<open>read_rotating\<close>) and the text helpers
  \<open>fmt_duration\<close> and \<open>safe_name\<close>.  A disk maps paths to file contents; a file
  holding a JSON dictionary remembers its \<open>save_seq\<close>.  The locale \<open>durable_slots\<close> states
  what the two clients (the finding store and the session) rely on, and the rotating files are
  its interpretation.  JSON printing and parsing are modelled as the identity on the saved value.
\<close>

section \<open>Files\<close>

datatype 'a saved =
    NoFile                          \<comment> \<open>missing\<close>
  | BadFile                         \<comment> \<open>unreadable, not JSON, or neither dict nor list\<close>
  | DictFile 'a "int option"        \<comment> \<open>a dict and its \<open>save_seq\<close> entry\<close>
  | ListFile 'a                     \<comment> \<open>a list (the legacy layout)\<close>

record 'a disk =
  files :: "string \<Rightarrow> 'a saved"
  writable :: bool                  \<comment> \<open>false: every write raises \<open>OSError\<close>\<close>

fun file_content :: "'a saved \<Rightarrow> 'a option" where
  "file_content (DictFile a _) = Some a"
| "file_content (ListFile a) = Some a"
| "file_content _ = None"

section \<open>Rotating saves\<close>

text \<open>\<open>os.path.splitext\<close>: the last dot of the base name, unless only dots precede it.\<close>

definition splitext :: "string \<Rightarrow> string \<times> string" where
  "splitext p = (let r = rev p;
       ext = takeWhile (\<lambda>c. c \<noteq> CHR ''.'' \<and> c \<noteq> CHR ''/'') r
     in case dropWhile (\<lambda>c. c \<noteq> CHR ''.'' \<and> c \<noteq> CHR ''/'') r of
          [] \<Rightarrow> (p, [])
        | c # rest \<Rightarrow>
            if c = CHR ''.'' \<and> (\<exists>x \<in> set (takeWhile (\<lambda>c. c \<noteq> CHR ''/'') rest). x \<noteq> CHR ''.'')
            then (rev rest, CHR ''.'' # rev ext) else (p, []))"

definition rotating_paths :: "string \<Rightarrow> string list" where
  "rotating_paths base = (let (root, ext) = splitext base
     in [root @ ''.0'' @ ext, root @ ''.1'' @ ext])"

definition tmp_path :: "string \<Rightarrow> string" where
  "tmp_path path = path @ ''.tmp''"

definition atomic_write :: "'a disk \<Rightarrow> string \<Rightarrow> 'a saved \<Rightarrow> exn + 'a disk" where
  "atomic_write d path data =
     (if writable d
      then Inr (d\<lparr>files := (files d)(tmp_path path := NoFile, path := data)\<rparr>)
      else Inl (OSError ''cannot write''))"

definition slot_path :: "string \<Rightarrow> int \<Rightarrow> string" where
  "slot_path base seq = rotating_paths base ! nat (seq mod 2)"

definition write_rotating :: "'a disk \<Rightarrow> string \<Rightarrow> 'a \<Rightarrow> int \<Rightarrow> exn + 'a disk" where
  "write_rotating d base obj seq = atomic_write d (slot_path base seq) (DictFile obj (Some seq))"

definition load_seq :: "'a saved \<Rightarrow> int option" where
  "load_seq f = (case f of
     DictFile _ (Some n) \<Rightarrow> Some n
   | DictFile _ None \<Rightarrow> Some 0
   | ListFile _ \<Rightarrow> Some 0
   | _ \<Rightarrow> None)"

definition read_step :: "'a disk \<Rightarrow> string \<Rightarrow> 'a saved \<times> int \<Rightarrow> 'a saved \<times> int" where
  "read_step d path best = (case load_seq (files d path) of
     None \<Rightarrow> best
   | Some seq \<Rightarrow> if seq \<ge> snd best then (files d path, seq) else best)"

definition read_rotating :: "'a disk \<Rightarrow> string \<Rightarrow> 'a saved \<times> int" where
  "read_rotating d base = fold (read_step d) (rotating_paths base @ [base]) (NoFile, -1)"

section \<open>What a power cut leaves behind\<close>

text \<open>
  The states in which a power cut during \<open>atomic_write\<close> can leave the disk.  Before the
  rename the target is untouched; between the rename and the end of \<open>syncfs\<close> the directory
  entry may show the old file, the new one, or a damaged or missing one.  The temporary file may
  hold anything, and no other file changes.
\<close>

inductive power_cut :: "'a disk \<Rightarrow> string \<Rightarrow> 'a saved \<Rightarrow> 'a disk \<Rightarrow> bool"
  for d :: "'a disk" and path :: string and data :: "'a saved" where
  before_rename: "power_cut d path data (d\<lparr>files := (files d)(tmp_path path := x)\<rparr>)"
| during_rename: "y \<in> {files d path, data, NoFile, BadFile} \<Longrightarrow>
     power_cut d path data (d\<lparr>files := (files d)(tmp_path path := x, path := y)\<rparr>)"

inductive_cases power_cutE: "power_cut d path data d'"

section \<open>The contract of the save files\<close>

text \<open>
  The interface the program's saved state relies on.  \<open>bounded s n\<close>: no save on disk is newer
  than \<open>n\<close>, and the disk is laid out as saves with increasing sequence numbers leave it.
\<close>

locale durable_slots =
  fixes save :: "'s \<Rightarrow> 'a \<Rightarrow> int \<Rightarrow> exn + 's"
    and load :: "'s \<Rightarrow> 'a option \<times> int"
    and cut :: "'s \<Rightarrow> 'a \<Rightarrow> int \<Rightarrow> 's \<Rightarrow> bool"
    and bounded :: "'s \<Rightarrow> int \<Rightarrow> bool"
  assumes load_save: "bounded s n \<Longrightarrow> save s a (n + 1) = Inr s' \<Longrightarrow> load s' = (Some a, n + 1)"
    and bounded_save: "bounded s n \<Longrightarrow> save s a (n + 1) = Inr s' \<Longrightarrow> bounded s' (n + 1)"
    and load_cut: "bounded s n \<Longrightarrow> load s = (Some b, n) \<Longrightarrow> cut s a (n + 1) s' \<Longrightarrow>
      load s' = (Some b, n) \<and> bounded s' n \<or> load s' = (Some a, n + 1) \<and> bounded s' (n + 1)"
begin

text \<open>
  A run of the client: it saves values one after the other; a save may complete, or be cut short
  by a power cut after which the client reads the newest copy back and goes on from there.
\<close>

inductive run :: "'s \<Rightarrow> 'a \<Rightarrow> int \<Rightarrow> ('a \<times> bool) list \<Rightarrow> 's \<Rightarrow> 'a \<Rightarrow> int \<Rightarrow> bool" where
  stop: "run s v n [] s v n"
| saved: "save s a (n + 1) = Inr s' \<Longrightarrow> run s' a (n + 1) es t w m \<Longrightarrow>
     run s v n ((a, True) # es) t w m"
| crash: "cut s a (n + 1) s' \<Longrightarrow> load s' = (Some v', n') \<Longrightarrow> run s' v' n' es t w m \<Longrightarrow>
     run s v n ((a, False) # es) t w m"

lemma run_consistent:
  "run s v n es t w m \<Longrightarrow> bounded s n \<Longrightarrow> load s = (Some v, n) \<Longrightarrow>
     load t = (Some w, m) \<and> bounded t m \<and> n \<le> m"
proof (induction rule: run.induct)
  case (saved s a n s' es t w m v)
  then show ?case using load_save bounded_save by (smt (verit))
next
  case (crash s a n s' v' n' es t w m v)
  from load_cut [OF crash.prems crash.hyps(1)] crash.hyps(2)
  have "bounded s' n' \<and> n \<le> n'" by auto
  with crash.IH crash.hyps(2) show ?case by auto
qed simp

text \<open>After a crash the client resumes from its last completed save or from the interrupted one.\<close>

lemma crash_loses_at_most_one:
  assumes "bounded s n" "save s a (n + 1) = Inr s1" "cut s1 b (n + 1 + 1) s2"
  shows "load s2 = (Some a, n + 1) \<or> load s2 = (Some b, n + 1 + 1)"
  using load_cut [OF bounded_save [OF assms(1,2)] load_save [OF assms(1,2)] assms(3)] by blast

end

section \<open>The rotating files satisfy the contract\<close>

definition rot_read :: "string \<Rightarrow> 'a disk \<Rightarrow> 'a option \<times> int" where
  "rot_read base d = (let (f, n) = read_rotating d base in (file_content f, n))"

definition rot_cut :: "string \<Rightarrow> 'a disk \<Rightarrow> 'a \<Rightarrow> int \<Rightarrow> 'a disk \<Rightarrow> bool" where
  "rot_cut base d obj seq d' = power_cut d (slot_path base seq) (DictFile obj (Some seq)) d'"

text \<open>
  Slot \<open>i\<close> holds only saves of parity \<open>i\<close>, no save and no legacy file is newer than
  \<open>n\<close>.
\<close>

definition slot_ok :: "int \<Rightarrow> int \<Rightarrow> 'a saved \<Rightarrow> bool" where
  "slot_ok i n f = (case f of
     NoFile \<Rightarrow> True | BadFile \<Rightarrow> True
   | DictFile _ (Some s) \<Rightarrow> 0 \<le> s \<and> s \<le> n \<and> s mod 2 = i
   | _ \<Rightarrow> False)"

definition legacy_ok :: "int \<Rightarrow> 'a saved \<Rightarrow> bool" where
  "legacy_ok n f = (case load_seq f of None \<Rightarrow> True | Some s \<Rightarrow> 0 \<le> s \<and> s \<le> n)"

definition rot_bounded :: "string \<Rightarrow> 'a disk \<Rightarrow> int \<Rightarrow> bool" where
  "rot_bounded base d n \<longleftrightarrow> -1 \<le> n \<and> slot_ok 0 n (files d (slot_path base 0)) \<and>
     slot_ok 1 n (files d (slot_path base 1)) \<and> legacy_ok n (files d base)"

lemma splitext_append: "splitext p = (root, ext) \<Longrightarrow> root @ ext = p"
proof -
  let ?P = "\<lambda>c. c \<noteq> CHR ''.'' \<and> c \<noteq> CHR ''/''"
  have "takeWhile ?P (rev p) @ dropWhile ?P (rev p) = rev p" by simp
  then have *: "p = rev (dropWhile ?P (rev p)) @ rev (takeWhile ?P (rev p))"
    by (metis rev_append rev_rev_ident)
  assume "splitext p = (root, ext)"
  then show ?thesis
    using * by (auto simp: splitext_def Let_def split: list.splits if_splits)
qed

lemma rotating_paths_split:
  obtains root ext where "base = root @ ext"
    "rotating_paths base = [root @ ''.0'' @ ext, root @ ''.1'' @ ext]"
proof -
  obtain root ext where s: "splitext base = (root, ext)" by fastforce
  show ?thesis
    using that [of root ext] splitext_append [OF s] s by (simp add: rotating_paths_def)
qed

lemma slot_paths: "rotating_paths base = [slot_path base 0, slot_path base 1]"
  by (rule rotating_paths_split [of base]) (simp add: slot_path_def)

lemma slot_path_mod: "slot_path base n = slot_path base (n mod 2)"
  by (simp add: slot_path_def)

lemma slot_path_cases: "slot_path base n = (if n mod 2 = 0 then slot_path base 0 else slot_path base 1)"
proof -
  have "n mod 2 = 0 \<or> n mod 2 = 1" by presburger
  then show ?thesis by (metis slot_path_mod zero_neq_one)
qed

lemma slot_distinct [simp]:
  "slot_path base 0 \<noteq> slot_path base 1"
  "slot_path base 1 \<noteq> slot_path base 0"
  by (rule rotating_paths_split [of base], simp add: slot_path_def)+

lemma slot_not_base [simp]:
  "slot_path base n \<noteq> base"  "base \<noteq> slot_path base n"
proof -
  show "slot_path base n \<noteq> base"
  proof (rule rotating_paths_split [of base])
    fix root ext
    assume b: "base = root @ ext"
      and r: "rotating_paths base = [root @ ''.0'' @ ext, root @ ''.1'' @ ext]"
    have "length (slot_path base 0) \<noteq> length base" "length (slot_path base 1) \<noteq> length base"
      by (subst b, simp add: slot_path_def r)+
    then show ?thesis using slot_path_cases [of base n] by (metis (full_types))
  qed
  then show "base \<noteq> slot_path base n" by metis
qed

lemma slot_length: "length (slot_path base n) = length base + 2"
proof (rule rotating_paths_split [of base])
  fix root ext
  assume b: "base = root @ ext"
    and r: "rotating_paths base = [root @ ''.0'' @ ext, root @ ''.1'' @ ext]"
  have "length (slot_path base 0) = length base + 2" "length (slot_path base 1) = length base + 2"
    by (subst (2) b, simp add: slot_path_def r)+
  then show ?thesis using slot_path_cases [of base n] by metis
qed

lemma tmp_not_slot [simp]:
  "tmp_path (slot_path base n) \<noteq> slot_path base m"
  "slot_path base m \<noteq> tmp_path (slot_path base n)"
  "tmp_path (slot_path base n) \<noteq> base"
  "base \<noteq> tmp_path (slot_path base n)"
proof -
  have l: "length (tmp_path (slot_path base n)) = length base + 6"
    by (simp add: tmp_path_def slot_length)
  show "tmp_path (slot_path base n) \<noteq> slot_path base m"
  proof
    assume "tmp_path (slot_path base n) = slot_path base m"
    then have "length (tmp_path (slot_path base n)) = length (slot_path base m)" by simp
    then show False by (simp add: l slot_length)
  qed
  then show "slot_path base m \<noteq> tmp_path (slot_path base n)" by metis
  show "tmp_path (slot_path base n) \<noteq> base" using l by auto
  then show "base \<noteq> tmp_path (slot_path base n)" by metis
qed

text \<open>One step of the search for the newest copy, on file contents.\<close>

definition pick :: "'a saved \<Rightarrow> 'a saved \<times> int \<Rightarrow> 'a saved \<times> int" where
  "pick f best = (case load_seq f of None \<Rightarrow> best | Some q \<Rightarrow> if snd best \<le> q then (f, q) else best)"

lemma read_rotating_eq:
  "read_rotating d base =
     pick (files d base) (pick (files d (slot_path base 1)) (pick (files d (slot_path base 0)) (NoFile, -1)))"
  by (simp add: read_rotating_def slot_paths read_step_def pick_def cong: option.case_cong)

lemma pick_new: "snd best \<le> m \<Longrightarrow> pick (DictFile a (Some m)) best = (DictFile a (Some m), m)"
  by (simp add: pick_def load_seq_def)

lemma pick_bad [simp]: "pick NoFile best = best" "pick BadFile best = best"
  by (simp_all add: pick_def load_seq_def)

lemma slot_ok_load: "slot_ok i n f \<Longrightarrow> load_seq f = Some q \<Longrightarrow> 0 \<le> q \<and> q \<le> n \<and> q mod 2 = i"
  by (auto simp: slot_ok_def load_seq_def split: saved.splits option.splits)

lemma legacy_ok_load: "legacy_ok n f \<Longrightarrow> load_seq f = Some q \<Longrightarrow> 0 \<le> q \<and> q \<le> n"
  by (auto simp: legacy_ok_def)

lemma pick_slot_older: "slot_ok i n f \<Longrightarrow> n < snd best \<Longrightarrow> pick f best = best"
  by (auto simp: pick_def dest: slot_ok_load split: option.splits)

lemma pick_legacy_older: "legacy_ok n f \<Longrightarrow> n < snd best \<Longrightarrow> pick f best = best"
  by (auto simp: pick_def dest: legacy_ok_load split: option.splits)

lemma pick_slot_le: "slot_ok i n f \<Longrightarrow> snd best \<le> n \<Longrightarrow> snd (pick f best) \<le> n"
  by (auto simp: pick_def dest: slot_ok_load split: option.splits)

lemma pick_legacy_le: "legacy_ok n f \<Longrightarrow> snd best \<le> n \<Longrightarrow> snd (pick f best) \<le> n"
  by (auto simp: pick_def dest: legacy_ok_load split: option.splits)

lemma slot_ok_bad [simp]: "slot_ok i n NoFile" "slot_ok i n BadFile"
  by (simp_all add: slot_ok_def)

lemma slot_ok_new: "0 \<le> m \<Longrightarrow> m mod 2 = i \<Longrightarrow> slot_ok i m (DictFile a (Some m))"
  by (simp add: slot_ok_def)

lemma slot_ok_mono: "slot_ok i n f \<Longrightarrow> n \<le> m \<Longrightarrow> slot_ok i m f"
  by (auto simp: slot_ok_def split: saved.splits option.splits)

lemma legacy_ok_mono: "legacy_ok n f \<Longrightarrow> n \<le> m \<Longrightarrow> legacy_ok m f"
  by (auto simp: legacy_ok_def split: option.splits)

text \<open>A slot of the parity of \<open>n + 1\<close> holds nothing as new as \<open>n\<close>.\<close>

lemma slot_ok_parity: "slot_ok ((n + 1) mod 2) n f \<Longrightarrow> slot_ok ((n + 1) mod 2) (n - 1) f"
proof -
  assume f: "slot_ok ((n + 1) mod 2) n f"
  have "q mod 2 = (n + 1) mod 2 \<Longrightarrow> q \<le> n \<Longrightarrow> q \<le> n - 1" for q :: int by presburger
  with f show ?thesis by (auto simp: slot_ok_def split: saved.splits option.splits)
qed

text \<open>The content of the two slots after a change of the slot for \<open>seq\<close>.\<close>

definition put_slot :: "string \<Rightarrow> 'a disk \<Rightarrow> int \<Rightarrow> 'a saved \<Rightarrow> 'a saved \<Rightarrow> 'a disk" where
  "put_slot base d seq t y =
     d\<lparr>files := (files d)(tmp_path (slot_path base seq) := t, slot_path base seq := y)\<rparr>"

lemma put_slot_files [simp]:
  "files (put_slot base d seq t y) base = files d base"
  "seq mod 2 = 0 \<Longrightarrow> files (put_slot base d seq t y) (slot_path base 0) = y"
  "seq mod 2 = 0 \<Longrightarrow> files (put_slot base d seq t y) (slot_path base 1) = files d (slot_path base 1)"
  "seq mod 2 = 1 \<Longrightarrow> files (put_slot base d seq t y) (slot_path base 1) = y"
  "seq mod 2 = 1 \<Longrightarrow> files (put_slot base d seq t y) (slot_path base 0) = files d (slot_path base 0)"
  using slot_path_cases [of base seq] by (simp_all add: put_slot_def)

lemma write_rotating_put:
  "write_rotating d base obj seq = Inr d' \<longleftrightarrow>
     writable d \<and> d' = put_slot base d seq NoFile (DictFile obj (Some seq))"
  by (auto simp: write_rotating_def atomic_write_def put_slot_def)

lemma rot_cut_put:
  assumes "rot_cut base d obj seq d'"
  obtains t y where "y \<in> {files d (slot_path base seq), DictFile obj (Some seq), NoFile, BadFile}"
    "d' = put_slot base d seq t y"
proof -
  from assms have "power_cut d (slot_path base seq) (DictFile obj (Some seq)) d'"
    by (simp add: rot_cut_def)
  then show ?thesis
  proof (cases rule: power_cut.cases)
    case (before_rename x)
    then show ?thesis
      by (intro that [of "files d (slot_path base seq)" x]) (auto simp: put_slot_def fun_eq_iff)
  next
    case (during_rename y x)
    then show ?thesis by (intro that [of y x]) (auto simp: put_slot_def)
  qed
qed

lemma parity_cases:
  obtains "(n + 1) mod 2 = 0" | "(n + 1) mod 2 = (1::int)"
proof -
  have "(n + 1) mod 2 = 0 \<or> (n + 1) mod 2 = 1" by presburger
  with that show thesis by blast
qed

text \<open>The newest copy wins, whichever of the two slots it is in.\<close>

lemma read_new_slot:
  assumes b: "rot_bounded base d n"
  shows "read_rotating (put_slot base d (n + 1) t (DictFile a (Some (n + 1)))) base
    = (DictFile a (Some (n + 1)), n + 1)"
  using b
  by (cases n rule: parity_cases)
    (auto simp: read_rotating_eq rot_bounded_def pick_new pick_slot_older pick_legacy_older
       pick_slot_le [THEN order.trans])

lemma rot_bounded_new_slot:
  assumes b: "rot_bounded base d n"
  shows "rot_bounded base (put_slot base d (n + 1) t (DictFile a (Some (n + 1)))) (n + 1)"
  using b
  by (cases n rule: parity_cases)
    (auto simp: rot_bounded_def slot_ok_new intro: slot_ok_mono legacy_ok_mono)

lemma put_slot_same:
  "read_rotating (put_slot base d seq t (files d (slot_path base seq))) base = read_rotating d base"
  "rot_bounded base (put_slot base d seq t (files d (slot_path base seq))) n = rot_bounded base d n"
  using slot_path_cases [of base seq]
  by (auto simp: read_rotating_eq rot_bounded_def put_slot_def)

lemma rot_bounded_bad_slot:
  assumes b: "rot_bounded base d n" and y: "y = NoFile \<or> y = BadFile"
  shows "rot_bounded base (put_slot base d (n + 1) t y) n"
  using b y by (cases n rule: parity_cases) (auto simp: rot_bounded_def)

text \<open>
  Damaging the slot of the next save cannot hide the current one: that slot holds an older save
  of the other parity.
\<close>

lemma read_bad_slot:
  assumes b: "rot_bounded base d n" and r: "snd (read_rotating d base) = n" "0 \<le> n"
    and y: "y = NoFile \<or> y = BadFile"
  shows "read_rotating (put_slot base d (n + 1) t y) base = read_rotating d base"
proof (cases n rule: parity_cases)
  case 1
  let ?f0 = "files d (slot_path base 0)" and ?f1 = "files d (slot_path base 1)" and ?fb = "files d base"
  have f0: "slot_ok 0 (n - 1) ?f0" using slot_ok_parity [of n ?f0] 1 b by (simp add: rot_bounded_def)
  then have p0: "snd (pick ?f0 (NoFile, -1)) \<le> n - 1" using r(2) by (intro pick_slot_le) auto
  have "pick ?fb (pick ?f1 (pick ?f0 (NoFile, -1))) = pick ?fb (pick ?f1 (NoFile, -1))"
    using r p0 unfolding read_rotating_eq
    by (auto simp: pick_def [of ?fb] pick_def [of ?f1] split: option.splits if_splits)
  with 1 y show ?thesis by (auto simp: read_rotating_eq)
next
  case 2
  let ?f0 = "files d (slot_path base 0)" and ?f1 = "files d (slot_path base 1)" and ?fb = "files d base"
  let ?p = "pick ?f0 (NoFile, -1)"
  have f1: "slot_ok 1 (n - 1) ?f1" using slot_ok_parity [of n ?f1] 2 b by (simp add: rot_bounded_def)
  have "pick ?fb (pick ?f1 ?p) = pick ?fb ?p"
    using r f1 unfolding read_rotating_eq
    by (auto simp: pick_def [of ?fb] pick_def [of ?f1] dest: slot_ok_load split: option.splits if_splits)
  with 2 y show ?thesis by (auto simp: read_rotating_eq)
qed

lemma rot_read_eq: "rot_read base d = (file_content (fst (read_rotating d base)), snd (read_rotating d base))"
  by (simp add: rot_read_def split: prod.split)

lemma read_none:
  "rot_bounded base d n \<Longrightarrow> rot_read base d = (Some b, m) \<Longrightarrow> 0 \<le> m"
  by (auto simp: rot_read_eq read_rotating_eq rot_bounded_def pick_def
      dest: slot_ok_load legacy_ok_load split: option.splits if_splits)

interpretation rot: durable_slots
  "\<lambda>d a n. write_rotating d base a n" "rot_read base" "rot_cut base" "rot_bounded base"
  for base :: string
proof (unfold_locales, goal_cases)
  case (1 s n a s')
  then show ?case by (auto simp: write_rotating_put rot_read_eq read_new_slot)
next
  case (2 s n a s')
  then show ?case by (auto simp: write_rotating_put rot_bounded_new_slot)
next
  case (3 s n b a s')
  from 3(3) obtain t y where y: "y \<in> {files s (slot_path base (n + 1)), DictFile a (Some (n + 1)), NoFile, BadFile}"
    and s': "s' = put_slot base s (n + 1) t y" by (rule rot_cut_put)
  have r: "snd (read_rotating s base) = n" using 3(2) by (simp add: rot_read_eq)
  have n: "0 \<le> n" by (rule read_none [OF 3(1,2)])
  from y consider "y = files s (slot_path base (n + 1))" | "y = DictFile a (Some (n + 1))"
    | "y = NoFile \<or> y = BadFile" by blast
  then show ?case
  proof cases
    case 1
    then show ?thesis using 3(1,2) s' by (simp add: rot_read_eq put_slot_same)
  next
    case 2
    then show ?thesis using 3(1) s' by (simp add: rot_read_eq read_new_slot rot_bounded_new_slot)
  next
    case 3
    then show ?thesis
      using read_bad_slot [OF \<open>rot_bounded base s n\<close> r n 3] rot_bounded_bad_slot [OF \<open>rot_bounded base s n\<close> 3]
        \<open>rot_read base s = (Some b, n)\<close> s' by (simp add: rot_read_eq)
  qed
qed

end
