(* ===== verification/Findings.thy ===== *)
theory Findings
  imports Util PyValue
begin

text \<open>
  Models \<open>findings.py\<close>: the finding store.  A store maps stable keys to findings, repeated
  events raise the count, and every change is flushed to the rotating save files (\<open>Util\<close>).
  The locale \<open>evidence_log\<close> is the monotonicity contract that the monitors and the
  orchestrator rely on: whatever is reported later, no finding is lost or softened and the
  verdict never improves.  Clock readings (\<open>now_iso()\<close>) are arguments.  Listeners (display
  only) and logging are not modelled.
\<close>

section \<open>Severities and findings\<close>

datatype severity = FAIL | WARN | INFO

fun SEVERITY_RANK :: "severity \<Rightarrow> int" where
  "SEVERITY_RANK INFO = 1"
| "SEVERITY_RANK WARN = 2"
| "SEVERITY_RANK FAIL = 3"

instantiation severity :: linorder
begin

definition less_eq_severity :: "severity \<Rightarrow> severity \<Rightarrow> bool" where
  "less_eq_severity a b = (SEVERITY_RANK a \<le> SEVERITY_RANK b)"

definition less_severity :: "severity \<Rightarrow> severity \<Rightarrow> bool" where
  "less_severity a b = (SEVERITY_RANK a < SEVERITY_RANK b)"

instance
proof (standard, goal_cases)
  case (4 x y)
  then show ?case by (cases x; cases y) (auto simp: less_eq_severity_def)
qed (auto simp: less_eq_severity_def less_severity_def)

end

lemma SEVERITY_RANK_inject [simp]: "SEVERITY_RANK a = SEVERITY_RANK b \<longleftrightarrow> a = b"
  by (cases a; cases b) simp_all

lemma severity_le_FAIL [simp]: "s \<le> FAIL"
  by (cases s) (simp_all add: less_eq_severity_def)

lemma FAIL_le_iff [simp]: "FAIL \<le> s \<longleftrightarrow> s = FAIL"
  by (cases s) (simp_all add: less_eq_severity_def)

lemma WARN_le_iff [simp]: "WARN \<le> s \<longleftrightarrow> s \<noteq> INFO"
  by (cases s) (simp_all add: less_eq_severity_def)

lemma INFO_le [simp]: "INFO \<le> s"
  by (cases s) (simp_all add: less_eq_severity_def)

definition MAX_EVIDENCE :: nat where
  "MAX_EVIDENCE = 25"

record finding =
  f_key :: string
  f_severity :: severity
  f_component :: string
  f_title :: string
  f_detail :: string
  f_recommendation :: string
  f_count :: int
  f_first_seen :: string
  f_last_seen :: string
  f_phase :: string
  f_evidence :: "string list"
  f_incomplete :: bool

section \<open>Persisted form\<close>

fun severity_str :: "severity \<Rightarrow> string" where
  "severity_str FAIL = ''FAIL''"
| "severity_str WARN = ''WARN''"
| "severity_str INFO = ''INFO''"

definition severity_of :: "string \<Rightarrow> severity option" where
  "severity_of s = (if s = ''FAIL'' then Some FAIL else if s = ''WARN'' then Some WARN
     else if s = ''INFO'' then Some INFO else None)"

definition to_dict :: "finding \<Rightarrow> (string, pyval) dict" where
  "to_dict f =
    [(''key'', PStr (f_key f)), (''severity'', PStr (severity_str (f_severity f))),
     (''component'', PStr (f_component f)), (''title'', PStr (f_title f)),
     (''detail'', PStr (f_detail f)), (''recommendation'', PStr (f_recommendation f)),
     (''count'', PInt (f_count f)), (''first_seen'', PStr (f_first_seen f)),
     (''last_seen'', PStr (f_last_seen f)), (''phase'', PStr (f_phase f)),
     (''evidence'', PList (map PStr (f_evidence f))), (''incomplete'', PBool (f_incomplete f))]"

definition finding_fields :: "string list" where
  "finding_fields = [''key'', ''severity'', ''component'', ''title'', ''detail'', ''recommendation'',
     ''count'', ''first_seen'', ''last_seen'', ''phase'', ''evidence'', ''incomplete'']"

text \<open>
  \<open>Finding(**raw)\<close>: an unknown field or a missing required one is a \<open>TypeError\<close>
  (\<open>None\<close>).  The other \<open>None\<close> cases are values of a type that the program never saves.
\<close>

definition str_field :: "(string, pyval) dict \<Rightarrow> string \<Rightarrow> string option \<Rightarrow> string option" where
  "str_field d k dflt = (case map_of d k of None \<Rightarrow> dflt | Some (PStr s) \<Rightarrow> Some s | _ \<Rightarrow> None)"

fun str_list :: "pyval list \<Rightarrow> string list option" where
  "str_list [] = Some []"
| "str_list (PStr s # vs) = map_option ((#) s) (str_list vs)"
| "str_list _ = None"

definition finding_of_raw :: "pyval \<Rightarrow> finding option" where
  "finding_of_raw raw = (case raw of
     PDict d \<Rightarrow>
       if \<not> set (map fst d) \<subseteq> set finding_fields then None
       else (case (str_field d ''key'' None, Option.bind (str_field d ''severity'' None) severity_of,
                   str_field d ''component'' None, str_field d ''title'' None,
                   str_field d ''detail'' (Some []), str_field d ''recommendation'' (Some []),
                   dict_get d ''count'' (PInt 1),
                   str_field d ''first_seen'' (Some []), str_field d ''last_seen'' (Some []),
                   str_field d ''phase'' (Some []),
                   dict_get d ''evidence'' (PList []), dict_get d ''incomplete'' (PBool False)) of
          (Some k, Some sev, Some compo, Some title, Some detail, Some reco, PInt n,
           Some fst_seen, Some lst_seen, Some ph, PList ev, PBool inc) \<Rightarrow>
             map_option (\<lambda>evs. \<lparr>f_key = k, f_severity = sev, f_component = compo, f_title = title,
               f_detail = detail, f_recommendation = reco, f_count = n, f_first_seen = fst_seen,
               f_last_seen = lst_seen, f_phase = ph, f_evidence = evs, f_incomplete = inc\<rparr>) (str_list ev)
        | _ \<Rightarrow> None)
   | _ \<Rightarrow> None)"

section \<open>The store\<close>

record findings =
  fs_path :: string
  fs_disk :: "pyval list disk option"   \<comment> \<open>\<open>None\<close>: a store without a file\<close>
  fs_items :: "(string, finding) dict"
  fs_dirty :: bool
  fs_current_phase :: string
  fs_seq :: int

definition empty_findings :: findings where
  "empty_findings = \<lparr>fs_path = [], fs_disk = None, fs_items = [], fs_dirty = False,
     fs_current_phase = [], fs_seq = 0\<rparr>"

definition load_raw :: "pyval list \<Rightarrow> (string, finding) dict" where
  "load_raw raws = fold (\<lambda>raw items. case finding_of_raw raw of
     None \<Rightarrow> items | Some f \<Rightarrow> AList.update (f_key f) f items) raws []"

definition findings_init :: "string \<Rightarrow> pyval list disk \<Rightarrow> findings" where
  "findings_init path disk = (let (existing, seq) = read_rotating disk path in
     empty_findings\<lparr>fs_path := path, fs_disk := Some disk, fs_seq := seq,
       fs_items := load_raw (case file_content existing of None \<Rightarrow> [] | Some raws \<Rightarrow> raws)\<rparr>)"

definition findings_flush :: "bool \<Rightarrow> findings \<Rightarrow> findings" where
  "findings_flush force F = (case fs_disk F of
     None \<Rightarrow> F
   | Some disk \<Rightarrow>
       if \<not> (fs_dirty F \<or> force) then F
       else let data = map (\<lambda>kf. PDict (to_dict (snd kf))) (fs_items F);
                seq = fs_seq F + 1;
                F1 = F\<lparr>fs_dirty := False, fs_seq := seq\<rparr>
            in case write_rotating disk (fs_path F) data seq of
                 Inl _ \<Rightarrow> F1
               | Inr disk' \<Rightarrow> F1\<lparr>fs_disk := Some disk'\<rparr>)"

text \<open>The arguments of \<open>Findings.add\<close>; \<open>event\<close> fills in the defaults.\<close>

record event =
  ev_key :: string
  ev_severity :: severity
  ev_component :: string
  ev_title :: string
  ev_detail :: string
  ev_recommendation :: string
  ev_evidence :: "string list"
  ev_count :: int
  ev_phase :: "string option"
  ev_incomplete :: bool

definition event :: "string \<Rightarrow> severity \<Rightarrow> string \<Rightarrow> string \<Rightarrow> event" where
  "event key sev compo title = \<lparr>ev_key = key, ev_severity = sev, ev_component = compo, ev_title = title,
     ev_detail = [], ev_recommendation = [], ev_evidence = [], ev_count = 1, ev_phase = None,
     ev_incomplete = False\<rparr>"

definition add_line :: "string \<Rightarrow> string list \<Rightarrow> string list" where
  "add_line raw evidence = (let line = rstrip raw in
     if line \<noteq> [] \<and> line \<notin> set evidence \<and> length evidence < MAX_EVIDENCE
     then evidence @ [line] else evidence)"

definition new_finding :: "string \<Rightarrow> string \<Rightarrow> event \<Rightarrow> finding" where
  "new_finding now phase e = \<lparr>f_key = ev_key e, f_severity = ev_severity e, f_component = ev_component e,
     f_title = ev_title e, f_detail = ev_detail e, f_recommendation = ev_recommendation e,
     f_count = max (ev_count e) 1, f_first_seen = now, f_last_seen = now,
     f_phase = (case ev_phase e of None \<Rightarrow> phase | Some p \<Rightarrow> p),
     f_evidence = [], f_incomplete = ev_incomplete e\<rparr>"

definition update_finding :: "string \<Rightarrow> event \<Rightarrow> finding \<Rightarrow> finding" where
  "update_finding now e f =
    (let f1 = f\<lparr>f_incomplete := f_incomplete f \<or> ev_incomplete e,
                f_count := f_count f + ev_count e, f_last_seen := now\<rparr>;
         f2 = (if SEVERITY_RANK (ev_severity e) > SEVERITY_RANK (f_severity f1)
               then f1\<lparr>f_severity := ev_severity e, f_title := ev_title e,
                      f_recommendation := (if ev_recommendation e \<noteq> [] then ev_recommendation e
                                           else f_recommendation f1)\<rparr>
               else f1)
     in if ev_detail e \<noteq> [] \<and> f_detail f2 = [] then f2\<lparr>f_detail := ev_detail e\<rparr> else f2)"

definition findings_add :: "string \<Rightarrow> event \<Rightarrow> findings \<Rightarrow> findings" where
  "findings_add now e F =
    (let existing = map_of (fs_items F) (ev_key e);
         new = (existing = None);
         f = (case existing of None \<Rightarrow> new_finding now (fs_current_phase F) e
              | Some f \<Rightarrow> update_finding now e f);
         f' = f\<lparr>f_evidence := fold add_line (ev_evidence e) (f_evidence f)\<rparr>;
         F1 = F\<lparr>fs_items := AList.update (ev_key e) f' (fs_items F), fs_dirty := True\<rparr>
     in if new \<or> ev_severity e = FAIL then findings_flush False F1 else F1)"

definition findings_escalate ::
  "string \<Rightarrow> severity \<Rightarrow> string option \<Rightarrow> string option \<Rightarrow> findings \<Rightarrow> findings" where
  "findings_escalate key sev title reco F = findings_flush False
    (case map_of (fs_items F) key of
       Some f \<Rightarrow>
         if SEVERITY_RANK sev > SEVERITY_RANK (f_severity f)
         then F\<lparr>fs_dirty := True,
            fs_items := AList.update key (f\<lparr>f_severity := sev,
              f_title := (case title of Some (c # cs) \<Rightarrow> c # cs | _ \<Rightarrow> f_title f),
              f_recommendation := (case reco of Some (c # cs) \<Rightarrow> c # cs | _ \<Rightarrow> f_recommendation f)\<rparr>)
              (fs_items F)\<rparr>
         else F
     | None \<Rightarrow> F)"

definition findings_get :: "findings \<Rightarrow> string \<Rightarrow> finding option" where
  "findings_get F key = map_of (fs_items F) key"

definition findings_all :: "findings \<Rightarrow> finding list" where
  "findings_all F = sort_key (\<lambda>f. (- SEVERITY_RANK (f_severity f), f_component f, f_first_seen f))
     (map snd (fs_items F))"

definition findings_counts :: "findings \<Rightarrow> severity \<Rightarrow> nat" where
  "findings_counts F sev = length (filter (\<lambda>kf. f_severity (snd kf) = sev) (fs_items F))"

definition by_phase :: "string \<Rightarrow> findings \<Rightarrow> finding list" where
  "by_phase phase F = filter (\<lambda>f. f_phase f = phase) (findings_all F)"

datatype verdict = PASS | PASS_WITH_WARNINGS | INCOMPLETE | FAILED

definition verdict :: "findings \<Rightarrow> bool \<Rightarrow> verdict" where
  "verdict F incomplete =
    (if findings_counts F FAIL \<noteq> 0 then FAILED
     else if incomplete \<or> (\<exists>f \<in> set (findings_all F). f_incomplete f) then INCOMPLETE
     else if findings_counts F WARN \<noteq> 0 then PASS_WITH_WARNINGS
     else PASS)"

section \<open>Frame facts\<close>

named_theorems findings_simps \<open>what each store operation does to the fields it leaves alone\<close>

lemma flush_frame [simp, findings_simps]:
  "fs_items (findings_flush b F) = fs_items F"
  "fs_current_phase (findings_flush b F) = fs_current_phase F"
  "fs_path (findings_flush b F) = fs_path F"
  by (simp_all add: findings_flush_def Let_def split: option.split sum.split)

definition add_finding :: "string \<Rightarrow> event \<Rightarrow> findings \<Rightarrow> finding" where
  "add_finding now e F =
    (let f = (case map_of (fs_items F) (ev_key e) of None \<Rightarrow> new_finding now (fs_current_phase F) e
              | Some f \<Rightarrow> update_finding now e f)
     in f\<lparr>f_evidence := fold add_line (ev_evidence e) (f_evidence f)\<rparr>)"

lemma fs_items_add [simp, findings_simps]:
  "fs_items (findings_add now e F) = AList.update (ev_key e) (add_finding now e F) (fs_items F)"
  by (simp add: findings_add_def add_finding_def Let_def)

lemma add_frame [simp, findings_simps]:
  "fs_current_phase (findings_add now e F) = fs_current_phase F"
  "fs_path (findings_add now e F) = fs_path F"
  by (simp_all add: findings_add_def Let_def)

definition escalated :: "severity \<Rightarrow> string option \<Rightarrow> string option \<Rightarrow> finding \<Rightarrow> finding" where
  "escalated sev title reco f =
    (if SEVERITY_RANK sev > SEVERITY_RANK (f_severity f)
     then f\<lparr>f_severity := sev,
            f_title := (case title of Some (c # cs) \<Rightarrow> c # cs | _ \<Rightarrow> f_title f),
            f_recommendation := (case reco of Some (c # cs) \<Rightarrow> c # cs | _ \<Rightarrow> f_recommendation f)\<rparr>
     else f)"

lemma update_same: "map_of d k = Some v \<Longrightarrow> AList.update k v d = d"
  by (induction d) auto

lemma fs_items_escalate [simp, findings_simps]:
  "fs_items (findings_escalate key sev title reco F) =
    (case map_of (fs_items F) key of None \<Rightarrow> fs_items F
     | Some f \<Rightarrow> AList.update key (escalated sev title reco f) (fs_items F))"
  by (auto simp: findings_escalate_def escalated_def update_same split: option.split)

lemma escalate_frame [simp, findings_simps]:
  "fs_current_phase (findings_escalate key sev title reco F) = fs_current_phase F"
  "fs_path (findings_escalate key sev title reco F) = fs_path F"
  by (simp_all add: findings_escalate_def split: option.split)

lemma get_add [findings_simps]:
  "findings_get (findings_add now e F) k =
     (if k = ev_key e then Some (add_finding now e F) else findings_get F k)"
  by (simp add: findings_get_def dict_simps)

lemma get_escalate [findings_simps]:
  "findings_get (findings_escalate key sev title reco F) k =
     (if k = key then map_option (escalated sev title reco) (findings_get F k) else findings_get F k)"
  by (simp add: findings_get_def dict_simps split: option.split)

section \<open>The invariant of the store\<close>

definition finding_ok :: "finding \<Rightarrow> bool" where
  "finding_ok f \<longleftrightarrow> 1 \<le> f_count f \<and> length (f_evidence f) \<le> MAX_EVIDENCE \<and>
     distinct (f_evidence f) \<and> [] \<notin> set (f_evidence f)"

definition findings_ok :: "findings \<Rightarrow> bool" where
  "findings_ok F \<longleftrightarrow> distinct (map fst (fs_items F)) \<and>
     (\<forall>(k, f) \<in> set (fs_items F). f_key f = k \<and> finding_ok f)"

definition legal :: "event \<Rightarrow> bool" where
  "legal e \<longleftrightarrow> 0 \<le> ev_count e"

lemma event_fields [simp]:
  "ev_key (event k s c t) = k" "ev_severity (event k s c t) = s" "ev_component (event k s c t) = c"
  "ev_title (event k s c t) = t" "ev_count (event k s c t) = 1" "ev_phase (event k s c t) = None"
  "ev_incomplete (event k s c t) = False" "ev_evidence (event k s c t) = []"
  by (simp_all add: event_def)

lemma legal_event [simp]: "legal (event k s c t)"
  by (simp add: legal_def event_def)

lemma add_line_ok:
  "distinct ls \<Longrightarrow> [] \<notin> set ls \<Longrightarrow> length ls \<le> MAX_EVIDENCE \<Longrightarrow>
   distinct (add_line l ls) \<and> [] \<notin> set (add_line l ls) \<and> length (add_line l ls) \<le> MAX_EVIDENCE"
  by (auto simp: add_line_def Let_def)

lemma add_lines_ok:
  "distinct ls \<Longrightarrow> [] \<notin> set ls \<Longrightarrow> length ls \<le> MAX_EVIDENCE \<Longrightarrow>
   distinct (fold add_line xs ls) \<and> [] \<notin> set (fold add_line xs ls) \<and>
   length (fold add_line xs ls) \<le> MAX_EVIDENCE"
proof (induction xs arbitrary: ls)
  case (Cons x xs)
  then show ?case using add_line_ok [OF Cons.prems, of x] by auto
qed simp

lemma add_lines_prefix: "\<exists>zs. fold add_line xs ls = ls @ zs"
proof (induction xs arbitrary: ls)
  case (Cons x xs)
  have "\<exists>zs. add_line x ls = ls @ zs" by (auto simp: add_line_def Let_def)
  then show ?case using Cons.IH [of "add_line x ls"] by fastforce
qed simp

lemma update_finding_fields [simp]:
  "f_key (update_finding now e f) = f_key f"
  "f_component (update_finding now e f) = f_component f"
  "f_count (update_finding now e f) = f_count f + ev_count e"
  "f_first_seen (update_finding now e f) = f_first_seen f"
  "f_last_seen (update_finding now e f) = now"
  "f_phase (update_finding now e f) = f_phase f"
  "f_evidence (update_finding now e f) = f_evidence f"
  "f_incomplete (update_finding now e f) = (f_incomplete f \<or> ev_incomplete e)"
  "f_severity (update_finding now e f) = max (f_severity f) (ev_severity e)"
  by (auto simp: update_finding_def Let_def max_def less_eq_severity_def)

lemma escalated_fields [simp]:
  "f_key (escalated sev t r f) = f_key f"
  "f_component (escalated sev t r f) = f_component f"
  "f_count (escalated sev t r f) = f_count f"
  "f_first_seen (escalated sev t r f) = f_first_seen f"
  "f_phase (escalated sev t r f) = f_phase f"
  "f_evidence (escalated sev t r f) = f_evidence f"
  "f_incomplete (escalated sev t r f) = f_incomplete f"
  "f_severity (escalated sev t r f) = max (f_severity f) sev"
  by (auto simp: escalated_def max_def less_eq_severity_def)

lemma add_finding_ok:
  assumes "findings_ok F" "legal e"
  shows "f_key (add_finding now e F) = ev_key e \<and> finding_ok (add_finding now e F)"
proof (cases "map_of (fs_items F) (ev_key e)")
  case None
  then show ?thesis
    using add_lines_ok [of "[]" "ev_evidence e"]
    by (simp add: add_finding_def new_finding_def finding_ok_def Let_def)
next
  case (Some f)
  then have "(ev_key e, f) \<in> set (fs_items F)" by (rule map_of_SomeD)
  with assms have "f_key f = ev_key e" "finding_ok f" by (auto simp: findings_ok_def)
  with Some assms(2) add_lines_ok [of "f_evidence f" "ev_evidence e"] show ?thesis
    by (simp add: add_finding_def finding_ok_def Let_def legal_def)
qed

lemma findings_ok_update:
  "findings_ok F \<Longrightarrow> f_key f = k \<Longrightarrow> finding_ok f \<Longrightarrow>
    fs_items F' = AList.update k f (fs_items F) \<Longrightarrow> findings_ok F'"
proof -
  assume ok: "findings_ok F" and k: "f_key f = k" "finding_ok f"
    and u: "fs_items F' = AList.update k f (fs_items F)"
  have "f_key g = k' \<and> finding_ok g" if m: "(k', g) \<in> set (fs_items F')" for k' g
    using update_values_cases [OF m [unfolded u]] ok k by (auto simp: findings_ok_def)
  moreover have "distinct (map fst (fs_items F'))"
    unfolding u using ok by (simp only: findings_ok_def distinct_keys_update)
  ultimately show "findings_ok F'" unfolding findings_ok_def by blast
qed

lemma findings_ok_add [simp]: "findings_ok F \<Longrightarrow> legal e \<Longrightarrow> findings_ok (findings_add now e F)"
  by (rule findings_ok_update [of F "add_finding now e F" "ev_key e"]) (simp_all add: add_finding_ok)

lemma findings_ok_cong: "fs_items F' = fs_items F \<Longrightarrow> findings_ok F' = findings_ok F"
  by (simp add: findings_ok_def)

lemma findings_ok_escalate [simp]:
  assumes "findings_ok F" shows "findings_ok (findings_escalate key sev t r F)"
proof (cases "map_of (fs_items F) key")
  case None
  then show ?thesis using assms by (simp add: findings_ok_def)
next
  case (Some f)
  then have "(key, f) \<in> set (fs_items F)" by (rule map_of_SomeD)
  with assms have "f_key f = key" "finding_ok f" by (auto simp: findings_ok_def)
  with Some assms show ?thesis
    by - (rule findings_ok_update [of F "escalated sev t r f" key], simp_all add: finding_ok_def)
qed

lemma findings_ok_flush [simp]: "findings_ok (findings_flush b F) = findings_ok F"
  by (rule findings_ok_cong) simp

lemma findings_ok_empty [simp]: "findings_ok empty_findings"
  by (simp add: findings_ok_def empty_findings_def)

section \<open>Nothing is lost or softened\<close>

definition finding_le :: "finding \<Rightarrow> finding \<Rightarrow> bool" where
  "finding_le f g \<longleftrightarrow> f_severity f \<le> f_severity g \<and> f_count f \<le> f_count g \<and>
     (f_incomplete f \<longrightarrow> f_incomplete g) \<and> f_key g = f_key f \<and> f_component g = f_component f \<and>
     f_first_seen g = f_first_seen f \<and> f_phase g = f_phase f \<and>
     (\<exists>zs. f_evidence g = f_evidence f @ zs)"

definition findings_le :: "findings \<Rightarrow> findings \<Rightarrow> bool" where
  "findings_le F G \<longleftrightarrow>
     (\<forall>k f. findings_get F k = Some f \<longrightarrow> (\<exists>g. findings_get G k = Some g \<and> finding_le f g))"

lemma finding_le_refl [simp]: "finding_le f f"
  by (simp add: finding_le_def)

lemma finding_le_trans: "finding_le f g \<Longrightarrow> finding_le g h \<Longrightarrow> finding_le f h"
  by (auto simp: finding_le_def)

lemma findings_le_refl [simp]: "findings_le F F"
  by (simp add: findings_le_def)

lemma findings_le_trans: "findings_le F G \<Longrightarrow> findings_le G H \<Longrightarrow> findings_le F H"
  unfolding findings_le_def by (meson finding_le_trans)

lemma finding_le_add_finding:
  "legal e \<Longrightarrow> findings_get F (ev_key e) = Some f \<Longrightarrow> finding_le f (add_finding now e F)"
  using add_lines_prefix [of "ev_evidence e" "f_evidence f"]
  by (auto simp: add_finding_def finding_le_def Let_def legal_def findings_get_def)

lemma findings_le_add [simp]: "legal e \<Longrightarrow> findings_le F (findings_add now e F)"
  by (auto simp: findings_le_def get_add finding_le_add_finding)

lemma finding_le_escalated: "finding_le f (escalated sev t r f)"
  by (simp add: finding_le_def)

lemma findings_le_escalate [simp]: "findings_le F (findings_escalate key sev t r F)"
  by (auto simp: findings_le_def get_escalate finding_le_escalated)

lemma findings_get_flush [simp, findings_simps]: "findings_get (findings_flush b F) k = findings_get F k"
  by (simp add: findings_get_def)

lemma findings_le_flush [simp]: "findings_le F (findings_flush b F)"
  by (simp add: findings_le_def)

section \<open>Verdicts\<close>

lemma set_findings_all [simp]: "set (findings_all F) = snd ` set (fs_items F)"
  by (simp add: findings_all_def)

lemma counts_zero_iff: "findings_counts F sev = 0 \<longleftrightarrow> sev \<notin> f_severity ` set (findings_all F)"
  by (auto simp: findings_counts_def filter_empty_conv)

lemma only_INFO_iff: "S \<subseteq> {INFO} \<longleftrightarrow> FAIL \<notin> S \<and> WARN \<notin> S"
proof -
  have "s = INFO" if "FAIL \<notin> S" "WARN \<notin> S" "s \<in> S" for s using that by (cases s) auto
  then show ?thesis by auto
qed

lemma verdict_iff:
  "(verdict F inc = FAILED \<longleftrightarrow> FAIL \<in> f_severity ` set (findings_all F)) \<and>
   (verdict F inc = INCOMPLETE \<longleftrightarrow> FAIL \<notin> f_severity ` set (findings_all F) \<and>
      (inc \<or> True \<in> f_incomplete ` set (findings_all F))) \<and>
   (verdict F inc = PASS_WITH_WARNINGS \<longleftrightarrow> FAIL \<notin> f_severity ` set (findings_all F) \<and> \<not> inc \<and>
      True \<notin> f_incomplete ` set (findings_all F) \<and> WARN \<in> f_severity ` set (findings_all F)) \<and>
   (verdict F inc = PASS \<longleftrightarrow> \<not> inc \<and> True \<notin> f_incomplete ` set (findings_all F) \<and>
      f_severity ` set (findings_all F) \<subseteq> {INFO})"
proof -
  have i: "(\<exists>f \<in> set (findings_all F). f_incomplete f) \<longleftrightarrow> True \<in> f_incomplete ` set (findings_all F)"
    by force
  show ?thesis
    unfolding verdict_def i only_INFO_iff counts_zero_iff
    by (simp del: set_findings_all split: if_split)
qed

text \<open>C1: the verdict is FAIL exactly when some finding is a FAIL; otherwise it is INCOMPLETE
  exactly when the caller or some finding says that required evidence is missing; otherwise a
  warning downgrades PASS; and PASS means that only complete, informational findings exist.\<close>

theorem verdict_spec:
  "(verdict F inc = FAILED \<longleftrightarrow> FAIL \<in> f_severity ` set (findings_all F)) \<and>
   (verdict F inc = INCOMPLETE \<longleftrightarrow> FAIL \<notin> f_severity ` set (findings_all F) \<and>
      (inc \<or> True \<in> f_incomplete ` set (findings_all F))) \<and>
   (verdict F inc = PASS_WITH_WARNINGS \<longleftrightarrow> FAIL \<notin> f_severity ` set (findings_all F) \<and> \<not> inc \<and>
      True \<notin> f_incomplete ` set (findings_all F) \<and> WARN \<in> f_severity ` set (findings_all F)) \<and>
   (verdict F inc = PASS \<longleftrightarrow> \<not> inc \<and> True \<notin> f_incomplete ` set (findings_all F) \<and>
      f_severity ` set (findings_all F) \<subseteq> {INFO})"
  by (rule verdict_iff)

fun badness :: "verdict \<Rightarrow> nat" where
  "badness PASS = 0"
| "badness PASS_WITH_WARNINGS = 1"
| "badness INCOMPLETE = 2"
| "badness FAILED = 3"

lemma badness_verdict: "badness (verdict F inc) =
    (if FAIL \<in> f_severity ` set (findings_all F) then 3 else if inc \<or> True \<in> f_incomplete ` set (findings_all F) then 2
     else if WARN \<in> f_severity ` set (findings_all F) then 1 else 0)"
proof -
  have i: "(\<exists>f \<in> set (findings_all F). f_incomplete f) \<longleftrightarrow> True \<in> f_incomplete ` set (findings_all F)" by force
  show ?thesis unfolding verdict_def i only_INFO_iff counts_zero_iff
    by (simp del: set_findings_all split: if_split)
qed

lemma findings_le_member:
  assumes "findings_ok F" "findings_le F G" "f \<in> set (findings_all F)"
  obtains g where "g \<in> set (findings_all G)" "finding_le f g"
proof -
  from assms obtain k where "(k, f) \<in> set (fs_items F)" by auto
  with assms(1) have "findings_get F k = Some f" by (auto simp: findings_ok_def findings_get_def)
  with assms(2) obtain g where g: "findings_get G k = Some g" "finding_le f g"
    by (auto simp: findings_le_def)
  then have "g \<in> set (findings_all G)" by (force simp: findings_get_def dest: map_of_SomeD)
  with g that show ?thesis by blast
qed

lemma verdict_mono:
  assumes "findings_ok F" "findings_le F G"
  shows "badness (verdict F inc) \<le> badness (verdict G inc)"
proof -
  note M = findings_le_member [OF assms]
  have fail: "FAIL \<in> f_severity ` set (findings_all G)" if "FAIL \<in> f_severity ` set (findings_all F)"
  proof -
    from that obtain f where f: "f \<in> set (findings_all F)" "f_severity f = FAIL" by force
    show ?thesis by (rule M [OF f(1)]) (use f(2) in \<open>force simp: finding_le_def\<close>)
  qed
  have inc: "True \<in> f_incomplete ` set (findings_all G)" if "True \<in> f_incomplete ` set (findings_all F)"
  proof -
    from that obtain f where f: "f \<in> set (findings_all F)" "f_incomplete f" by force
    show ?thesis by (rule M [OF f(1)]) (use f(2) in \<open>force simp: finding_le_def\<close>)
  qed
  have warn: "FAIL \<in> f_severity ` set (findings_all G) \<or> WARN \<in> f_severity ` set (findings_all G)" if "WARN \<in> f_severity ` set (findings_all F)"
  proof -
    from that obtain f where f: "f \<in> set (findings_all F)" "f_severity f = WARN" by force
    obtain g where "g \<in> set (findings_all G)" "finding_le f g" by (rule M [OF f(1)])
    then show ?thesis using f(2) by (cases "f_severity g") (force simp: finding_le_def)+
  qed
  show ?thesis unfolding badness_verdict using fail inc warn by (simp del: set_findings_all) blast
qed

section \<open>The evidence log contract\<close>

text \<open>The operations a component may perform on the store.\<close>

datatype store_op =
    Add string event
  | Escalate string severity "string option" "string option"
  | Flush bool
  | SetPhase string

fun apply_op :: "store_op \<Rightarrow> findings \<Rightarrow> findings" where
  "apply_op (Add now e) F = findings_add now e F"
| "apply_op (Escalate k s t r) F = findings_escalate k s t r F"
| "apply_op (Flush b) F = findings_flush b F"
| "apply_op (SetPhase p) F = F\<lparr>fs_current_phase := p\<rparr>"

fun legal_op :: "store_op \<Rightarrow> bool" where
  "legal_op (Add now e) = legal e"
| "legal_op _ = True"

text \<open>A log that only ever gets worse: what a reporting component may rely on.\<close>

locale evidence_log =
  fixes le :: "'s \<Rightarrow> 's \<Rightarrow> bool"
    and good :: "'s \<Rightarrow> bool"
    and step :: "'op \<Rightarrow> 's \<Rightarrow> 's"
    and allowed :: "'op \<Rightarrow> bool"
    and bad :: "'s \<Rightarrow> nat"
  assumes le_refl: "le s s"
    and le_trans: "le s t \<Longrightarrow> le t u \<Longrightarrow> le s u"
    and step_le: "allowed x \<Longrightarrow> le s (step x s)"
    and step_good: "allowed x \<Longrightarrow> good s \<Longrightarrow> good (step x s)"
    and bad_mono: "good s \<Longrightarrow> le s t \<Longrightarrow> bad s \<le> bad t"
begin

lemma run_le: "list_all allowed xs \<Longrightarrow> le s (fold step xs s)"
  by (induction xs arbitrary: s) (auto intro: le_refl le_trans step_le)

lemma run_good: "list_all allowed xs \<Longrightarrow> good s \<Longrightarrow> good (fold step xs s)"
  by (induction xs arbitrary: s) (auto intro: step_good)

lemma run_bad_mono: "list_all allowed xs \<Longrightarrow> good s \<Longrightarrow> bad s \<le> bad (fold step xs s)"
  by (blast intro: bad_mono run_le)

end

lemma findings_le_SetPhase [simp]: "findings_le F (F\<lparr>fs_current_phase := p\<rparr>)"
  by (simp add: findings_le_def findings_get_def)

lemma findings_ok_SetPhase [simp]: "findings_ok (F\<lparr>fs_current_phase := p\<rparr>) = findings_ok F"
  by (simp add: findings_ok_def)

interpretation store_log: evidence_log findings_le findings_ok apply_op legal_op
  "\<lambda>F. badness (verdict F inc)" for inc
proof (unfold_locales, goal_cases)
  case (2 s t u)
  then show ?case by (rule findings_le_trans)
next
  case (3 x s)
  then show ?case by (cases x) auto
next
  case (4 x s)
  then show ?case by (cases x) auto
next
  case (5 s t)
  then show ?case by (rule verdict_mono)
qed simp

text \<open>C11: whatever sequence of events, escalations, flushes and phase changes follows, the
  verdict never improves, no finding disappears, and none loses severity, count, its
  incomplete mark or recorded evidence.\<close>

theorem verdict_never_improves:
  assumes "findings_ok F" and "list_all legal_op ops"
  shows "badness (verdict F inc) \<le> badness (verdict (fold apply_op ops F) inc) \<and>
    findings_le F (fold apply_op ops F)"
  using store_log.run_bad_mono [OF assms(2,1)] store_log.run_le [OF assms(2)] by blast

theorem verdict_never_improves_witness:
  "badness (verdict empty_findings False)
     \<le> badness (verdict (fold apply_op [Add ''t'' (event ''k'' WARN ''Test'' ''gap''), SetPhase ''idle'',
           Escalate ''k'' FAIL None None] empty_findings) False)"
  using verdict_never_improves [of empty_findings "[Add ''t'' (event ''k'' WARN ''Test'' ''gap''), SetPhase ''idle'',
           Escalate ''k'' FAIL None None]" False]
  by simp

text \<open>C21: in every store reached from an empty one by legal operations each finding keeps at
  most 25 evidence lines, all distinct and non-empty, a positive count, and its own key.\<close>

theorem findings_invariant:
  assumes "list_all legal_op ops"
  shows "findings_ok (fold apply_op ops empty_findings)"
  using store_log.run_good [OF assms findings_ok_empty] .

theorem findings_invariant_witness:
  "findings_ok (fold apply_op [Add ''t'' (event ''k'' WARN ''Test'' ''gap'')] empty_findings)"
  by (rule findings_invariant) simp

text \<open>\<open>all\<close> lists every finding once, most severe first, then by component and time of
  first sighting, findings that agree on all three in order of insertion.\<close>

theorem findings_all_spec:
  "mset (findings_all F) = mset (map snd (fs_items F)) \<and>
   sorted (map (\<lambda>f. (- SEVERITY_RANK (f_severity f), f_component f, f_first_seen f)) (findings_all F)) \<and>
   filter (\<lambda>f. (- SEVERITY_RANK (f_severity f), f_component f, f_first_seen f) = k) (findings_all F)
     = filter (\<lambda>f. (- SEVERITY_RANK (f_severity f), f_component f, f_first_seen f) = k) (map snd (fs_items F))"
  unfolding findings_all_def by (simp only: mset_sort sorted_sort_key sort_key_stable simp_thms)

section \<open>Thresholds\<close>

text \<open>
  The pattern \<open>f = findings.add(...); if f.count >= threshold: findings.escalate(key, FAIL)\<close>
  that the monitors share.
\<close>

definition escalate_at :: "int \<Rightarrow> string \<Rightarrow> findings \<Rightarrow> findings" where
  "escalate_at threshold key F = (case findings_get F key of
     Some f \<Rightarrow> if f_count f \<ge> threshold then findings_escalate key FAIL None None F else F
   | None \<Rightarrow> F)"

lemma escalate_at_le [simp]: "findings_le F (escalate_at t k F)"
  by (simp add: escalate_at_def split: option.split)

lemma escalate_at_ok [simp]: "findings_ok F \<Longrightarrow> findings_ok (escalate_at t k F)"
  by (simp add: escalate_at_def split: option.split)

lemma escalate_at_frame [simp]: "fs_current_phase (escalate_at t k F) = fs_current_phase F"
  by (simp add: escalate_at_def split: option.split)

lemma get_escalate_at:
  "findings_get (escalate_at t k F) k' =
     (if k' = k then map_option (\<lambda>f. if f_count f \<ge> t then escalated FAIL None None f else f) (findings_get F k)
      else findings_get F k')"
  by (auto simp: escalate_at_def get_escalate split: option.split)

definition old_count :: "findings \<Rightarrow> string \<Rightarrow> int" where
  "old_count F k = (case findings_get F k of None \<Rightarrow> 0 | Some f \<Rightarrow> f_count f)"

lemma add_finding_fields [simp]:
  "f_count (add_finding now e F) = (case findings_get F (ev_key e) of None \<Rightarrow> max (ev_count e) 1
     | Some f \<Rightarrow> f_count f + ev_count e)"
  "f_severity (add_finding now e F) = (case findings_get F (ev_key e) of None \<Rightarrow> ev_severity e
     | Some f \<Rightarrow> max (f_severity f) (ev_severity e))"
  "f_incomplete (add_finding now e F) = (case findings_get F (ev_key e) of None \<Rightarrow> ev_incomplete e
     | Some f \<Rightarrow> f_incomplete f \<or> ev_incomplete e)"
  "f_phase (add_finding now e F) = (case findings_get F (ev_key e) of
     None \<Rightarrow> (case ev_phase e of None \<Rightarrow> fs_current_phase F | Some p \<Rightarrow> p) | Some f \<Rightarrow> f_phase f)"
  by (simp_all add: add_finding_def new_finding_def Let_def findings_get_def split: option.split)

lemma count_add: "1 \<le> ev_count e \<Longrightarrow> old_count (findings_add now e F) k =
    old_count F k + (if k = ev_key e then ev_count e else 0)"
  by (simp add: old_count_def get_add split: option.split)

lemma count_escalate_at [simp]: "old_count (escalate_at t k F) k' = old_count F k'"
  by (auto simp: old_count_def get_escalate_at split: option.split)

lemma threshold_reached:
  assumes "1 \<le> ev_count e" "t \<le> old_count F (ev_key e) + ev_count e"
  shows "\<exists>f. findings_get (escalate_at t (ev_key e) (findings_add now e F)) (ev_key e) = Some f \<and> f_severity f = FAIL"
  using assms count_add [OF assms(1), of now F "ev_key e"]
  by (auto simp: get_escalate_at get_add old_count_def max_def)

lemma get_FAIL_verdict: "findings_get F k = Some f \<Longrightarrow> f_severity f = FAIL \<Longrightarrow> verdict F inc = FAILED"
  by (auto simp: verdict_iff findings_get_def dest!: map_of_SomeD intro!: image_eqI)

lemma get_incomplete_verdict:
  "findings_get F k = Some f \<Longrightarrow> f_incomplete f \<Longrightarrow> badness (verdict F inc) \<ge> 2"
proof -
  assume "findings_get F k = Some f" "f_incomplete f"
  then have "True \<in> f_incomplete ` set (findings_all F)"
    by (force simp: findings_get_def dest: map_of_SomeD)
  then show ?thesis by (simp add: badness_verdict del: set_findings_all)
qed

lemma add_FAIL_verdict: "ev_severity e = FAIL \<Longrightarrow> verdict (findings_add now e F) inc = FAILED"
  by (rule get_FAIL_verdict [of _ "ev_key e" "add_finding now e F"])
    (simp_all add: get_add max_absorb2 split: option.split)

lemma add_incomplete_verdict: "ev_incomplete e \<Longrightarrow> badness (verdict (findings_add now e F) inc) \<ge> 2"
  by (rule get_incomplete_verdict [of _ "ev_key e" "add_finding now e F"])
    (simp_all add: get_add split: option.split)

section \<open>Evidence survives resets\<close>

lemma severity_of_str [simp]: "severity_of (severity_str s) = Some s"
  by (cases s) (simp_all add: severity_of_def)

lemma str_list_map [simp]: "str_list (map PStr xs) = Some xs"
  by (induction xs) simp_all

lemma finding_roundtrip [simp]: "finding_of_raw (PDict (to_dict f)) = Some f"
  by (simp add: finding_of_raw_def to_dict_def finding_fields_def str_field_def dict_get_def)

definition save_data :: "findings \<Rightarrow> pyval list" where
  "save_data F = map (\<lambda>kf. PDict (to_dict (snd kf))) (fs_items F)"

lemma load_raw_saved_aux:
  "distinct (map fst items) \<Longrightarrow> \<forall>(k, f) \<in> set items. f_key f = k \<Longrightarrow>
   fst ` set acc \<inter> fst ` set items = {} \<Longrightarrow>
   fold (\<lambda>raw items. case finding_of_raw raw of None \<Rightarrow> items | Some f \<Rightarrow> AList.update (f_key f) f items)
     (map (\<lambda>kf. PDict (to_dict (snd kf))) items) acc = acc @ items"
proof (induction items arbitrary: acc)
  case (Cons kf items)
  obtain k f where kf: "kf = (k, f)" by force
  with Cons.prems have "map_of acc k = None" "f_key f = k" by (auto simp: map_of_eq_None_iff)
  then have "AList.update (f_key f) f acc = acc @ [kf]" using kf by (simp add: update_new)
  with Cons kf show ?case by auto
qed simp

lemma load_raw_saved: "findings_ok F \<Longrightarrow> load_raw (save_data F) = fs_items F"
  unfolding load_raw_def save_data_def
  by (subst load_raw_saved_aux) (auto simp: findings_ok_def)

text \<open>The store's file is laid out as its sequence number says.\<close>

definition disk_ok :: "findings \<Rightarrow> bool" where
  "disk_ok F \<longleftrightarrow> (case fs_disk F of None \<Rightarrow> True | Some d \<Rightarrow> rot_bounded (fs_path F) d (fs_seq F))"

text \<open>The file holds exactly the current findings.\<close>

definition saved :: "findings \<Rightarrow> pyval list disk \<Rightarrow> bool" where
  "saved F d \<longleftrightarrow> fs_disk F = Some d \<and> rot_read (fs_path F) d = (Some (save_data F), fs_seq F)"

lemma save_data_cong: "fs_items F = fs_items G \<Longrightarrow> save_data F = save_data G"
  by (simp add: save_data_def)

lemma flush_saves:
  assumes "fs_disk F = Some d" "writable d" "disk_ok F" "fs_dirty F \<or> force"
  obtains d' where "saved (findings_flush force F) d'" "disk_ok (findings_flush force F)" "writable d'"
proof -
  from assms(2) obtain d' where w: "write_rotating d (fs_path F) (save_data F) (fs_seq F + 1) = Inr d'"
    and w': "writable d'"
    by (auto simp: write_rotating_put put_slot_def)
  have b: "rot_bounded (fs_path F) d (fs_seq F)" using assms(1,3) by (simp add: disk_ok_def)
  have f: "findings_flush force F = F\<lparr>fs_dirty := False, fs_seq := fs_seq F + 1, fs_disk := Some d'\<rparr>"
    using assms(1,4) w by (simp add: findings_flush_def save_data_def Let_def)
  have "saved (findings_flush force F) d'"
    using rot.load_save [OF b w] unfolding f saved_def by (simp add: save_data_def)
  moreover have "disk_ok (findings_flush force F)"
    using rot.bounded_save [OF b w] unfolding f disk_ok_def by simp
  ultimately show ?thesis using that w' by blast
qed

lemma saved_reload:
  assumes "saved F d" "findings_ok F"
  shows "fs_items (findings_init (fs_path F) d) = fs_items F"
  using assms load_raw_saved [OF assms(2)]
  by (auto simp: saved_def rot_read_eq findings_init_def Let_def split: prod.split)

lemma verdict_cong: "fs_items F = fs_items G \<Longrightarrow> verdict F inc = verdict G inc"
  by (simp add: verdict_def findings_counts_def findings_all_def)

lemma add_urgent:
  "findings_get F (ev_key e) = None \<or> ev_severity e = FAIL \<Longrightarrow>
   \<exists>F1. findings_add now e F = findings_flush False F1 \<and> fs_disk F1 = fs_disk F \<and> fs_dirty F1 \<and>
     fs_path F1 = fs_path F \<and> fs_seq F1 = fs_seq F"
  by (auto simp: findings_add_def findings_get_def Let_def)

lemma add_urgent_saved:
  assumes "findings_get F (ev_key e) = None \<or> ev_severity e = FAIL"
    and "fs_disk F = Some d" "writable d" "disk_ok F"
  obtains d' where "saved (findings_add now e F) d'" "disk_ok (findings_add now e F)" "writable d'"
proof -
  from add_urgent [OF assms(1)] obtain F1 where F1: "findings_add now e F = findings_flush False F1"
    "fs_disk F1 = fs_disk F" "fs_dirty F1" "fs_path F1 = fs_path F" "fs_seq F1 = fs_seq F" by blast
  have "disk_ok F1" using assms(2,4) F1 by (simp add: disk_ok_def)
  with flush_saves [of F1 d False] F1 assms(2,3) that show ?thesis by metis
qed

text \<open>C27: a new finding, and any event of severity FAIL, is on disk when \<open>add\<close> returns: a store
  opened from that disk after a reset holds exactly the same findings and gives the same verdict.\<close>

theorem urgent_event_persisted:
  assumes "findings_ok F" "legal e" "disk_ok F" "fs_disk F = Some d" "writable d"
    and "findings_get F (ev_key e) = None \<or> ev_severity e = FAIL"
  shows "\<exists>d'. fs_disk (findings_add now e F) = Some d' \<and>
    fs_items (findings_init (fs_path F) d') = fs_items (findings_add now e F) \<and>
    verdict (findings_init (fs_path F) d') inc = verdict (findings_add now e F) inc"
proof -
  obtain d' where d': "saved (findings_add now e F) d'"
    by (rule add_urgent_saved [OF assms(6,4,5,3)])
  have "fs_items (findings_init (fs_path F) d') = fs_items (findings_add now e F)"
    using saved_reload [OF d'] assms(1,2) by (simp del: fs_items_add)
  then show ?thesis using d' verdict_cong unfolding saved_def by blast
qed

definition blank_disk :: "pyval list disk" where
  "blank_disk = \<lparr>files = (\<lambda>_. NoFile), writable = True\<rparr>"

lemma blank_store [simp]:
  "findings_ok (findings_init p blank_disk)" "disk_ok (findings_init p blank_disk)"
  "fs_disk (findings_init p blank_disk) = Some blank_disk" "writable blank_disk"
  "findings_get (findings_init p blank_disk) k = None"
  by (simp_all add: findings_init_def empty_findings_def blank_disk_def read_rotating_eq findings_ok_def
      disk_ok_def rot_bounded_def legacy_ok_def load_raw_def findings_get_def load_seq_def)

theorem urgent_event_persisted_witness:
  "\<exists>d'. fs_disk (findings_add ''t'' (event ''k'' FAIL ''Memory'' ''CE'') (findings_init ''findings.json'' blank_disk)) = Some d' \<and>
    verdict (findings_init ''findings.json'' d') False = FAILED"
proof -
  let ?F = "findings_init ''findings.json'' blank_disk" and ?e = "event ''k'' FAIL ''Memory'' ''CE''"
  have p: "fs_path ?F = ''findings.json''" by (simp add: findings_init_def split: prod.split)
  have "verdict (findings_add ''t'' ?e ?F) False = FAILED" by (rule add_FAIL_verdict) (simp add: event_def)
  with urgent_event_persisted [of ?F ?e blank_disk "''t''" False] show ?thesis
    unfolding p by auto
qed

text \<open>C28: once the findings are on disk, a power cut in the middle of any later save leaves a
  disk from which a store at least as bad is loaded; in particular a recorded FAIL is never lost
  to the reset it is meant to explain.\<close>

theorem power_cut_keeps_evidence:
  assumes "saved F d" "findings_ok F" "disk_ok F"
    and "list_all legal_op ops" and G: "G = fold apply_op ops F"
    and "rot_cut (fs_path F) d (save_data G) (fs_seq F + 1) d'"
  shows "findings_le F (findings_init (fs_path F) d') \<and>
    badness (verdict F inc) \<le> badness (verdict (findings_init (fs_path F) d') inc)"
proof -
  let ?H = "findings_init (fs_path F) d'"
  have b: "rot_bounded (fs_path F) d (fs_seq F)" using assms(1,3) by (simp add: disk_ok_def saved_def)
  have r: "rot_read (fs_path F) d = (Some (save_data F), fs_seq F)" using assms(1) by (simp add: saved_def)
  have "fst (rot_read (fs_path F) d') \<in> {Some (save_data F), Some (save_data G)}"
    using rot.load_cut [OF b r assms(6)] by auto
  moreover have "findings_ok G" unfolding G by (rule store_log.run_good [OF assms(4,2)])
  ultimately have "fs_items ?H = fs_items F \<or> fs_items ?H = fs_items G"
    using load_raw_saved [of F] load_raw_saved [of G] assms(2)
    by (auto simp: rot_read_eq findings_init_def Let_def split: prod.splits)
  moreover have "findings_le F G" unfolding G by (rule store_log.run_le [OF assms(4)])
  ultimately have "findings_le F ?H" by (auto simp: findings_le_def findings_get_def)
  with verdict_mono [OF assms(2)] show ?thesis by blast
qed

theorem power_cut_keeps_evidence_witness:
  "\<exists>F d d'. saved F d \<and> verdict F False = FAILED \<and>
     rot_cut (fs_path F) d (save_data F) (fs_seq F + 1) d' \<and>
     badness (verdict F False) \<le> badness (verdict (findings_init (fs_path F) d') False)"
proof -
  let ?S = "findings_init ''findings.json'' blank_disk" and ?e = "event ''k'' FAIL ''Memory'' ''UE''"
  let ?F = "findings_add ''t'' ?e ?S"
  have u: "findings_get ?S (ev_key ?e) = None \<or> ev_severity ?e = FAIL" by simp
  obtain d where d: "saved ?F d" "disk_ok ?F"
    using add_urgent_saved [OF u blank_store(3,4,2), of "''t''"] by blast
  have ok: "findings_ok ?F" by (simp del: fs_items_add)
  have v: "verdict ?F False = FAILED" by (rule add_FAIL_verdict) (simp add: event_def)
  let ?p = "slot_path (fs_path ?F) (fs_seq ?F + 1)"
  let ?d' = "d\<lparr>files := (files d)(tmp_path ?p := BadFile, ?p := BadFile)\<rparr>"
  have c: "rot_cut (fs_path ?F) d (save_data ?F) (fs_seq ?F + 1) ?d'"
    unfolding rot_cut_def by (rule power_cut.during_rename) simp
  have "findings_le ?F (findings_init (fs_path ?F) ?d') \<and>
      badness (verdict ?F False) \<le> badness (verdict (findings_init (fs_path ?F) ?d') False)"
    by (rule power_cut_keeps_evidence [of ?F d "[]" ?F ?d' False, OF d(1) ok d(2) _ _ c]) simp_all
  with d(1) v c show ?thesis by blast
qed

end
