(* ===== verification/Session.thy ===== *)
theory Session
  imports UtilText Config Findings
begin

text \<open>
  Models \<open>session.py\<close>: the persisted test session, its discovery at start, the classification
  of a restart (orchestrator restart, planned reboot, unexpected reset) and the saves.  The
  session's \<open>state\<close> dictionary is a record with the fields that the program writes; JSON is the
  identity on it.  Clock readings, the kernel's boot id and the identity of the machine are
  arguments.
\<close>

section \<open>The persisted state\<close>

datatype phase_status = P_pending | P_running | P_done | P_warn | P_failed | P_error | P_aborted
  | P_interrupted | P_skipped

fun phase_status_str :: "phase_status \<Rightarrow> string" where
  "phase_status_str P_pending = ''pending''"
| "phase_status_str P_running = ''running''"
| "phase_status_str P_done = ''done''"
| "phase_status_str P_warn = ''warn''"
| "phase_status_str P_failed = ''failed''"
| "phase_status_str P_error = ''error''"
| "phase_status_str P_aborted = ''aborted''"
| "phase_status_str P_interrupted = ''interrupted''"
| "phase_status_str P_skipped = ''skipped''"

record phase_state =
  ps_status :: phase_status
  ps_started :: string
  ps_finished :: string
  ps_elapsed :: int
  ps_result :: string

definition pending_state :: phase_state where
  "pending_state = \<lparr>ps_status = P_pending, ps_started = [], ps_finished = [], ps_elapsed = 0, ps_result = []\<rparr>"

datatype session_status = S_running | S_complete | S_aborted

record boot =
  bt_boot_id :: string
  bt_started_at :: string
  bt_reason :: string

record planned =
  pr_cycle :: int
  pr_requested_epoch :: rat
  pr_requested_at :: string

record telemetry =
  te_time :: string
  te_uptime :: int
  te_phase :: string
  te_cpu_temp :: "pyfloat option"
  te_drive_temp :: "pyfloat option"
  te_board_temp :: "pyfloat option"
  te_load1 :: rat
  te_mem_available_mib :: int

record incident =
  in_type :: string
  in_detected_at :: string
  in_running_phase :: "string option"
  in_last_heartbeat :: string
  in_last_telemetry :: "telemetry option"

text \<open>A kernel counter value: one number, the pair of EDAC counts, or the statistics of a NIC.\<close>

datatype counter = Count int | Pair int int | Stats "(string, int) dict"

type_synonym counters = "(string, counter) dict"

datatype scan_mode = M_read | M_write_verify

record scan_entry =
  sc_name :: string
  sc_model :: string
  sc_size :: int
  sc_offset :: int
  sc_done :: bool
  sc_mode :: scan_mode
  sc_incomplete :: bool

record selftest =
  st_kind :: string
  st_started :: bool
  st_boot_id :: string
  st_status :: string
  st_observed_running :: bool

record smart_base =
  sb_label :: string
  sb_metrics :: "(string, int) dict"
  sb_solid_state :: bool
  sb_selftest_log :: pyval
  sb_serial :: pyval

record pcie_link =
  ln_name :: string
  ln_cap_speed :: pyfloat
  ln_cap_width :: int
  ln_sta_speed :: pyfloat
  ln_sta_width :: int
  ln_bridge :: bool

record snapshot =
  sn_cpus :: int
  sn_memory_mib :: int
  sn_dimms :: "string list"
  sn_disks :: "string list"
  sn_nics :: "string list"

record state =
  st_session :: string
  st_identity :: "(string, string) dict"
  st_run_status :: session_status
  st_profile :: string
  st_hours :: pyfloat
  st_destructive :: string
  st_options :: options
  st_started_at :: string
  st_finished_at :: "string option"
  st_boots :: "boot list"
  st_unexpected_reboots :: int
  st_incidents :: "incident list"
  st_plan :: "plan_item list"
  st_phases :: "(string, phase_state) dict"
  st_counters :: "(string, counters) dict"
  st_sel_hashes :: "string list option"
  st_smart :: "(string, smart_base) dict"
  st_taint :: "int option"
  st_pcie_links :: "(string, pcie_link) dict"
  st_disk_scans :: "(string, scan_entry) dict"
  st_selftests :: "(string, selftest) dict"
  st_last_heartbeat :: string
  st_telemetry :: "telemetry option"
  st_telemetry_peaks :: "(string, pyfloat) dict"
  st_planned_reboot :: "planned option"
  st_reboot_cycles_done :: int
  st_last_reboot_seconds :: "int option"
  st_powercycle_baseline :: "snapshot option"
  st_destructive_disks :: "string list option"
  st_destructive_identities :: "(string, int) dict"
  st_disk_tests_finished :: bool
  st_abort_reason :: "string option"

record clock =
  now_iso :: string
  epoch :: rat           \<comment> \<open>\<open>time.time()\<close>\<close>

text \<open>
  The session store on the log partition: the state slots by path, the directories under
  \<open>sessions\<close> and the active pointers (the session name each names, by path).
\<close>

record session_fs =
  fs_states :: "state disk"
  fs_dirs :: "string list"
  fs_active :: "string disk"

record previous_state =
  pv_last_heartbeat :: string
  pv_telemetry :: "telemetry option"
  pv_running_phase :: "string option"

record session =
  s_base :: string
  s_dir :: string
  s_state :: state
  s_seq :: int
  s_fs :: session_fs
  s_resumed :: bool
  s_unexpected_reboot :: bool
  s_orchestrator_restart :: bool
  s_planned_reboot :: bool
  s_previous_state :: "previous_state option"

section \<open>Identity of the machine\<close>

definition BOGUS_SERIALS :: "string list" where
  "BOGUS_SERIALS = [[], ''none'', ''n/a'', ''na'', ''not specified'', ''not applicable'',
     ''to be filled by o.e.m.'', ''default string'', ''system serial number'', ''chassis serial number'',
     ''base board serial number'', ''0'', ''00000000'', ''0123456789'', ''123456789'', ''1234567890'',
     ''serial'', ''invalid'', ''empty'', ''unknown'', ''o.e.m.'', ''oem'']"

definition dmi :: "sys \<Rightarrow> string \<Rightarrow> string" where
  "dmi sy key = (let value = strip (out sy [''dmidecode'', ''-s'', key]) in
     if value = [] then [] else
       (case filter (\<lambda>l. \<not> startswith l ''#'') (splitlines value) of [] \<Rightarrow> [] | l # _ \<Rightarrow> strip l))"

definition clean :: "string \<Rightarrow> string" where
  "clean value = (if py_lower (strip value) \<in> set BOGUS_SERIALS then [] else strip value)"

definition iface_of :: "string \<Rightarrow> string" where
  "iface_of path = last (butlast (split_on (CHR ''/'') path))"

definition first_mac :: "sys \<Rightarrow> string" where
  "first_mac sy = (case filter (\<lambda>mac. mac \<noteq> [] \<and> mac \<noteq> ''00:00:00:00:00:00'')
       (map (\<lambda>path. strip (read_file sy (''/sys/class/net/'' @ iface_of path @ ''/address'')))
          (sort (glob sy ''/sys/class/net/*/device''))) of [] \<Rightarrow> [] | mac # _ \<Rightarrow> mac)"

definition or_else :: "string \<Rightarrow> string \<Rightarrow> string" where
  "or_else a b = (if a = [] then b else a)"

text \<open>\<open>sha1\<close> is \<open>hashlib.sha1(...).hexdigest()\<close>.\<close>

definition id_basis :: "(string, string) dict \<Rightarrow> string" where
  "id_basis ident = (let g = (\<lambda>k. dict_get ident k []) in
     if g ''system_uuid'' \<noteq> [] then ''uuid:'' @ g ''system_uuid''
     else if g ''system_serial'' \<noteq> [] then ''serial:'' @ g ''system_serial''
     else if g ''board_serial'' \<noteq> [] then ''board:'' @ g ''board_serial''
     else ''mac:'' @ g ''mac'')"

definition machine_identity :: "(string \<Rightarrow> string) \<Rightarrow> sys \<Rightarrow> (string, string) dict" where
  "machine_identity sha1 sy =
    (let ident = [(''system_manufacturer'', dmi sy ''system-manufacturer''),
                  (''system_product'', dmi sy ''system-product-name''),
                  (''system_serial'', clean (dmi sy ''system-serial-number'')),
                  (''system_uuid'', clean (dmi sy ''system-uuid'')),
                  (''board_manufacturer'', dmi sy ''baseboard-manufacturer''),
                  (''board_product'', dmi sy ''baseboard-product-name''),
                  (''board_serial'', clean (dmi sy ''baseboard-serial-number'')),
                  (''chassis_serial'', clean (dmi sy ''chassis-serial-number'')),
                  (''bios_vendor'', dmi sy ''bios-vendor''),
                  (''bios_version'', dmi sy ''bios-version''),
                  (''bios_date'', dmi sy ''bios-release-date''),
                  (''mac'', first_mac sy)];
         g = (\<lambda>k. dict_get ident k []);
         mid = take 12 (sha1 (id_basis ident))
     in ident @ [(''machine_id'', mid),
          (''display_serial'', or_else (g ''system_serial'') (or_else (g ''board_serial'')
             (or_else (g ''chassis_serial'') (or_else (remove_char (CHR '':'') (g ''mac'')) mid))))])"

section \<open>Paths and saving\<close>

definition sessions_dir :: "string \<Rightarrow> string" where
  "sessions_dir base = path_join base ''sessions''"

definition state_file :: "string \<Rightarrow> string" where
  "state_file dir = path_join dir ''state.json''"

definition active_pointer :: "string \<Rightarrow> string \<Rightarrow> string" where
  "active_pointer base machine_id = path_join (path_join base ''active'') (machine_id @ ''.json'')"

text \<open>
  \<open>save\<close>: an \<open>OSError\<close> is logged and dropped.  The retry on \<open>RuntimeError\<close> (a dictionary
  changed by another thread during serialization) does not arise on values.
\<close>

definition session_save :: "session \<Rightarrow> session" where
  "session_save s = (let seq = s_seq s + 1 in
     case write_rotating (fs_states (s_fs s)) (state_file (s_dir s)) (s_state s) seq of
       Inl _ \<Rightarrow> s\<lparr>s_seq := seq\<rparr>
     | Inr d \<Rightarrow> s\<lparr>s_seq := seq, s_fs := (s_fs s)\<lparr>fs_states := d\<rparr>\<rparr>)"

definition upd_state :: "(state \<Rightarrow> state) \<Rightarrow> session \<Rightarrow> session" where
  "upd_state f s = s\<lparr>s_state := f (s_state s)\<rparr>"

text \<open>\<open>update(**kwargs)\<close>: the new values of the named fields are the function \<open>f\<close>.\<close>

definition session_update :: "(state \<Rightarrow> state) \<Rightarrow> session \<Rightarrow> session" where
  "session_update f s = session_save (upd_state f s)"

definition phase_state_of :: "string \<Rightarrow> session \<Rightarrow> phase_state \<times> session" where
  "phase_state_of name s = (dict_get (st_phases (s_state s)) name pending_state,
     upd_state (\<lambda>st. st\<lparr>st_phases := dict_setdefault (st_phases st) name pending_state\<rparr>) s)"

definition set_phase :: "string \<Rightarrow> (phase_state \<Rightarrow> phase_state) \<Rightarrow> session \<Rightarrow> session" where
  "set_phase name f s = session_save
     (upd_state (\<lambda>st. st\<lparr>st_phases := AList.update name (f (dict_get (st_phases st) name pending_state)) (st_phases st)\<rparr>) s)"

text \<open>
  \<open>per_boot_counters(group)\<close> returns a dictionary that the monitor then mutates in place:
  \<open>counters_of\<close> reads it and \<open>put_counter\<close> is \<open>seen[key] = value\<close>.
\<close>

definition counter_key :: "string \<Rightarrow> string \<Rightarrow> string" where
  "counter_key boot_id grp = boot_id @ '':'' @ grp"

definition counters_of :: "string \<Rightarrow> string \<Rightarrow> session \<Rightarrow> counters" where
  "counters_of boot_id grp s = dict_get (st_counters (s_state s)) (counter_key boot_id grp) []"

definition put_counter :: "string \<Rightarrow> string \<Rightarrow> string \<Rightarrow> counter \<Rightarrow> session \<Rightarrow> session" where
  "put_counter boot_id grp key v s = upd_state (\<lambda>st. st\<lparr>st_counters :=
     AList.update (counter_key boot_id grp) (AList.update key v (counters_of boot_id grp s)) (st_counters st)\<rparr>) s"

text \<open>\<open>finish\<close>: the final status, then the active pointer is removed (\<open>OSError\<close> ignored).\<close>

definition unlink :: "string \<Rightarrow> 'a disk \<Rightarrow> 'a disk" where
  "unlink path d = (if writable d then d\<lparr>files := (files d)(path := NoFile)\<rparr> else d)"

definition finish :: "session_status \<Rightarrow> clock \<Rightarrow> session \<Rightarrow> session" where
  "finish status clk s =
    (let s1 = session_save (upd_state (\<lambda>st. st\<lparr>st_run_status := status, st_finished_at := Some (now_iso clk)\<rparr>) s)
     in s1\<lparr>s_fs := (s_fs s1)\<lparr>fs_active := unlink
          (active_pointer (s_base s1) (dict_get (st_identity (s_state s1)) ''machine_id'' [])) (fs_active (s_fs s1))\<rparr>\<rparr>)"

section \<open>Finding and resuming a session\<close>

definition candidates :: "session_fs \<Rightarrow> string \<Rightarrow> string \<Rightarrow> string list" where
  "candidates fs base machine_id =
    (let ref = (case file_content (files (fs_active fs) (active_pointer base machine_id)) of None \<Rightarrow> [] | Some n \<Rightarrow> n);
         c0 = (if ref \<noteq> [] then [path_join (sessions_dir base) ref] else [])
     in fold (\<lambda>name c. let path = path_join (sessions_dir base) name in if path \<notin> set c then c @ [path] else c)
          (rev (sort (fs_dirs fs))) c0)"

text \<open>\<open>isinstance(state, dict)\<close>: a slot that holds a list is not a session.\<close>

definition state_at :: "session_fs \<Rightarrow> string \<Rightarrow> (state \<times> int) option" where
  "state_at fs dir = (case read_rotating (fs_states fs) (state_file dir) of
     (DictFile st _, seq) \<Rightarrow> Some (st, seq) | _ \<Rightarrow> None)"

definition is_running_for :: "string \<Rightarrow> state \<Rightarrow> bool" where
  "is_running_for machine_id st \<longleftrightarrow> st_run_status st = S_running \<and>
     map_of (st_identity st) ''machine_id'' = Some machine_id"

fun first_running :: "session_fs \<Rightarrow> string \<Rightarrow> string list \<Rightarrow> (string \<times> state \<times> int) option" where
  "first_running fs machine_id [] = None"
| "first_running fs machine_id (dir # ds) = (case state_at fs dir of
     Some (st, seq) \<Rightarrow> if is_running_for machine_id st then Some (dir, st, seq) else first_running fs machine_id ds
   | None \<Rightarrow> first_running fs machine_id ds)"

definition find_running :: "session_fs \<Rightarrow> string \<Rightarrow> string \<Rightarrow> (string \<times> state \<times> int) option" where
  "find_running fs base machine_id = first_running fs machine_id (take 50 (candidates fs base machine_id))"

definition running_phase :: "state \<Rightarrow> string option" where
  "running_phase st = (case filter (\<lambda>(n, p). ps_status p = P_running) (st_phases st) of
     [] \<Rightarrow> None | (n, _) # _ \<Rightarrow> Some n)"

definition last_boot :: "state \<Rightarrow> string option" where
  "last_boot st = (if st_boots st = [] then None else Some (bt_boot_id (last (st_boots st))))"

definition add_boot :: "string \<Rightarrow> clock \<Rightarrow> string \<Rightarrow> state \<Rightarrow> state" where
  "add_boot boot_id clk reason st = st\<lparr>st_boots := st_boots st @
     [\<lparr>bt_boot_id = boot_id, bt_started_at = now_iso clk, bt_reason = reason\<rparr>]\<rparr>"

definition resume :: "string \<Rightarrow> clock \<Rightarrow> session \<Rightarrow> session" where
  "resume current clk s =
    (let st = s_state s;
         s1 = s\<lparr>s_resumed := True,
                s_previous_state := Some \<lparr>pv_last_heartbeat = st_last_heartbeat st, pv_telemetry = st_telemetry st,
                                         pv_running_phase = running_phase st\<rparr>,
                s_state := st\<lparr>st_planned_reboot := None\<rparr>\<rparr>
     in session_save
       (if last_boot st = Some current then s1\<lparr>s_orchestrator_restart := True\<rparr>
        else (case st_planned_reboot st of
          Some p \<Rightarrow>
            upd_state (\<lambda>st. add_boot current clk (''planned reboot #'' @ int_str (pr_cycle p))
              (st\<lparr>st_reboot_cycles_done := pr_cycle p,
                 st_last_reboot_seconds := (if pr_requested_epoch p \<noteq> 0
                   then Some (max 0 (trunc (fl (epoch clk - pr_requested_epoch p)))) else st_last_reboot_seconds st)\<rparr>))
              (s1\<lparr>s_planned_reboot := True\<rparr>)
        | None \<Rightarrow>
            upd_state (\<lambda>st. add_boot current clk ''unexpected reboot''
              (st\<lparr>st_unexpected_reboots := st_unexpected_reboots st + 1\<rparr>))
              (s1\<lparr>s_unexpected_reboot := True\<rparr>))))"

definition new_state :: "string \<Rightarrow> string \<Rightarrow> clock \<Rightarrow> (string, string) dict \<Rightarrow> options \<Rightarrow> plan_item list \<Rightarrow> state" where
  "new_state name boot_id clk identity opts plan = \<lparr>
     st_session = name, st_identity = identity, st_run_status = S_running, st_profile = profile opts,
     st_hours = total_hours opts, st_destructive = destructive opts, st_options = opts,
     st_started_at = now_iso clk, st_finished_at = None,
     st_boots = [\<lparr>bt_boot_id = boot_id, bt_started_at = now_iso clk, bt_reason = ''start''\<rparr>],
     st_unexpected_reboots = 0, st_incidents = [], st_plan = plan,
     st_phases = dict_of_pairs (map (\<lambda>p. (pl_name p, pending_state)) plan), st_counters = [],
     st_sel_hashes = None, st_smart = [], st_taint = None, st_pcie_links = [],
     st_disk_scans = [], st_selftests = [], st_last_heartbeat = now_iso clk, st_telemetry = None,
     st_telemetry_peaks = [], st_planned_reboot = None, st_reboot_cycles_done = 0,
     st_last_reboot_seconds = None, st_powercycle_baseline = None, st_destructive_disks = None,
     st_destructive_identities = [], st_disk_tests_finished = False, st_abort_reason = None\<rparr>"

definition make_session :: "string \<Rightarrow> string \<Rightarrow> state \<Rightarrow> int \<Rightarrow> session_fs \<Rightarrow> session" where
  "make_session base dir st seq fs = \<lparr>s_base = base, s_dir = dir, s_state = st, s_seq = seq, s_fs = fs,
     s_resumed = False, s_unexpected_reboot = False, s_orchestrator_restart = False,
     s_planned_reboot = False, s_previous_state = None\<rparr>"

text \<open>\<open>stamp\<close> is the local time as \<open>%Y%m%d-%H%M%S\<close>.\<close>

definition session_open ::
  "string \<Rightarrow> clock \<Rightarrow> string \<Rightarrow> string \<Rightarrow> (string, string) dict \<Rightarrow> options \<Rightarrow> plan_item list \<Rightarrow> session_fs \<Rightarrow> exn + session" where
  "session_open boot_id clk stamp storage_root identity opts plan fs =
    (let base = path_join storage_root ''pccheck''; machine_id = dict_get identity ''machine_id'' []
     in case find_running fs base machine_id of
       Some (dir, st, seq) \<Rightarrow> Inr (resume boot_id clk (make_session base dir st seq fs))
     | None \<Rightarrow>
         let name = stamp @ ''_'' @ safe_name (dict_get identity ''display_serial'' []);
             dir = path_join (sessions_dir base) name;
             fs1 = fs\<lparr>fs_dirs := (if name \<in> set (fs_dirs fs) then fs_dirs fs else fs_dirs fs @ [name])\<rparr>;
             s = session_save (make_session base dir (new_state name boot_id clk identity opts plan) 0 fs1)
         in ebind (atomic_write (fs_active (s_fs s)) (active_pointer base machine_id) (DictFile name None)) (\<lambda>a.
            Inr (s\<lparr>s_fs := (s_fs s)\<lparr>fs_active := a\<rparr>\<rparr>)))"


section \<open>Saving\<close>

text \<open>The state slots hold the session's state as its newest save.\<close>

definition session_saved :: "session \<Rightarrow> bool" where
  "session_saved s \<longleftrightarrow> rot_read (state_file (s_dir s)) (fs_states (s_fs s)) = (Some (s_state s), s_seq s)"

definition session_bounded :: "session \<Rightarrow> bool" where
  "session_bounded s \<longleftrightarrow> rot_bounded (state_file (s_dir s)) (fs_states (s_fs s)) (s_seq s)"

definition can_save :: "session \<Rightarrow> bool" where
  "can_save s \<longleftrightarrow> writable (fs_states (s_fs s)) \<and> session_bounded s"

lemma save_frame [simp]:
  "s_state (session_save s) = s_state s" "s_dir (session_save s) = s_dir s" "s_base (session_save s) = s_base s"
  "s_seq (session_save s) = s_seq s + 1" "s_resumed (session_save s) = s_resumed s"
  "s_unexpected_reboot (session_save s) = s_unexpected_reboot s"
  "s_orchestrator_restart (session_save s) = s_orchestrator_restart s"
  "s_planned_reboot (session_save s) = s_planned_reboot s"
  "s_previous_state (session_save s) = s_previous_state s"
  "fs_active (s_fs (session_save s)) = fs_active (s_fs s)" "fs_dirs (s_fs (session_save s)) = fs_dirs (s_fs s)"
  by (simp_all add: session_save_def Let_def split: sum.split)

lemma upd_state_frame [simp]:
  "s_state (upd_state f s) = f (s_state s)" "s_dir (upd_state f s) = s_dir s" "s_base (upd_state f s) = s_base s"
  "s_seq (upd_state f s) = s_seq s" "s_fs (upd_state f s) = s_fs s" "s_resumed (upd_state f s) = s_resumed s"
  "s_unexpected_reboot (upd_state f s) = s_unexpected_reboot s"
  "s_orchestrator_restart (upd_state f s) = s_orchestrator_restart s"
  "s_planned_reboot (upd_state f s) = s_planned_reboot s" "s_previous_state (upd_state f s) = s_previous_state s"
  by (simp_all add: upd_state_def)

lemma can_save_upd [simp]: "can_save (upd_state f s) = can_save s"
  by (simp add: can_save_def session_bounded_def)

lemma session_save_saved:
  assumes "can_save s" shows "session_saved (session_save s) \<and> can_save (session_save s)"
proof -
  let ?d = "fs_states (s_fs s)" and ?f = "state_file (s_dir s)"
  from assms obtain d' where w: "write_rotating ?d ?f (s_state s) (s_seq s + 1) = Inr d'" "writable d'"
    by (auto simp: can_save_def write_rotating_put put_slot_def)
  have b: "rot_bounded ?f ?d (s_seq s)" using assms by (simp add: can_save_def session_bounded_def)
  have e: "session_save s = s\<lparr>s_seq := s_seq s + 1, s_fs := (s_fs s)\<lparr>fs_states := d'\<rparr>\<rparr>"
    using w(1) by (simp add: session_save_def Let_def)
  show ?thesis
    using rot.load_save [OF b w(1)] rot.bounded_save [OF b w(1)] w(2)
    unfolding e session_saved_def can_save_def session_bounded_def by simp
qed

lemma session_update_saved:
  "can_save s \<Longrightarrow> session_saved (session_update f s) \<and> can_save (session_update f s)"
  unfolding session_update_def by (rule session_save_saved) simp

lemma set_phase_saved: "can_save s \<Longrightarrow> session_saved (set_phase n f s) \<and> can_save (set_phase n f s)"
  unfolding set_phase_def by (rule session_save_saved) simp

lemma state_at_read:
  assumes "rot_read (state_file dir) (fs_states fs) = (Some st, n)" "1 \<le> n"
  shows "state_at fs dir = Some (st, n)"
proof -
  obtain f m where r: "read_rotating (fs_states fs) (state_file dir) = (f, m)" by force
  have "load_seq f = Some m \<or> m = -1 \<and> f = NoFile"
    using r unfolding read_rotating_eq by (auto simp: pick_def split: option.splits if_splits)
  with assms r show ?thesis
    by (cases f) (auto simp: state_at_def rot_read_def load_seq_def split: option.splits)
qed

section \<open>Finding the unfinished session\<close>

lemma candidates_from:
  "\<exists>ys. fold (\<lambda>name c. let path = path_join b name in if path \<notin> set c then c @ [path] else c) ns c0 = c0 @ ys
     \<and> length ys \<le> length ns \<and> set (c0 @ ys) = set c0 \<union> path_join b ` set ns"
proof (induction ns arbitrary: c0)
  case (Cons n ns)
  let ?c1 = "if path_join b n \<notin> set c0 then c0 @ [path_join b n] else c0"
  obtain ys where "fold (\<lambda>name c. let path = path_join b name in if path \<notin> set c then c @ [path] else c) ns ?c1 = ?c1 @ ys"
    "length ys \<le> length ns" "set (?c1 @ ys) = set ?c1 \<union> path_join b ` set ns"
    using Cons [of ?c1] by blast
  then show ?case by (auto simp: Let_def split: if_splits intro!: exI [of _ "[path_join b n] @ ys"])
qed simp

lemma candidates_shape:
  "\<exists>c0 ys. candidates fs base mid = c0 @ ys \<and> length c0 \<le> 1 \<and> length ys \<le> length (fs_dirs fs) \<and>
     path_join (sessions_dir base) ` set (fs_dirs fs) \<subseteq> set (c0 @ ys)"
proof -
  let ?ref = "case file_content (files (fs_active fs) (active_pointer base mid)) of None \<Rightarrow> [] | Some n \<Rightarrow> n"
  let ?c0 = "if ?ref \<noteq> [] then [path_join (sessions_dir base) ?ref] else []"
  from candidates_from [of "sessions_dir base" "rev (sort (fs_dirs fs))" ?c0] obtain ys where
    ys: "candidates fs base mid = ?c0 @ ys" "length ys \<le> length (fs_dirs fs)"
    "set (?c0 @ ys) = set ?c0 \<union> path_join (sessions_dir base) ` set (fs_dirs fs)"
    unfolding candidates_def Let_def length_rev length_sort set_rev set_sort by metis
  have "length ?c0 \<le> 1" by simp
  with ys show ?thesis by (metis Un_upper2)
qed

lemma candidates_set:
  "path_join (sessions_dir base) ` set (fs_dirs fs) \<subseteq> set (candidates fs base mid)"
  "length (candidates fs base mid) \<le> Suc (length (fs_dirs fs))"
proof -
  obtain c0 ys where c: "candidates fs base mid = c0 @ ys" "length c0 \<le> 1" "length ys \<le> length (fs_dirs fs)"
    "path_join (sessions_dir base) ` set (fs_dirs fs) \<subseteq> set (c0 @ ys)"
    using candidates_shape by blast
  from c(4) show "path_join (sessions_dir base) ` set (fs_dirs fs) \<subseteq> set (candidates fs base mid)" unfolding c(1) .
  from c(2,3) show "length (candidates fs base mid) \<le> Suc (length (fs_dirs fs))" unfolding c(1) by simp
qed

lemma candidates_pointer:
  "file_content (files (fs_active fs) (active_pointer base mid)) = Some ref \<Longrightarrow> ref \<noteq> [] \<Longrightarrow>
   \<exists>ds. candidates fs base mid = path_join (sessions_dir base) ref # ds"
  using candidates_from [of "sessions_dir base" "rev (sort (fs_dirs fs))" "[path_join (sessions_dir base) ref]"]
  by (auto simp: candidates_def Let_def)

lemma first_running_Some:
  "first_running fs mid ds = Some (d, st, n) \<Longrightarrow> d \<in> set ds \<and> state_at fs d = Some (st, n) \<and> is_running_for mid st"
  by (induction ds) (auto split: option.splits if_splits)

lemma first_running_None:
  "first_running fs mid ds = None \<longleftrightarrow> (\<forall>d \<in> set ds. \<forall>st n. state_at fs d = Some (st, n) \<longrightarrow> \<not> is_running_for mid st)"
  by (induction ds) (auto split: option.splits)

lemma find_running_iff:
  "(case find_running fs base mid of
      Some (d, st, n) \<Rightarrow> state_at fs d = Some (st, n) \<and> is_running_for mid st
    | None \<Rightarrow> length (fs_dirs fs) \<le> 49 \<longrightarrow>
        (\<forall>name \<in> set (fs_dirs fs). \<forall>st n. state_at fs (path_join (sessions_dir base) name) = Some (st, n) \<longrightarrow>
          \<not> is_running_for mid st))"
proof (cases "find_running fs base mid")
  case None
  have "path_join (sessions_dir base) name \<in> set (take 50 (candidates fs base mid))"
    if "length (fs_dirs fs) \<le> 49" "name \<in> set (fs_dirs fs)" for name
    using candidates_set [where fs = fs and base = base and mid = mid] that by auto
  moreover have "\<forall>d \<in> set (take 50 (candidates fs base mid)). \<forall>st n. state_at fs d = Some (st, n) \<longrightarrow> \<not> is_running_for mid st"
    using None by (simp only: find_running_def first_running_None)
  ultimately show ?thesis using None by simp blast
next
  case (Some r)
  then show ?thesis by (cases r) (auto simp: find_running_def dest: first_running_Some)
qed

text \<open>The search for an unfinished session is sound and complete: what it returns is a saved
  session of this machine that is still running, and while at most 49 session directories exist
  none is missed, even when the active pointer is lost.\<close>

theorem find_running_spec:
  "(case find_running fs base mid of
      Some (d, st, n) \<Rightarrow> state_at fs d = Some (st, n) \<and> is_running_for mid st
    | None \<Rightarrow> length (fs_dirs fs) \<le> 49 \<longrightarrow>
        (\<forall>name \<in> set (fs_dirs fs). \<forall>st n. state_at fs (path_join (sessions_dir base) name) = Some (st, n) \<longrightarrow>
          \<not> is_running_for mid st))"
  by (rule find_running_iff)

section \<open>Classifying a restart\<close>

lemma resume_frame [simp]:
  "s_dir (resume b clk s) = s_dir s" "s_base (resume b clk s) = s_base s" "s_resumed (resume b clk s)"
  "st_run_status (s_state (resume b clk s)) = st_run_status (s_state s)"
  "st_identity (s_state (resume b clk s)) = st_identity (s_state s)"
  "st_plan (s_state (resume b clk s)) = st_plan (s_state s)"
  "st_phases (s_state (resume b clk s)) = st_phases (s_state s)"
  by (simp_all add: resume_def Let_def add_boot_def split: option.split)

lemma resume_cases:
  "let s = make_session base dir st seq fs; s' = resume current clk s; same = (last_boot st = Some current) in
     (s_orchestrator_restart s' \<longleftrightarrow> same) \<and>
     (s_planned_reboot s' \<longleftrightarrow> \<not> same \<and> st_planned_reboot st \<noteq> None) \<and>
     (s_unexpected_reboot s' \<longleftrightarrow> \<not> same \<and> st_planned_reboot st = None) \<and>
     st_unexpected_reboots (s_state s') = st_unexpected_reboots st + (if s_unexpected_reboot s' then 1 else 0) \<and>
     st_planned_reboot (s_state s') = None \<and> last_boot (s_state s') = Some current"
  by (auto simp: resume_def make_session_def add_boot_def last_boot_def Let_def split: option.splits)

text \<open>A restart is exactly one of three things, decided by the boot id and the planned-reboot
  marker; only an unexpected one raises the counter, the marker is always consumed, and the
  current boot becomes the last known one, so that the same boot is never counted twice.\<close>

theorem restart_classified:
  "let s = make_session base dir st seq fs; s' = resume current clk s; same = (last_boot st = Some current) in
     (s_orchestrator_restart s' \<longleftrightarrow> same) \<and>
     (s_planned_reboot s' \<longleftrightarrow> \<not> same \<and> st_planned_reboot st \<noteq> None) \<and>
     (s_unexpected_reboot s' \<longleftrightarrow> \<not> same \<and> st_planned_reboot st = None) \<and>
     st_unexpected_reboots (s_state s') = st_unexpected_reboots st + (if s_unexpected_reboot s' then 1 else 0) \<and>
     st_planned_reboot (s_state s') = None \<and> last_boot (s_state s') = Some current"
  by (rule resume_cases)

text \<open>The session is the one that the active pointer of its machine names.\<close>

definition pointed :: "session \<Rightarrow> bool" where
  "pointed s \<longleftrightarrow> (\<exists>mid ref. map_of (st_identity (s_state s)) ''machine_id'' = Some mid \<and> ref \<noteq> [] \<and>
     file_content (files (fs_active (s_fs s)) (active_pointer (s_base s) mid)) = Some ref \<and>
     s_dir s = path_join (sessions_dir (s_base s)) ref)"

lemma open_pointed:
  assumes "pointed s" "fs_active fs = fs_active (s_fs s)"
    and id: "map_of (st_identity (s_state s)) ''machine_id'' = Some mid" "map_of ident ''machine_id'' = Some mid"
    and "s_base s = path_join sroot ''pccheck''"
    and "state_at fs (s_dir s) = Some (st, n)" "is_running_for mid st"
  shows "session_open b clk stamp sroot ident opts plan fs = Inr (resume b clk (make_session (s_base s) (s_dir s) st n fs))"
proof -
  from assms(1) id(1) obtain ref where ref: "ref \<noteq> []" "s_dir s = path_join (sessions_dir (s_base s)) ref"
    "file_content (files (fs_active (s_fs s)) (active_pointer (s_base s) mid)) = Some ref"
    by (auto simp: pointed_def)
  then have "file_content (files (fs_active fs) (active_pointer (s_base s) mid)) = Some ref"
    using assms(2) by simp
  from candidates_pointer [OF this ref(1)] obtain ds where "candidates fs (s_base s) mid = s_dir s # ds"
    using ref(2) by auto
  then have "find_running fs (s_base s) mid = Some (s_dir s, st, n)"
    using assms(6,7) by (simp add: find_running_def)
  with assms(5) id(2) show ?thesis by (simp add: session_open_def Let_def dict_get_def)
qed

lemma resume_saved:
  assumes "can_save s"
  shows "session_saved (resume b clk s) \<and> can_save (resume b clk s)"
  unfolding resume_def Let_def using assms
  by (intro session_save_saved) (simp add: can_save_def session_bounded_def split: option.split)

lemma resume_counters: "counters_of b' grp (resume b clk s) = counters_of b' grp s"
  by (simp add: counters_of_def resume_def Let_def add_boot_def split: option.split)

lemma resume_seq: "s_seq (resume b clk s) = s_seq s + 1"
  by (simp add: resume_def Let_def split: option.split)

lemma rot_cut_writable: "rot_cut base d obj seq d' \<Longrightarrow> writable d' = writable d"
  by (erule rot_cut_put) (simp add: put_slot_def)

text \<open>After a completed save the next start finds the session with its values.\<close>

lemma reopen_saved:
  assumes "can_save s" "0 \<le> s_seq s" "pointed s" "s_base s = path_join sroot ''pccheck''"
    and "is_running_for mid (s_state s)" "map_of ident ''machine_id'' = Some mid"
  shows "session_open b clk stamp sroot ident opts plan (s_fs (session_save s))
    = Inr (resume b clk (make_session (s_base s) (s_dir s) (s_state s) (s_seq s + 1) (s_fs (session_save s))))"
proof -
  have "state_at (s_fs (session_save s)) (s_dir s) = Some (s_state s, s_seq s + 1)"
    using session_save_saved [OF assms(1)] assms(2) by (intro state_at_read) (simp_all add: session_saved_def)
  moreover have "map_of (st_identity (s_state s)) ''machine_id'' = Some mid" using assms(5) by (simp add: is_running_for_def)
  ultimately show ?thesis
    using open_pointed [of s "s_fs (session_save s)" mid ident sroot] assms(3-6) by simp
qed

text \<open>C29: a reset is never missed.  While a session is running, whatever save the machine was in the
  middle of when it went down, the next start on a different boot finds this session again and,
  without a planned-reboot marker, records exactly one more unexpected reboot.  On a storage that
  still takes writes the raised counter is on disk before the start returns: the state file of the
  session reads back as the session in memory, so a further reset does not lose it.\<close>

theorem reset_is_detected:
  assumes "session_saved s" "session_bounded s" "1 \<le> s_seq s" "pointed s" "s_base s = path_join sroot ''pccheck''"
    and run: "is_running_for mid (s_state s)" "is_running_for mid st2" "map_of ident ''machine_id'' = Some mid"
    and boots: "last_boot (s_state s) = Some b0" "last_boot st2 = Some b0" "b \<noteq> b0"
    and marker: "st_planned_reboot (s_state s) = None" "st_planned_reboot st2 = None"
    and cut: "rot_cut (state_file (s_dir s)) (fs_states (s_fs s)) st2 (s_seq s + 1) d"
  shows "\<exists>s' st. session_open b clk stamp sroot ident opts plan ((s_fs s)\<lparr>fs_states := d\<rparr>) = Inr s' \<and>
     s_dir s' = s_dir s \<and> s_unexpected_reboot s' \<and> st \<in> {s_state s, st2} \<and>
     st_unexpected_reboots (s_state s') = st_unexpected_reboots st + 1 \<and>
     (writable (fs_states (s_fs s)) \<longrightarrow> (\<exists>n. state_at (s_fs s') (s_dir s) = Some (s_state s', n)))"
proof -
  let ?fs = "(s_fs s)\<lparr>fs_states := d\<rparr>"
  have "rot_read (state_file (s_dir s)) d = (Some (s_state s), s_seq s) \<and> rot_bounded (state_file (s_dir s)) d (s_seq s) \<or>
      rot_read (state_file (s_dir s)) d = (Some st2, s_seq s + 1) \<and> rot_bounded (state_file (s_dir s)) d (s_seq s + 1)"
    using rot.load_cut [OF assms(2) [unfolded session_bounded_def] assms(1) [unfolded session_saved_def] cut] by blast
  then obtain st n where st: "rot_read (state_file (s_dir s)) d = (Some st, n)" "1 \<le> n" "st \<in> {s_state s, st2}"
    "rot_bounded (state_file (s_dir s)) d n"
    using assms(3) by fastforce
  let ?s = "make_session (s_base s) (s_dir s) st n ?fs"
  have "state_at ?fs (s_dir s) = Some (st, n)" using state_at_read [of "s_dir s" ?fs] st(1,2) by simp
  moreover have "is_running_for mid st" using st(3) run by auto
  moreover have "map_of (st_identity (s_state s)) ''machine_id'' = Some mid" using run(1) by (simp add: is_running_for_def)
  ultimately have "session_open b clk stamp sroot ident opts plan ?fs = Inr (resume b clk ?s)"
    using open_pointed [of s ?fs mid ident sroot st n] assms(4,5) run(3) by simp
  moreover have "s_dir (resume b clk ?s) = s_dir s" by (simp add: make_session_def)
  moreover have "last_boot st \<noteq> Some b" "st_planned_reboot st = None" using st(3) boots marker by auto
  then have "s_unexpected_reboot (resume b clk ?s)"
    "st_unexpected_reboots (s_state (resume b clk ?s)) = st_unexpected_reboots st + 1"
    using resume_cases [of "s_base s" "s_dir s" st n ?fs b clk] by (simp_all add: Let_def)
  moreover have "\<exists>n. state_at (s_fs (resume b clk ?s)) (s_dir s) = Some (s_state (resume b clk ?s), n)"
    if "writable (fs_states (s_fs s))"
  proof -
    have "can_save ?s"
      using that st(4) rot_cut_writable [OF cut] by (simp add: can_save_def session_bounded_def make_session_def)
    from resume_saved [OF this, of b clk] have "session_saved (resume b clk ?s)" by simp
    moreover have "1 \<le> s_seq (resume b clk ?s)" using st(2) by (simp add: resume_seq make_session_def)
    moreover have "s_dir (resume b clk ?s) = s_dir s" by (simp add: make_session_def)
    ultimately show ?thesis
      using state_at_read [of "s_dir s" "s_fs (resume b clk ?s)"] by (auto simp: session_saved_def)
  qed
  ultimately show ?thesis using st(3) by blast
qed

lemma unlink_active [simp]: "fs_states (s_fs (finish status clk s)) =
    fs_states (s_fs (session_save (upd_state (\<lambda>st. st\<lparr>st_run_status := status, st_finished_at := Some (now_iso clk)\<rparr>) s)))"
  by (simp add: finish_def Let_def)

text \<open>Once a session is finished, a later start never resumes it.\<close>

theorem finished_is_not_resumed:
  assumes "can_save s" "0 \<le> s_seq s" "status \<noteq> S_running"
  shows "map_option fst (find_running (s_fs (finish status clk s)) base mid) \<noteq> Some (s_dir s)"
proof
  assume "map_option fst (find_running (s_fs (finish status clk s)) base mid) = Some (s_dir s)"
  then obtain st n where f: "find_running (s_fs (finish status clk s)) base mid = Some (s_dir s, st, n)" by auto
  let ?s = "session_save (upd_state (\<lambda>st. st\<lparr>st_run_status := status, st_finished_at := Some (now_iso clk)\<rparr>) s)"
  have "session_saved ?s" using session_save_saved assms(1) by simp
  then have "state_at (s_fs (finish status clk s)) (s_dir s) = Some (s_state ?s, s_seq ?s)"
    using assms(2) by (intro state_at_read) (simp_all add: session_saved_def)
  moreover have "state_at (s_fs (finish status clk s)) (s_dir s) = Some (st, n)" "is_running_for mid st"
    using find_running_iff [of "s_fs (finish status clk s)" base mid] f by auto
  ultimately show False using assms(3) by (auto simp: is_running_for_def)
qed

text \<open>A first start on an empty log partition, for the witnesses.\<close>

definition empty_fs :: session_fs where
  "empty_fs = \<lparr>fs_states = \<lparr>files = \<lambda>_. NoFile, writable = True\<rparr>, fs_dirs = [],
     fs_active = \<lparr>files = \<lambda>_. NoFile, writable = True\<rparr>\<rparr>"

definition clock0 :: clock where
  "clock0 = \<lparr>now_iso = ''t'', epoch = 1000\<rparr>"

definition first_session :: session where
  "first_session = session_save (make_session ''/mnt/pccheck'' (path_join (sessions_dir ''/mnt/pccheck'') ''one'')
     (new_state ''one'' ''boot1'' clock0 [(''machine_id'', ''m'')] default_options []) 0
     (empty_fs\<lparr>fs_active := \<lparr>files = (\<lambda>_. NoFile)(active_pointer ''/mnt/pccheck'' ''m'' := DictFile ''one'' None), writable = True\<rparr>\<rparr>))"

lemma first_session [simp]:
  "session_saved first_session" "can_save first_session" "s_seq first_session = 1" "pointed first_session"
  "s_base first_session = path_join ''/mnt'' ''pccheck''" "is_running_for ''m'' (s_state first_session)"
  "last_boot (s_state first_session) = Some ''boot1''" "st_planned_reboot (s_state first_session) = None"
  "st_unexpected_reboots (s_state first_session) = 0" "st_disk_tests_finished (s_state first_session) = False"
proof -
  let ?s = "make_session ''/mnt/pccheck'' (path_join (sessions_dir ''/mnt/pccheck'') ''one'')
     (new_state ''one'' ''boot1'' clock0 [(''machine_id'', ''m'')] default_options []) 0
     (empty_fs\<lparr>fs_active := \<lparr>files = (\<lambda>_. NoFile)(active_pointer ''/mnt/pccheck'' ''m'' := DictFile ''one'' None), writable = True\<rparr>\<rparr>)"
  have "can_save ?s"
    by (simp add: can_save_def session_bounded_def make_session_def empty_fs_def rot_bounded_def legacy_ok_def load_seq_def)
  from session_save_saved [OF this] show "session_saved first_session" "can_save first_session"
    by (simp_all add: first_session_def)
  show "pointed first_session"
    by (auto simp: first_session_def pointed_def make_session_def new_state_def intro!: exI [of _ "''one''"])
qed (simp_all add: first_session_def make_session_def new_state_def is_running_for_def last_boot_def path_join_def clock0_def)

theorem reset_is_detected_witness:
  "\<exists>d s'. rot_cut (state_file (s_dir first_session)) (fs_states (s_fs first_session)) (s_state first_session) 2 d \<and>
     session_open ''boot2'' clock0 ''stamp'' ''/mnt'' [(''machine_id'', ''m'')] default_options []
       ((s_fs first_session)\<lparr>fs_states := d\<rparr>) = Inr s' \<and>
     s_unexpected_reboot s' \<and> st_unexpected_reboots (s_state s') = 1 \<and>
     (\<exists>n. state_at (s_fs s') (s_dir first_session) = Some (s_state s', n))"
proof -
  define p where "p = slot_path (state_file (s_dir first_session)) 2"
  define d where "d = (fs_states (s_fs first_session))\<lparr>files := (files (fs_states (s_fs first_session)))
    (tmp_path p := BadFile, p := BadFile)\<rparr>"
  have c: "rot_cut (state_file (s_dir first_session)) (fs_states (s_fs first_session)) (s_state first_session) 2 d"
    unfolding rot_cut_def d_def p_def
    using power_cut.during_rename [of BadFile "fs_states (s_fs first_session)" p "DictFile (s_state first_session) (Some 2)" BadFile]
    by (simp add: p_def)
  have "\<exists>s' st. session_open ''boot2'' clock0 ''stamp'' ''/mnt'' [(''machine_id'', ''m'')] default_options []
       ((s_fs first_session)\<lparr>fs_states := d\<rparr>) = Inr s' \<and> s_dir s' = s_dir first_session \<and> s_unexpected_reboot s' \<and>
     st \<in> {s_state first_session, s_state first_session} \<and> st_unexpected_reboots (s_state s') = st_unexpected_reboots st + 1 \<and>
     (writable (fs_states (s_fs first_session)) \<longrightarrow> (\<exists>n. state_at (s_fs s') (s_dir first_session) = Some (s_state s', n)))"
    by (rule reset_is_detected [where mid = "''m''" and ?b0.0 = "''boot1''"])
      (use c in \<open>simp_all add: can_save_def [of first_session, symmetric] first_session(2) [unfolded can_save_def]\<close>)
  with c first_session(2) [unfolded can_save_def] show ?thesis by auto
qed

theorem finished_is_not_resumed_witness:
  "map_option fst (find_running (s_fs (finish S_complete clock0 first_session)) ''/mnt/pccheck'' ''m'')
     \<noteq> Some (s_dir first_session)"
  by (rule finished_is_not_resumed) simp_all

text \<open>The session is found without its active pointer.\<close>

theorem find_running_spec_witness:
  "\<exists>d st n. find_running ((s_fs first_session)\<lparr>fs_dirs := [''one''], fs_active := fs_active empty_fs\<rparr>) ''/mnt/pccheck'' ''m''
       = Some (d, st, n) \<and> is_running_for ''m'' st"
proof -
  let ?fs = "(s_fs first_session)\<lparr>fs_dirs := [''one''], fs_active := fs_active empty_fs\<rparr>"
  have "rot_read (state_file (s_dir first_session)) (fs_states ?fs) = (Some (s_state first_session), 1)"
    using first_session(1) by (simp add: session_saved_def)
  from state_at_read [OF this] have "state_at ?fs (path_join (sessions_dir ''/mnt/pccheck'') ''one'') = Some (s_state first_session, 1)"
    by (simp add: first_session_def make_session_def)
  then have at: "state_at ?fs (path_join (sessions_dir ''/mnt/pccheck'') ''one'') = Some (s_state first_session, 1)" .
  note spec = find_running_spec [of ?fs "''/mnt/pccheck''" "''m''"]
  show ?thesis
  proof (cases "find_running ?fs ''/mnt/pccheck'' ''m''")
    case None
    then show ?thesis using spec at by simp
  next
    case (Some r)
    then show ?thesis using spec by (cases r) auto
  qed
qed

end
