(* ===== verification/Context.thy ===== *)
theory Context
  imports Session
begin

text \<open>
  Models the shared \<open>Context\<close> of \<open>orchestrator.py\<close> and the monitor base class of
  \<open>monitors.py\<close>.  Threads interleave at the granularity of handlers (each takes the locks it
  needs), so a handler is a function on the context.  A handler that may raise returns the
  exception beside the context it leaves behind.  \<open>grows\<close> is what the verdict needs of a
  handler; the contract of the monitors is built on it in \<open>Frame\<close>.
\<close>

section \<open>Types shared by the components\<close>

record block_disk =
  d_name :: string
  d_path :: string
  d_size :: int
  d_model :: string
  d_serial :: string
  d_wwn :: string
  d_rotational :: bool
  d_transport :: string

record surface_scan =
  ss_disk :: block_disk
  ss_offset :: int
  ss_errors :: "(int \<times> string) list"
  ss_slow_reads :: int
  ss_bytes_read :: int
  ss_seconds :: rat
  ss_done :: bool
  ss_aborted :: bool
  ss_alive :: bool

record write_verify =
  wv_disk :: block_disk
  wv_done :: bool

record disk_manager =
  dm_exclude :: "string list"
  dm_scans :: "surface_scan list"
  dm_writers :: "write_verify list"
  dm_stop :: bool
  dm_running :: bool

record ctx =
  c_opts :: options
  c_persistent :: bool
  c_session :: session
  c_findings :: findings
  c_boot_disk :: string
  c_sysfs_counters :: "string list"
  c_abort :: bool
  c_dm :: "disk_manager option"
  c_status_note :: string
  c_telemetry :: "telemetry option"
  c_temps :: "(string, pyfloat) dict"   \<comment> \<open>\<open>SensorMonitor.current\<close>, read by the heartbeat\<close>
  c_final_verdict :: "verdict option"
  c_reboot_request :: "int option"
  c_boot_id :: string

section \<open>Recording\<close>

definition ctx_add :: "string \<Rightarrow> event \<Rightarrow> ctx \<Rightarrow> ctx" where
  "ctx_add now e c = c\<lparr>c_findings := findings_add now e (c_findings c)\<rparr>"

definition ctx_escalate_at :: "int \<Rightarrow> string \<Rightarrow> ctx \<Rightarrow> ctx" where
  "ctx_escalate_at threshold key c = c\<lparr>c_findings := escalate_at threshold key (c_findings c)\<rparr>"

definition ctx_session :: "(session \<Rightarrow> session) \<Rightarrow> ctx \<Rightarrow> ctx" where
  "ctx_session f c = c\<lparr>c_session := f (c_session c)\<rparr>"

lemma ctx_frame [simp]:
  "c_findings (ctx_add now e c) = findings_add now e (c_findings c)"
  "c_session (ctx_add now e c) = c_session c" "c_opts (ctx_add now e c) = c_opts c"
  "c_abort (ctx_add now e c) = c_abort c" "c_boot_id (ctx_add now e c) = c_boot_id c"
  "c_sysfs_counters (ctx_add now e c) = c_sysfs_counters c" "c_boot_disk (ctx_add now e c) = c_boot_disk c"
  "c_dm (ctx_add now e c) = c_dm c" "c_reboot_request (ctx_add now e c) = c_reboot_request c"
  "c_findings (ctx_escalate_at t k c) = escalate_at t k (c_findings c)"
  "c_session (ctx_escalate_at t k c) = c_session c" "c_opts (ctx_escalate_at t k c) = c_opts c"
  "c_abort (ctx_escalate_at t k c) = c_abort c" "c_boot_id (ctx_escalate_at t k c) = c_boot_id c"
  "c_sysfs_counters (ctx_escalate_at t k c) = c_sysfs_counters c" "c_boot_disk (ctx_escalate_at t k c) = c_boot_disk c"
  "c_findings (ctx_session f c) = c_findings c" "c_session (ctx_session f c) = f (c_session c)"
  "c_opts (ctx_session f c) = c_opts c" "c_abort (ctx_session f c) = c_abort c"
  "c_boot_id (ctx_session f c) = c_boot_id c" "c_sysfs_counters (ctx_session f c) = c_sysfs_counters c"
  "c_boot_disk (ctx_session f c) = c_boot_disk c" "c_dm (ctx_session f c) = c_dm c"
  by (simp_all add: ctx_add_def ctx_escalate_at_def ctx_session_def)

text \<open>\<open>self.ctx.session.per_boot_counters(group)\<close> and the in-place update of one entry.\<close>

definition seen :: "string \<Rightarrow> ctx \<Rightarrow> counters" where
  "seen grp c = counters_of (c_boot_id c) grp (c_session c)"

definition put_seen :: "string \<Rightarrow> string \<Rightarrow> counter \<Rightarrow> ctx \<Rightarrow> ctx" where
  "put_seen grp key v c = ctx_session (put_counter (c_boot_id c) grp key v) c"

lemma put_seen_frame [simp]:
  "c_findings (put_seen g k v c) = c_findings c" "c_opts (put_seen g k v c) = c_opts c"
  "c_boot_id (put_seen g k v c) = c_boot_id c" "c_abort (put_seen g k v c) = c_abort c"
  by (simp_all add: put_seen_def)

lemma seen_put [simp]: "seen g (put_seen g k v c) = AList.update k v (seen g c)"
  by (simp add: seen_def put_seen_def counters_of_def put_counter_def dict_get_def dict_simps)

lemma seen_other [simp]:
  "seen g (ctx_add now e c) = seen g c" "seen g (ctx_escalate_at t k c) = seen g c"
  by (simp_all add: seen_def)

definition seen_count :: "counters \<Rightarrow> string \<Rightarrow> int" where
  "seen_count d k = (case map_of d k of Some (Count n) \<Rightarrow> n | _ \<Rightarrow> 0)"

section \<open>Requests\<close>

definition request_abort :: "string \<Rightarrow> ctx \<Rightarrow> ctx" where
  "request_abort reason c =
    (if c_abort c then c
     else c\<lparr>c_status_note := ''ABORTING: '' @ reason,
            c_session := session_update (\<lambda>st. st\<lparr>st_abort_reason := Some reason\<rparr>) (c_session c),
            c_abort := True\<rparr>)"

definition request_reboot :: "clock \<Rightarrow> int \<Rightarrow> ctx \<Rightarrow> ctx" where
  "request_reboot clk cycle c = c\<lparr>c_reboot_request := Some cycle,
     c_session := session_update (\<lambda>st. st\<lparr>st_planned_reboot := Some \<lparr>pr_cycle = cycle,
       pr_requested_epoch = epoch clk, pr_requested_at = now_iso clk\<rparr>\<rparr>) (c_session c)\<rparr>"

text \<open>\<open>running\<close> is the \<open>remaining\<close> time of the current phase object, if there is one.\<close>

definition remaining_estimate :: "rat option \<Rightarrow> ctx \<Rightarrow> rat" where
  "remaining_estimate running c = (let st = s_state (c_session c) in
     fold (\<lambda>p t. case map_option ps_status (map_of (st_phases st) (pl_name p)) of
         Some P_pending \<Rightarrow> fl (t + of_int (pl_duration p))
       | Some P_running \<Rightarrow> (case running of Some r \<Rightarrow> fl (t + r) | None \<Rightarrow> t)
       | _ \<Rightarrow> t) (st_plan st) 0)"

lemma request_abort_frame [simp]:
  "c_findings (request_abort r c) = c_findings c" "c_abort (request_abort r c)"
  "c_opts (request_abort r c) = c_opts c" "c_boot_id (request_abort r c) = c_boot_id c"
  by (simp_all add: request_abort_def)

section \<open>Handlers that may raise\<close>

type_synonym outcome = "exn option \<times> ctx"

definition ok :: "ctx \<Rightarrow> outcome" where
  "ok c = (None, c)"

definition raise :: "exn \<Rightarrow> ctx \<Rightarrow> outcome" where
  "raise e c = (Some e, c)"

definition andthen :: "outcome \<Rightarrow> (ctx \<Rightarrow> outcome) \<Rightarrow> outcome" where
  "andthen r f = (case r of (None, c) \<Rightarrow> f c | (Some e, c) \<Rightarrow> (Some e, c))"

fun for_each :: "('a \<Rightarrow> ctx \<Rightarrow> outcome) \<Rightarrow> 'a list \<Rightarrow> ctx \<Rightarrow> outcome" where
  "for_each f [] c = ok c"
| "for_each f (x # xs) c = andthen (f x c) (for_each f xs)"

lemma andthen_simps [simp]: "andthen (ok c) f = f c" "andthen (raise e c) f = raise e c"
  "snd (ok c) = c" "snd (raise e c) = c" "fst (ok c) = None" "fst (raise e c) = Some e"
  by (simp_all add: andthen_def ok_def raise_def)

lemma snd_andthen: "snd (andthen r f) = (case fst r of None \<Rightarrow> snd (f (snd r)) | Some _ \<Rightarrow> snd r)"
  by (simp add: andthen_def split: prod.split option.split)

lemma for_each_invariant:
  "(\<And>x c. x \<in> set xs \<Longrightarrow> P c \<Longrightarrow> P (snd (f x c))) \<Longrightarrow> P c \<Longrightarrow> P (snd (for_each f xs c))"
  by (induction xs arbitrary: c) (auto simp: snd_andthen split: option.split)

section \<open>Evidence and polls\<close>

text \<open>\<open>grows c c'\<close>: every finding of \<open>c\<close> is still there in \<open>c'\<close>, no milder, and the
  store stays well formed.\<close>

definition grows :: "ctx \<Rightarrow> ctx \<Rightarrow> bool" where
  "grows c c' \<longleftrightarrow> findings_le (c_findings c) (c_findings c') \<and> (findings_ok (c_findings c) \<longrightarrow> findings_ok (c_findings c'))"

lemma grows_refl [simp]: "grows c c"
  by (simp add: grows_def)

lemma grows_trans [trans]: "grows a b \<Longrightarrow> grows b c \<Longrightarrow> grows a c"
  unfolding grows_def using findings_le_trans by blast

lemma grows_add [simp]: "legal e \<Longrightarrow> grows c (ctx_add now e c)"
  by (simp add: grows_def del: fs_items_add)

lemma grows_escalate_at [simp]: "grows c (ctx_escalate_at t k c)"
  by (simp add: grows_def)

lemma grows_same: "c_findings c' = c_findings c \<Longrightarrow> grows c c'"
  by (simp add: grows_def)

lemma grows_session [simp]: "grows c (ctx_session f c)" "grows c (put_seen g k v c)" "grows c (request_abort r c)"
  by (simp_all add: grows_same)

lemma grows_fold: "(\<And>x c. x \<in> set xs \<Longrightarrow> grows c (f x c)) \<Longrightarrow> grows c (fold f xs c)"
  by (induction xs arbitrary: c) (auto intro: grows_trans)

lemma grows_for_each:
  "(\<And>x c. x \<in> set xs \<Longrightarrow> grows c (snd (f x c))) \<Longrightarrow> grows c (snd (for_each f xs c))"
  using for_each_invariant [of xs "grows c" f c] grows_trans by (metis grows_refl)

lemma grows_andthen:
  "grows c (snd r) \<Longrightarrow> (\<And>c'. grows c' (snd (f c'))) \<Longrightarrow> grows c (snd (andthen r f))"
  by (auto simp: snd_andthen intro: grows_trans split: option.split)

lemma grows_verdict: "grows c c' \<Longrightarrow> findings_ok (c_findings c) \<Longrightarrow>
    badness (verdict (c_findings c) inc) \<le> badness (verdict (c_findings c') inc)"
  by (simp add: grows_def verdict_mono)

text \<open>\<open>Monitor.sample\<close>: \<open>name\<close> is the thread name, \<open>last\<close> the attribute \<open>last_error\<close>.\<close>

definition monitor_error :: "string \<Rightarrow> exn \<Rightarrow> event" where
  "monitor_error name e = (event (''monitor-error:'' @ name) WARN ''Test'' (''Hardware monitor '' @ name @ '' lost coverage''))
     \<lparr>ev_incomplete := True, ev_evidence := [exn_str e]\<rparr>"

definition sample :: "string \<Rightarrow> string \<Rightarrow> (ctx \<Rightarrow> outcome) \<Rightarrow> string option \<times> ctx \<Rightarrow> string option \<times> ctx" where
  "sample name now poll = (\<lambda>(last_error, c). case poll c of
     (None, c') \<Rightarrow> (last_error, c')
   | (Some e, c') \<Rightarrow> if Some (exn_str e) \<noteq> last_error
       then (Some (exn_str e), ctx_add now (monitor_error name e) c')
       else (last_error, c'))"

lemma monitor_error_fields [simp]:
  "ev_key (monitor_error n e) = ''monitor-error:'' @ n" "ev_incomplete (monitor_error n e)" "ev_count (monitor_error n e) = 1"
  by (simp_all add: monitor_error_def)

lemma legal_monitor_error [simp]: "legal (monitor_error n e)"
  by (simp add: legal_def)

end
