(* ===== verification/Frame.thy ===== *)
theory Frame
  imports Context
begin

text \<open>
  What every operation of the program preserves while a session runs: no finding is lost or made
  milder, an abort or a requested reboot is never taken back, and a log storage that could be
  written stays writable and consistent (\<open>keeps_evidence\<close>).  The operations that leave the
  sequencing of the phases alone satisfy the stronger \<open>keeps\<close>.  It is the contract of a monitor
  (\<open>hardware_monitor\<close>, interpreted on every monitor of \<open>monitors.py\<close> and \<open>ras.py\<close>), and the
  disk manager (\<open>DiskFrame\<close>), the inventory and the phases (\<open>PhaseFacts\<close>) satisfy it.
\<close>

section \<open>A store and a session that can be written\<close>

definition store_ready :: "findings \<Rightarrow> bool" where
  "store_ready F \<longleftrightarrow> (\<exists>d. fs_disk F = Some d \<and> writable d) \<and> disk_ok F"

definition session_ready :: "session \<Rightarrow> bool" where
  "session_ready s \<longleftrightarrow> can_save s \<and> 0 \<le> s_seq s"

definition storable :: "ctx \<Rightarrow> bool" where
  "storable c \<longleftrightarrow> store_ready (c_findings c) \<and> session_ready (c_session c) \<and>
     fs_path (c_findings c) = path_join (s_dir (c_session c)) ''findings.json''"

lemma flush_ready: "store_ready F \<Longrightarrow> store_ready (findings_flush force F)"
proof (cases "fs_dirty F \<or> force")
  case True
  assume "store_ready F"
  with True show ?thesis unfolding store_ready_def
    by (metis flush_saves saved_def)
qed (auto simp: findings_flush_def split: option.split)

lemma flush_path [simp]: "fs_path (findings_flush force F) = fs_path F"
  by (simp add: findings_flush_def Let_def split: option.split sum.split)

lemma ready_cong: "fs_disk F = fs_disk G \<Longrightarrow> fs_path F = fs_path G \<Longrightarrow> fs_seq F = fs_seq G \<Longrightarrow> store_ready F = store_ready G"
  by (simp add: store_ready_def disk_ok_def split: option.split)

lemma add_ready: "store_ready F \<Longrightarrow> store_ready (findings_add now e F)"
proof -
  assume r: "store_ready F"
  have "store_ready (F\<lparr>fs_items := xs, fs_dirty := True\<rparr>)" for xs
    using r ready_cong [of "F\<lparr>fs_items := xs, fs_dirty := True\<rparr>" F] by simp
  with flush_ready show ?thesis unfolding findings_add_def Let_def by simp
qed

lemma add_path [simp]: "fs_path (findings_add now e F) = fs_path F"
  by (simp add: findings_add_def Let_def)

lemma escalate_ready: "store_ready F \<Longrightarrow> store_ready (escalate_at t k F)"
proof -
  assume r: "store_ready F"
  have "store_ready (F\<lparr>fs_dirty := True, fs_items := xs\<rparr>)" for xs
    using r ready_cong [of "F\<lparr>fs_dirty := True, fs_items := xs\<rparr>" F] by simp
  with r flush_ready show ?thesis unfolding escalate_at_def findings_escalate_def by (simp split: option.split)
qed

lemma escalate_path [simp]: "fs_path (escalate_at t k F) = fs_path F"
  by (auto simp: escalate_at_def findings_escalate_def Let_def split: option.split)

lemma session_ready [simp]: "session_ready s \<Longrightarrow> session_ready (session_save s)"
  "session_ready s \<Longrightarrow> session_ready (session_update f s)" "session_ready s \<Longrightarrow> session_ready (set_phase n g s)"
  "session_ready (upd_state f s) = session_ready s"
  by (simp_all add: session_ready_def session_save_saved session_update_saved set_phase_saved)
    (simp_all add: session_update_def set_phase_def)

lemma ready_saves: "session_ready s \<Longrightarrow> state_at (s_fs (session_save s)) (s_dir s) = Some (s_state s, s_seq s + 1)"
  using session_save_saved [of s] state_at_read [of "s_dir s" "s_fs (session_save s)" "s_state s" "s_seq s + 1"]
  by (simp add: session_ready_def session_saved_def)

lemma update_dir [simp]: "s_dir (session_update f s) = s_dir s" "s_dir (set_phase n g s) = s_dir s"
  by (simp_all add: session_update_def set_phase_def)

lemma storable_add: "storable c \<Longrightarrow> storable (ctx_add now e c)"
  by (simp add: storable_def add_ready)

lemma storable_escalate: "storable c \<Longrightarrow> storable (ctx_escalate_at t k c)"
  by (simp add: storable_def escalate_ready)

lemma storable_same: "c_findings c' = c_findings c \<Longrightarrow> c_session c' = c_session c \<Longrightarrow> storable c' = storable c"
  by (simp add: storable_def)

section \<open>What an operation preserves\<close>

definition keeps_evidence :: "ctx \<Rightarrow> ctx \<Rightarrow> bool" where
  "keeps_evidence c c' \<longleftrightarrow> grows c c' \<and> (storable c \<longrightarrow> storable c') \<and> (c_abort c \<longrightarrow> c_abort c') \<and>
     (c_reboot_request c \<noteq> None \<longrightarrow> c_reboot_request c' \<noteq> None)"

text \<open>The part of the session that belongs to the orchestrator.\<close>

definition orchestration :: "ctx \<Rightarrow> plan_item list \<times> (string, phase_state) dict \<times> int \<times> options" where
  "orchestration c = (st_plan (s_state (c_session c)), st_phases (s_state (c_session c)),
     st_unexpected_reboots (s_state (c_session c)), c_opts c)"

definition keeps :: "ctx \<Rightarrow> ctx \<Rightarrow> bool" where
  "keeps c c' \<longleftrightarrow> keeps_evidence c c' \<and> orchestration c' = orchestration c"

lemma evidence_refl [simp]: "keeps_evidence c c"
  by (simp add: keeps_evidence_def)

lemma evidence_trans [trans]: "keeps_evidence a b \<Longrightarrow> keeps_evidence b c \<Longrightarrow> keeps_evidence a c"
  by (auto simp: keeps_evidence_def intro: grows_trans)

lemma keeps_refl [simp]: "keeps c c"
  by (simp add: keeps_def)

lemma keeps_trans [trans]: "keeps a b \<Longrightarrow> keeps b c \<Longrightarrow> keeps a c"
  unfolding keeps_def using evidence_trans by metis

lemma evidenceD: "keeps_evidence c c' \<Longrightarrow> grows c c'" "keeps_evidence c c' \<Longrightarrow> storable c \<Longrightarrow> storable c'"
    "keeps_evidence c c' \<Longrightarrow> c_abort c \<Longrightarrow> c_abort c'"
    "keeps_evidence c c' \<Longrightarrow> c_reboot_request c' = None \<Longrightarrow> c_reboot_request c = None"
  by (auto simp: keeps_evidence_def)

lemma keepsD: "keeps c c' \<Longrightarrow> grows c c'" "keeps c c' \<Longrightarrow> orchestration c' = orchestration c"
    "keeps c c' \<Longrightarrow> c_abort c \<Longrightarrow> c_abort c'" "keeps c c' \<Longrightarrow> keeps_evidence c c'"
  by (auto simp: keeps_def keeps_evidence_def)

lemma keeps_ok: "keeps c c' \<Longrightarrow> findings_ok (c_findings c) \<Longrightarrow> findings_ok (c_findings c')"
  by (simp add: keeps_def keeps_evidence_def grows_def)

lemma reboot_request_frame [simp]:
  "c_reboot_request (ctx_session h c) = c_reboot_request c"
  "c_reboot_request (put_seen grp k v c) = c_reboot_request c" "c_reboot_request (request_abort r c) = c_reboot_request c"
  "c_reboot_request (ctx_escalate_at t k c) = c_reboot_request c"
  by (simp_all add: ctx_session_def put_seen_def request_abort_def ctx_escalate_at_def)

lemma storable_seen [simp]: "storable (put_seen grp k v c) = storable c"
  by (simp add: storable_def put_seen_def put_counter_def)

lemma storable_save: "storable c \<Longrightarrow> storable (request_abort r c)"
    "storable c \<Longrightarrow> storable (request_reboot clk m c)"
  by (simp_all add: storable_def request_abort_def request_reboot_def)

lemma evidence_add [simp]: "legal e \<Longrightarrow> keeps_evidence c (ctx_add now e c)"
  by (simp add: keeps_evidence_def storable_add)

lemma evidence_session [simp]: "(session_ready (c_session c) \<Longrightarrow> session_ready (f (c_session c))) \<Longrightarrow>
    s_dir (f (c_session c)) = s_dir (c_session c) \<Longrightarrow> keeps_evidence c (ctx_session f c)"
  by (simp add: keeps_evidence_def storable_def grows_same)

lemma request_state [simp]:
  "s_state (c_session (request_abort r c)) =
     (if c_abort c then s_state (c_session c) else (s_state (c_session c))\<lparr>st_abort_reason := Some r\<rparr>)"
  "s_state (c_session (request_reboot clk m c)) = (s_state (c_session c))\<lparr>st_planned_reboot :=
     Some \<lparr>pr_cycle = m, pr_requested_epoch = epoch clk, pr_requested_at = now_iso clk\<rparr>\<rparr>"
  by (simp_all add: request_abort_def request_reboot_def session_update_def)

lemma seen_state [simp]: "s_state (c_session (put_seen g k v c)) = (s_state (c_session c))\<lparr>st_counters :=
     AList.update (counter_key (c_boot_id c) g) (AList.update k v (counters_of (c_boot_id c) g (c_session c)))
       (st_counters (s_state (c_session c)))\<rparr>"
  by (simp add: put_seen_def put_counter_def)

text \<open>A change of the session that does not touch the plan or the phases.\<close>

definition minor :: "(state \<Rightarrow> state) \<Rightarrow> bool" where
  "minor g \<longleftrightarrow> (\<forall>st. st_plan (g st) = st_plan st \<and> st_phases (g st) = st_phases st \<and> st_unexpected_reboots (g st) = st_unexpected_reboots st)"

lemma keeps_session:
  "minor g \<Longrightarrow> keeps c (ctx_session (upd_state g) c)" "minor g \<Longrightarrow> keeps c (ctx_session (session_update g) c)"
  "keeps c (ctx_session session_save c)"
  by (simp_all add: keeps_def orchestration_def minor_def session_update_def)

lemma keeps_add [simp]: "legal e \<Longrightarrow> keeps c (ctx_add now e c)"
  by (simp add: keeps_def orchestration_def)

lemma keeps_escalate [simp]: "keeps c (ctx_escalate_at t k c)"
  by (simp add: keeps_def keeps_evidence_def orchestration_def storable_escalate)

lemma keeps_seen [simp]: "keeps c (put_seen g k v c)"
  by (simp add: keeps_def keeps_evidence_def orchestration_def grows_same)

lemma keeps_same: "c_findings c' = c_findings c \<Longrightarrow> c_session c' = c_session c \<Longrightarrow> c_opts c' = c_opts c \<Longrightarrow>
    (c_abort c \<longrightarrow> c_abort c') \<Longrightarrow> (c_reboot_request c \<noteq> None \<longrightarrow> c_reboot_request c' \<noteq> None) \<Longrightarrow> keeps c c'"
  by (simp add: keeps_def keeps_evidence_def orchestration_def grows_same storable_def)

lemma keeps_abort [simp]: "keeps c (request_abort r c)"
  by (simp add: keeps_def keeps_evidence_def orchestration_def storable_save)

lemma keeps_then: "keeps a b \<Longrightarrow> keeps a (ctx_escalate_at t k b)" "keeps a b \<Longrightarrow> keeps a (put_seen g k' v b)"
  "keeps a b \<Longrightarrow> keeps a (request_abort r b)" "keeps a b \<Longrightarrow> legal e \<Longrightarrow> keeps a (ctx_add now e b)"
  "keeps a b \<Longrightarrow> minor h \<Longrightarrow> keeps a (ctx_session (upd_state h) b)" "keeps a b \<Longrightarrow> keeps a (ctx_session session_save b)"
  "keeps a b \<Longrightarrow> minor h \<Longrightarrow> keeps a (ctx_session (session_update h) b)"
  by (blast intro: keeps_trans keeps_escalate keeps_seen keeps_abort keeps_add keeps_session)+

lemma keeps_fold: "(\<And>x c. x \<in> set xs \<Longrightarrow> keeps c (f x c)) \<Longrightarrow> keeps c (fold f xs c)"
  by (induction xs arbitrary: c) (auto intro: keeps_trans)

lemma keeps_for_each: "(\<And>x c. x \<in> set xs \<Longrightarrow> keeps c (snd (f x c))) \<Longrightarrow> keeps c (snd (for_each f xs c))"
  using for_each_invariant [of xs "keeps c" f c] keeps_trans by (metis keeps_refl)

lemma keeps_andthen:
  "keeps c (snd r) \<Longrightarrow> (\<And>c'. keeps c c' \<Longrightarrow> keeps c (snd (f c'))) \<Longrightarrow> keeps c (snd (andthen r f))"
  by (auto simp: snd_andthen split: option.split)

lemma keeps_seq: "keeps c (snd r) \<Longrightarrow> (\<And>c'. keeps c' (snd (f c'))) \<Longrightarrow> keeps c (snd (andthen r f))"
  by (rule keeps_andthen) (auto intro: keeps_trans)

lemma reboot_frame [simp]: "c_findings (request_reboot clk m c) = c_findings c" "c_opts (request_reboot clk m c) = c_opts c"
    "c_abort (request_reboot clk m c) = c_abort c" "c_reboot_request (request_reboot clk m c) = Some m"
    "c_persistent (request_reboot clk m c) = c_persistent c"
  by (simp_all add: request_reboot_def)

lemma keeps_reboot [simp]: "keeps c (request_reboot clk m c)"
  by (simp add: keeps_def keeps_evidence_def orchestration_def grows_same storable_save)

section \<open>The contract of a monitor\<close>

text \<open>The error of the last failed poll is recorded as missing coverage.\<close>

definition error_recorded :: "string \<Rightarrow> string option \<times> ctx \<Rightarrow> bool" where
  "error_recorded name = (\<lambda>(last_error, c). last_error \<noteq> None \<longrightarrow>
     (\<exists>f. findings_get (c_findings c) (''monitor-error:'' @ name) = Some f \<and> f_incomplete f))"

locale hardware_monitor =
  fixes poll :: "'e \<Rightarrow> ctx \<Rightarrow> outcome"
  assumes poll_keeps: "keeps c (snd (poll e c))"
begin

lemma poll_grows: "grows c (snd (poll e c))"
  by (rule keepsD(1) [OF poll_keeps])

text \<open>A sample, failed or not, keeps the frame.\<close>

lemma sample_keeps: "keeps (snd m) (snd (sample name now (poll e) m))"
proof -
  obtain l c where m: "m = (l, c)" by (cases m)
  show ?thesis using poll_keeps [of c e] keeps_then(4) [OF poll_keeps [of c e]]
    by (auto simp: m sample_def split: prod.split option.split)
qed

lemma sample_grows: "grows (snd m) (snd (sample name now (poll e) m))"
proof -
  obtain l c where m: "m = (l, c)" by (cases m)
  obtain r c' where p: "poll e c = (r, c')" by (cases "poll e c")
  have "grows c c'" using poll_grows [of c e] p by simp
  then show ?thesis using m p by (auto simp: sample_def split: option.split intro: grows_trans)
qed

lemma findings_le_incomplete:
  "findings_le F G \<Longrightarrow> findings_get F k = Some f \<Longrightarrow> f_incomplete f \<Longrightarrow>
     \<exists>g. findings_get G k = Some g \<and> f_incomplete g"
  by (fastforce simp: findings_le_def finding_le_def)

lemma sample_records:
  assumes "error_recorded name m" shows "error_recorded name (sample name now (poll e) m)"
proof -
  obtain l c where m: "m = (l, c)" by (cases m)
  obtain r c' where p: "poll e c = (r, c')" by (cases "poll e c")
  have g: "findings_le (c_findings c) (c_findings c')" using poll_grows [of c e] p by (simp add: grows_def)
  have keep: "error_recorded name (l, c')"
    using assms findings_le_incomplete [OF g] m by (fastforce simp: error_recorded_def)
  show ?thesis
  proof (cases "r = None \<or> (\<exists>e. r = Some e \<and> Some (exn_str e) = l)")
    case True
    then show ?thesis using keep m p by (auto simp: sample_def)
  next
    case False
    then obtain e' where "r = Some e'" "Some (exn_str e') \<noteq> l" by auto
    then show ?thesis using m p
      by (simp add: sample_def error_recorded_def get_add del: append_Cons append_Nil split: option.split)
  qed
qed

text \<open>A run of samples; \<open>es\<close> are the readings of the hardware and the clock.\<close>

definition samples :: "string \<Rightarrow> (string \<times> 'e) list \<Rightarrow> string option \<times> ctx \<Rightarrow> string option \<times> ctx" where
  "samples name es m = fold (\<lambda>(now, e). sample name now (poll e)) es m"

lemma samples_simps [simp]:
  "samples name [] m = m"
  "samples name ((now, e) # es) m = samples name es (sample name now (poll e) m)"
  by (simp_all add: samples_def)

lemma samples_grow: "grows (snd m) (snd (samples name es m))"
proof (induction es arbitrary: m)
  case (Cons x es)
  show ?case using grows_trans [OF sample_grows Cons.IH] by (cases x) simp
qed simp

lemma samples_record: "error_recorded name m \<Longrightarrow> error_recorded name (samples name es m)"
proof (induction es arbitrary: m)
  case (Cons x es)
  then show ?case using sample_records by (cases x) simp
qed simp

lemma sample_error: "fst (poll e c) = Some x \<Longrightarrow> fst (sample name now (poll e) (l, c)) \<noteq> None"
  by (auto simp: sample_def split: prod.split)

text \<open>Once a poll has failed, the session can no longer pass, whatever happens afterwards.\<close>

lemma failed_poll_blocks_pass:
  assumes "error_recorded name (l, c)" "fst (poll e c) = Some x"
    and "grows (snd (sample name now (poll e) (l, c))) d"
  shows "badness (verdict (c_findings d) inc) \<ge> 2"
proof -
  let ?m = "sample name now (poll e) (l, c)"
  have "error_recorded name ?m" using sample_records [OF assms(1)] .
  then obtain f where "findings_get (c_findings (snd ?m)) (''monitor-error:'' @ name) = Some f" "f_incomplete f"
    using sample_error [OF assms(2), of name now l] by (cases ?m) (auto simp: error_recorded_def)
  with assms(3) findings_le_incomplete obtain g where
    "findings_get (c_findings d) (''monitor-error:'' @ name) = Some g" "f_incomplete g"
    unfolding grows_def by metis
  then show ?thesis by (rule get_incomplete_verdict)
qed

end

end
