(* ===== verification/Kmsg.thy ===== *)
theory Kmsg
  imports Frame
begin

text \<open>
  Models \<open>kmsg.py\<close>: the classification rules for kernel messages (their patterns are compiled
  from the source's pattern texts), record parsing, the translation of a message into a finding
  and the reader loop of \<open>KmsgMonitor\<close> with its resume cursor.  A run of the reader is the
  sequence of results of its \<open>os.read\<close> calls.
\<close>

section \<open>Rules\<close>

record rule =
  r_id :: string
  r_re :: regex
  r_severity :: severity
  r_component :: string
  r_title :: string
  r_recommendation :: string
  r_key_group :: "string option"
  r_counter :: "string option"
  r_boot_title :: "string option"
  r_ignore_at_boot :: bool

definition Rule :: "string \<Rightarrow> string \<Rightarrow> severity \<Rightarrow> string \<Rightarrow> string \<Rightarrow> string \<Rightarrow> rule" where
  "Rule rid pattern sev compo title reco = \<lparr>r_id = rid, r_re = re_compile no_flags pattern, r_severity = sev,
     r_component = compo, r_title = title, r_recommendation = reco, r_key_group = None, r_counter = None,
     r_boot_title = None, r_ignore_at_boot = False\<rparr>"

definition REC_CPU_MEM :: string where
  "REC_CPU_MEM = ''Unstable CPU or memory. Check rasdaemon/MCE decode in the logs to locate the socket/DIMM; reseat or replace it, verify BIOS memory settings (no XMP/EXPO overclock) and update BIOS/microcode.''"

definition REC_MEMORY :: string where
  "REC_MEMORY = ''Replace or reseat the reported DIMM; re-run the test after swapping it to another slot to confirm.''"

definition REC_PCIE :: string where
  "REC_PCIE = ''PCIe signal integrity problem: reseat the device/riser/cable, try another slot, update device firmware; replace the riser or the card if errors continue.''"

definition REC_DISK :: string where
  "REC_DISK = ''Replace the drive (or the cable/backplane slot if only link errors are reported).''"

definition REC_THERMAL :: string where
  "REC_THERMAL = ''Improve cooling: check heatsink mounting and thermal paste, fans, airflow and blanking panels.''"

definition RULES :: "rule list" where
  "RULES = [
     Rule ''kernel-panic'' ''Kernel panic - not syncing''
      FAIL ''System'' ''Kernel panic'' REC_CPU_MEM,
     Rule ''mce-fatal'' (raw ''Fatal machine check|Machine check: .*(?:corrupt|PANIC)|`[Hardware Error`]: .*(?:Uncorrected|uncorrected|Fatal)'')
      FAIL ''CPU/Memory'' ''Uncorrected machine check exception (MCE)'' REC_CPU_MEM,
     Rule ''bert'' ''BERT: Error records from previous boot''
      WARN ''System'' ''Firmware recorded a fatal hardware error from a previous boot (BERT)'' REC_CPU_MEM,
     Rule ''ghes-fatal'' (raw ''`[Hardware Error`]: event severity: (?:fatal|recoverable)'')
      FAIL ''Platform'' ''Uncorrected hardware error reported by firmware (APEI/GHES)'' REC_CPU_MEM,
     Rule ''ghes-corrected'' (raw ''`[Hardware Error`]: event severity: corrected'')
      WARN ''Platform'' ''Corrected hardware error reported by firmware (APEI/GHES)'' REC_CPU_MEM,
     (Rule ''mce-corrected'' (raw ''`[Hardware Error`]: (?:Corrected error|Machine check events logged)'')
      WARN ''CPU/Memory'' ''Corrected machine check (MCE) during test'' REC_CPU_MEM)\<lparr>r_boot_title := Some ''Machine check logged at boot (error happened before/while booting)''\<rparr>,
     (Rule ''edac-ue'' (raw ''EDAC .*(?:`bUE`b|[Uu]ncorrect)'')
      FAIL ''Memory'' ''Uncorrectable memory error (EDAC)'' REC_MEMORY)\<lparr>r_counter := Some ''edac''\<rparr>,
     (Rule ''edac-ce'' (raw ''EDAC .*`bCE`b'')
      WARN ''Memory'' ''Corrected memory error (EDAC)'' REC_MEMORY)\<lparr>r_counter := Some ''edac''\<rparr>,
     Rule ''memory-failure'' (raw ''Memory failure: |`bBad page (?:state|map)`b|HardwareCorrupted|soft offline:'')
      FAIL ''Memory'' ''Kernel memory failure handling (poisoned/bad page)'' REC_MEMORY,
     Rule ''nmi'' ''NMI received for unknown reason|NMI: PCI system error|NMI: IOCK error|Dazed and confused''
      FAIL ''Platform'' ''Unexpected hardware NMI'' REC_CPU_MEM,
     Rule ''lockup'' (raw ''soft lockup - CPU#|hard LOCKUP|rcu_(?:sched|preempt) (?:self-)?detected stall|rcu: INFO: `S+ (?:self-)?detected stall'')
      FAIL ''CPU'' ''CPU lockup / RCU stall (a CPU stopped responding)'' REC_CPU_MEM,
     Rule ''stress-crash'' (raw ''(?:(?:stress-ng|stressapptest|mprime|y-cruncher)`S*|`d{2}-[A-Z0-9]{3} ~ [^`[]+)`[`d+`]:? (?:segfault|general protection|trap)'')
      FAIL ''CPU/Memory'' ''Stress test process crashed (segfault / illegal instruction)'' REC_CPU_MEM,
     Rule ''segfault'' (raw ''`bsegfault at [0-9a-f]+ ip |traps: `S+`[`d+`] (?:general protection|trap)'')
      WARN ''CPU/Memory'' ''Unexpected process crash (segfault)'' REC_CPU_MEM,
     Rule ''oops'' (raw ''general protection fault(?:,|: [0-9a-f]{4})|invalid opcode: [0-9a-f]{4}|BUG: unable to handle|`bOops: |kernel BUG at|BUG: Bad rss-counter'')
      FAIL ''CPU/Memory'' ''Kernel crash (oops) - typical of unstable CPU or memory'' REC_CPU_MEM,
     (Rule ''aer-uncorrected'' ''PCIe Bus Error: severity=(?:Uncorrect|Fatal)|AER: (?:Multiple )?Uncorrect''
      FAIL ''PCIe'' ''Uncorrected PCIe error'' REC_PCIE)\<lparr>r_key_group := Some ''bdf'', r_counter := Some ''aer''\<rparr>,
     (Rule ''aer-corrected'' ''PCIe Bus Error: severity=Corrected''
      WARN ''PCIe'' ''Corrected PCIe errors (link signal integrity)'' REC_PCIE)\<lparr>r_key_group := Some ''bdf'', r_counter := Some ''aer''\<rparr>,
     (Rule ''pcie-link-down'' ''pciehp .*Link Down|PCIe link lost|Surprise Removal''
      FAIL ''PCIe'' ''PCIe device dropped off the bus'' REC_PCIE)\<lparr>r_ignore_at_boot := True\<rparr>,
     Rule ''gpu-lost'' ''fallen off the bus|GPU has fallen''
      FAIL ''GPU'' ''GPU dropped off the bus'' REC_PCIE,
     (Rule ''disk-io-error'' (raw ''I/O error, dev (`w+)|blk_update_request: (?:critical )?(?:medium|I/O) error, dev (`w+)'')
      FAIL ''Storage'' ''Disk I/O error'' REC_DISK)\<lparr>r_key_group := Some ''dev''\<rparr>,
     Rule ''disk-medium'' (raw ''Unrecovered read error|Medium Error|critical medium error|`bUNC`b'')
      FAIL ''Storage'' ''Disk medium error (unreadable sector)'' REC_DISK,
     (Rule ''nvme-timeout'' (raw ''(nvme`d+)`S*: (?:I/O(?: tag)? `d+ .*timeout|controller is down|Device not ready|Removing after probe failure|resetting controller|Abort status)'')
      FAIL ''Storage'' ''NVMe controller timeout/reset'' REC_DISK)\<lparr>r_key_group := Some ''dev''\<rparr>,
     (Rule ''sata-link'' (raw ''(ata`d+)(?:`.`d+)?: (?:hard resetting link|SError: |failed command|exception Emask|COMRESET failed|limiting SATA link speed)'')
      WARN ''Storage'' ''SATA link errors (cable, backplane or drive)'' REC_DISK)\<lparr>r_key_group := Some ''dev''\<rparr>,
     (Rule ''sas-reset'' (raw ''(?:mpt3sas|megaraid_sas|smartpqi|aacraid|hpsa)`S*: .*(?:FW fault|fault state|reset|timeout|Timeout)'')
      WARN ''Storage'' ''Storage controller reset/timeout'' REC_DISK)\<lparr>r_ignore_at_boot := True\<rparr>,
     (Rule ''thermal-throttle'' ''(?:Core|Package) temperature above threshold, cpu clock throttled''
      WARN ''Thermal'' ''CPU thermal throttling'' REC_THERMAL)\<lparr>r_counter := Some ''throttle''\<rparr>,
     Rule ''thermal-critical'' (raw ''[Cc]ritical temperature reached|thermal_zone`d+: critical|temperature above critical'')
      FAIL ''Thermal'' ''Critical temperature reached'' REC_THERMAL,
     Rule ''clocksource'' ''clocksource: .*unstable|TSC found unstable|Marking TSC unstable|timekeeping watchdog.*skew''
      WARN ''CPU/Platform'' ''Unstable clock source (TSC)'' ''Often a firmware or CPU/board problem; update BIOS and re-test.'',
     Rule ''hung-task'' (raw ''blocked for more than `d+ seconds'')
      WARN ''System'' ''Task hung for a long time (storage stall or lockup)'' REC_DISK,
     Rule ''oom'' ''Out of memory: Killed process|invoked oom-killer''
      WARN ''Test'' ''Out of memory during stress test (test configuration issue, not a hardware failure)'' [],
     (Rule ''nic-hang'' (raw ''Detected Hardware Unit Hang|NETDEV WATCHDOG: .*transmit queue `d+ timed out|(?:tx|TX) timeout|firmware (?:error|crashed)|Reset adapter|PCIe link lost'')
      WARN ''Network'' ''Network adapter hang/reset'' ''Reseat the NIC/optics, update NIC firmware; replace if it repeats.'')\<lparr>r_ignore_at_boot := True\<rparr>,
     Rule ''iommu-fault'' (raw ''DMAR: `[DMA (?:Read|Write)`]|DMAR: DRHD: handling fault|AMD-Vi: Event logged `[IO_PAGE_FAULT'')
      WARN ''Platform'' ''IOMMU fault (device accessed invalid memory)'' ''Usually a device firmware/driver issue; update firmware. Hardware if repeated under load.'',
     Rule ''irq-nobody'' (raw ''irq `d+: nobody cared'')
      WARN ''Platform'' ''Spurious interrupt storm (irq nobody cared)'' ''Update BIOS; can be a failing device asserting interrupts.'',
     Rule ''usb-overcurrent'' ''over-current condition''
      WARN ''Platform'' ''USB over-current condition'' ''Check USB devices/ports and board power.'',
     Rule ''firmware-bug'' (raw ''`[Firmware Bug`]'')
      INFO ''Firmware'' ''Firmware bug reported by the kernel'' ''Consider a BIOS/BMC firmware update.'']"


definition BDF_RE :: regex where
  "BDF_RE = re_compile no_flags (raw ''`b([0-9a-f]{4}:[0-9a-f]{2}:[0-9a-f]{2}`.[0-7])`b'')"

definition BOOT_WINDOW :: rat where
  "BOOT_WINDOW = 120"

fun classify_in :: "rule list \<Rightarrow> string \<Rightarrow> (rule \<times> re_match) option" where
  "classify_in [] message = None"
| "classify_in (r # rs) message = (case re_search (r_re r) message of
     Some m \<Rightarrow> Some (r, m) | None \<Rightarrow> classify_in rs message)"

definition classify :: "string \<Rightarrow> (rule \<times> re_match) option" where
  "classify message = classify_in RULES message"

section \<open>Records\<close>

definition before_char :: "char \<Rightarrow> string \<Rightarrow> string" where
  "before_char c s = takeWhile (\<lambda>x. x \<noteq> c) s"

definition parse_record :: "string \<Rightarrow> (int \<times> int \<times> rat \<times> string) option" where
  "parse_record raw_text =
    (let (head, rest) = split1 (CHR '';'') raw_text; fields = split_on (CHR '','') head
     in case map py_int (take 3 fields) of
       [Some prio, Some seq, Some usec] \<Rightarrow> Some (prio mod 8, seq, fl (fl (of_int usec) / 1000000),
          before_char (CHR 0x0A) (case rest of None \<Rightarrow> [] | Some r \<Rightarrow> r))
     | _ \<Rightarrow> None)"

definition device_key :: "rule \<Rightarrow> re_match \<Rightarrow> string \<Rightarrow> string" where
  "device_key r m message =
    (if r_key_group r = Some ''bdf'' then
       (case re_search BDF_RE message of Some b \<Rightarrow> the_default ''unknown'' (m_group b 1) | None \<Rightarrow> ''unknown'')
     else if r_key_group r = Some ''dev'' then
       (case filter (\<lambda>g. g \<noteq> []) (List.map_filter id (m_groups (r_re r) m)) of g # _ \<Rightarrow> g | [] \<Rightarrow> ''unknown'')
     else [])"

section \<open>From a message to a finding\<close>

definition CRIT_RE :: regex where
  "CRIT_RE = re_compile no_flags (raw ''`d+'')"

definition stamped :: "nat \<Rightarrow> nat \<Rightarrow> rat \<Rightarrow> string" where
  "stamped width digits seconds = ''['' @ rjust width (CHR '' '') (fixed digits seconds) @ '']''"

definition storage_rules :: "string list" where
  "storage_rules = [''disk-io-error'', ''disk-medium'', ''nvme-timeout'', ''sata-link'']"

text \<open>The successive overrides of (key, severity, title) in \<open>_process\<close>.\<close>

type_synonym label = "string \<times> severity \<times> string"

definition base_label :: "rule \<Rightarrow> string \<Rightarrow> label" where
  "base_label r dev = (if dev = [] then (r_id r, r_severity r, r_title r)
     else (r_id r @ '':'' @ dev, r_severity r, r_title r @ '' ('' @ dev @ '')''))"

definition boot_label :: "rule \<Rightarrow> bool \<Rightarrow> label \<Rightarrow> label" where
  "boot_label r at_boot l = (case (at_boot, r_boot_title r) of
     (True, Some t) \<Rightarrow> if t = [] then l else (r_id r @ ''-boot'', WARN, t) | _ \<Rightarrow> l)"

definition bert_label :: "rule \<Rightarrow> bool \<Rightarrow> label \<Rightarrow> label" where
  "bert_label r unexpected l = (if r_id r = ''bert'' \<and> unexpected
     then (fst l, FAIL, ''Firmware recorded the fatal hardware error that reset the machine (BERT)'') else l)"

definition bootdisk_label :: "rule \<Rightarrow> string \<Rightarrow> string \<Rightarrow> label \<Rightarrow> label" where
  "bootdisk_label r boot_disk message l =
    (if r_id r \<in> set storage_rules \<and> boot_disk \<noteq> [] \<and> str_in boot_disk message
     then (''bootdisk:'' @ r_id r, WARN, ''I/O errors on the PC-Check USB boot device (USB stick/port, not the tested hardware)'')
     else l)"

definition label_of :: "rule \<Rightarrow> re_match \<Rightarrow> bool \<Rightarrow> string \<Rightarrow> ctx \<Rightarrow> label" where
  "label_of r m at_boot message c =
    bootdisk_label r (c_boot_disk c) message
      (bert_label r (s_unexpected_reboot (c_session c))
        (boot_label r at_boot (base_label r (device_key r m message))))"

definition threshold_of :: "rule \<Rightarrow> ctx \<Rightarrow> int option" where
  "threshold_of r c =
    (if r_id r = ''mce-corrected'' \<or> r_id r = ''ghes-corrected'' then Some (mce_fail (c_opts c))
     else if r_id r = ''edac-ce'' then Some (ce_fail (c_opts c))
     else if r_id r = ''aer-corrected'' then (if ''aer'' \<notin> set (c_sysfs_counters c) then Some (aer_fail (c_opts c)) else None)
     else if r_id r = ''sata-link'' then Some (sata_link_fail (c_opts c))
     else None)"

definition endswith :: "string \<Rightarrow> string \<Rightarrow> bool" where
  "endswith s t = startswith (rev s) (rev t)"

definition owned :: "rule \<Rightarrow> ctx \<Rightarrow> bool" where
  "owned r c = (case r_counter r of Some k \<Rightarrow> k \<in> set (c_sysfs_counters c) | None \<Rightarrow> False)"

definition rule_event :: "rule \<Rightarrow> label \<Rightarrow> int \<Rightarrow> rat \<Rightarrow> string \<Rightarrow> event" where
  "rule_event r l n seconds message = (event (fst l) (fst (snd l)) (r_component r) (snd (snd l)))
     \<lparr>ev_recommendation := r_recommendation r, ev_evidence := [stamped 10 3 seconds @ '' '' @ message], ev_count := n\<rparr>"

definition report_rule :: "string \<Rightarrow> rule \<Rightarrow> label \<Rightarrow> rat \<Rightarrow> string \<Rightarrow> ctx \<Rightarrow> ctx" where
  "report_rule now r l seconds message c =
    (let own = owned r c;
         key = (if own \<and> r_counter r = Some ''throttle'' then ''thermal-throttle'' else fst l);
         c1 = ctx_add now (rule_event r (key, snd l) (if own then 0 else 1) seconds message) c
     in case threshold_of r c of
          Some t \<Rightarrow> if t \<noteq> 0 \<and> fst (snd l) = WARN \<and> \<not> endswith key ''-boot'' then ctx_escalate_at t key c1 else c1
        | None \<Rightarrow> c1)"

definition critical_event :: "string \<Rightarrow> event" where
  "critical_event message = (event (''kmsg-crit:'' @ take 80 (re_sub CRIT_RE ''#'' message)) WARN ''System'' ''Critical kernel message'')
     \<lparr>ev_evidence := [message]\<rparr>"

definition process :: "string \<Rightarrow> int \<Rightarrow> rat \<Rightarrow> string \<Rightarrow> ctx \<Rightarrow> ctx" where
  "process now level seconds message c = (case classify message of
     None \<Rightarrow> if level \<le> 2 then ctx_add now (critical_event message) c else c
   | Some (r, m) \<Rightarrow>
       let at_boot = seconds < BOOT_WINDOW
       in if at_boot \<and> r_ignore_at_boot r then c
          else if owned r c \<and> r_counter r = Some ''edac'' \<and> r_severity r \<noteq> FAIL then c
          else report_rule now r (label_of r m at_boot message c) seconds message c)"

section \<open>The reader\<close>

text \<open>The results of one \<open>os.read\<close>: data, no data yet, ring buffer overrun, or another error.\<close>

datatype kmsg_read = Data string | Would_block | Overrun | Read_error

record kmsg_state =
  k_last_seq :: int
  k_pending :: "string list"
  k_lines_total :: int
  k_error_lines :: "string list"
  k_log :: "string list"        \<comment> \<open>the lines written to \<open>kernel.log\<close>\<close>
  k_ctx :: ctx

definition log_line :: "int \<Rightarrow> rat \<Rightarrow> string \<Rightarrow> string" where
  "log_line level seconds message = stamped 12 6 seconds @ '' <'' @ int_str level @ ''> '' @ message"

definition last_lines :: "nat \<Rightarrow> 'a list \<Rightarrow> 'a list" where
  "last_lines n xs = drop (length xs - n) xs"

definition write_pending :: "kmsg_state \<Rightarrow> kmsg_state" where
  "write_pending k = k\<lparr>k_log := k_log k @ k_pending k, k_pending := [],
     k_ctx := put_seen ''kmsg'' ''last_seq'' (Count (k_last_seq k)) (k_ctx k)\<rparr>"

definition overrun_event :: event where
  "overrun_event = (event ''kmsg-overrun'' WARN ''Test''
     ''Kernel log overflowed; hardware error messages may be missing'')\<lparr>ev_incomplete := True\<rparr>"

text \<open>A new record: accounting, then the rules.\<close>

definition take_record :: "string \<Rightarrow> int \<times> int \<times> rat \<times> string \<Rightarrow> kmsg_state \<Rightarrow> kmsg_state" where
  "take_record now rec k = (case rec of (level, seq, seconds, message) \<Rightarrow>
     k\<lparr>k_last_seq := seq, k_lines_total := k_lines_total k + 1,
       k_pending := k_pending k @ [log_line level seconds message],
       k_error_lines := (if level \<le> 3 then last_lines 500 (k_error_lines k @ [stamped 10 3 seconds @ '' '' @ message])
                         else k_error_lines k),
       k_ctx := process now level seconds message (k_ctx k)\<rparr>)"

text \<open>One iteration; \<open>late\<close>: more than a second since the last write.\<close>

definition kmsg_step :: "string \<times> bool \<times> kmsg_read \<Rightarrow> kmsg_state \<Rightarrow> kmsg_state" where
  "kmsg_step ev k = (case ev of (now, late, res) \<Rightarrow> (case res of
     Overrun \<Rightarrow> k\<lparr>k_ctx := ctx_add now overrun_event (k_ctx k)\<rparr>
   | Read_error \<Rightarrow> k
   | Would_block \<Rightarrow> if k_pending k \<noteq> [] then write_pending k else k
   | Data [] \<Rightarrow> if k_pending k \<noteq> [] \<and> (200 \<le> length (k_pending k) \<or> late) then write_pending k else k
   | Data text \<Rightarrow> (case parse_record text of
        None \<Rightarrow> k
      | Some rec \<Rightarrow>
          if fst (snd rec) \<le> k_last_seq k then k
          else let k1 = take_record now rec k in
            if length (k_pending k1) < 200 then k1 else write_pending k1)))"

definition kmsg_unavailable :: "string \<Rightarrow> event" where
  "kmsg_unavailable err = (event ''kmsg-unavailable'' WARN ''Test'' ''Kernel hardware-error monitoring is unavailable'')
     \<lparr>ev_evidence := [err], ev_incomplete := True\<rparr>"

text \<open>
  \<open>run\<close>: the start (an error of \<open>os.open\<close> is \<open>Some err\<close>), the loop up to the stop
  event, and the final write.
\<close>

definition kmsg_start :: "ctx \<Rightarrow> kmsg_state" where
  "kmsg_start c = \<lparr>k_last_seq = (case map_of (seen ''kmsg'' c) ''last_seq'' of Some (Count n) \<Rightarrow> n | _ \<Rightarrow> -1),
     k_pending = [], k_lines_total = 0, k_error_lines = [], k_log = [], k_ctx = c\<rparr>"

definition kmsg_stop :: "kmsg_state \<Rightarrow> kmsg_state" where
  "kmsg_stop k = k\<lparr>k_log := k_log k @ k_pending k\<rparr>"

definition kmsg_run :: "string \<Rightarrow> string option \<Rightarrow> (string \<times> bool \<times> kmsg_read) list \<Rightarrow> ctx \<Rightarrow> kmsg_state" where
  "kmsg_run now opened reads c = (case opened of
     Some err \<Rightarrow> (kmsg_start c)\<lparr>k_ctx := ctx_add now (kmsg_unavailable err) c\<rparr>
   | None \<Rightarrow> kmsg_stop (fold kmsg_step reads (kmsg_start c)))"


section \<open>What the rules guarantee\<close>

text \<open>Evaluation of the table, compiled once: every pattern compiles, and three sample messages.\<close>

definition rule_of :: "rule list \<Rightarrow> string \<Rightarrow> string" where
  "rule_of rs msg = (case classify_in rs msg of None \<Rightarrow> [] | Some (r, m) \<Rightarrow> r_id r)"

lemma RULES_checked:
  "let rs = RULES in list_all (\<lambda>r. r_re r \<noteq> Void) rs \<and>
     map (rule_of rs) [''EDAC MC0: 1 UE on DIMM_A1'', ''EDAC MC0: 1 CE on DIMM_A1''] = [''edac-ue'', ''edac-ce'']"
  by code_simp

lemma RULES_compile: "list_all (\<lambda>r. r_re r \<noteq> Void) RULES"
  using RULES_checked unfolding Let_def by blast

lemma rule_of_classify: "rule_of RULES msg = x \<Longrightarrow> x \<noteq> [] \<Longrightarrow> \<exists>r m. classify msg = Some (r, m) \<and> r_id r = x"
  by (auto simp: rule_of_def classify_def split: option.splits)

lemma classify_in_SomeD: "classify_in rs msg = Some (r, m) \<Longrightarrow> r \<in> set rs"
  by (induction rs) (auto split: option.splits)

lemma classify_rule: "classify msg = Some (r, m) \<Longrightarrow> r \<in> set RULES"
  unfolding classify_def by (rule classify_in_SomeD)

text \<open>Facts read off the table: the fatal rules have no boot title, and every pattern compiles.\<close>

lemma RULES_fatal: "r \<in> set RULES \<Longrightarrow> r_severity r = FAIL \<Longrightarrow> r_boot_title r = None"
proof -
  have "list_all (\<lambda>r. r_severity r = FAIL \<longrightarrow> r_boot_title r = None) RULES"
    unfolding RULES_def Rule_def by (simp del: append_Cons)
  then show "r \<in> set RULES \<Longrightarrow> r_severity r = FAIL \<Longrightarrow> r_boot_title r = None" by (simp add: list_all_iff)
qed

lemma rule_event_fields [simp]:
  "ev_key (rule_event r l n s msg) = fst l" "ev_severity (rule_event r l n s msg) = fst (snd l)"
  "ev_count (rule_event r l n s msg) = n" "0 \<le> n \<Longrightarrow> legal (rule_event r l n s msg)"
  by (simp_all add: rule_event_def legal_def)

lemma legal_critical [simp]: "legal (critical_event msg)" "legal overrun_event" "legal (kmsg_unavailable e)"
  by (simp_all add: critical_event_def overrun_event_def kmsg_unavailable_def legal_def)

definition report_key :: "rule \<Rightarrow> label \<Rightarrow> ctx \<Rightarrow> string" where
  "report_key r l c = (if owned r c \<and> r_counter r = Some ''throttle'' then ''thermal-throttle'' else fst l)"

definition report_event :: "rule \<Rightarrow> label \<Rightarrow> rat \<Rightarrow> string \<Rightarrow> ctx \<Rightarrow> event" where
  "report_event r l s msg c = rule_event r (report_key r l c, snd l) (if owned r c then 0 else 1) s msg"

lemma report_event_fields [simp]:
  "ev_severity (report_event r l s msg c) = fst (snd l)" "legal (report_event r l s msg c)"
  by (simp_all add: report_event_def)

lemma report_rule_eq: "report_rule now r l s msg c = (case threshold_of r c of
    Some t \<Rightarrow> if t \<noteq> 0 \<and> fst (snd l) = WARN \<and> \<not> endswith (report_key r l c) ''-boot''
      then ctx_escalate_at t (report_key r l c) (ctx_add now (report_event r l s msg c) c)
      else ctx_add now (report_event r l s msg c) c
  | None \<Rightarrow> ctx_add now (report_event r l s msg c) c)"
  unfolding report_rule_def Let_def report_event_def report_key_def by (rule refl)

lemma report_rule_grows [simp]: "grows c (report_rule now r l s msg c)"
proof -
  have "grows c (ctx_add now (report_event r l s msg c) c)" by simp
  with grows_trans [OF this grows_escalate_at] show ?thesis by (simp add: report_rule_eq split: option.split)
qed

lemma process_grows [simp]: "grows c (process now level s msg c)"
  by (auto simp: process_def Let_def split: option.split prod.split)

lemma report_frame [simp]:
  "c_session (report_rule now r l s msg c) = c_session c" "c_boot_id (report_rule now r l s msg c) = c_boot_id c"
  by (simp_all add: report_rule_eq split: option.split)

lemma process_frame [simp]:
  "c_session (process now level s msg c) = c_session c" "c_boot_id (process now level s msg c) = c_boot_id c"
  by (simp_all add: process_def Let_def split: option.split prod.split)

lemma report_FAIL:
  assumes "fst (snd l) = FAIL" shows "verdict (c_findings (report_rule now r l s msg c)) inc = FAILED"
proof -
  have "report_rule now r l s msg c = ctx_add now (report_event r l s msg c) c"
    using assms by (simp add: report_rule_eq split: option.split)
  then show ?thesis using add_FAIL_verdict [of "report_event r l s msg c" now "c_findings c" inc] assms by simp
qed

text \<open>The message is about the disk that PC-Check booted from.\<close>

definition blames_boot_disk :: "rule \<Rightarrow> string \<Rightarrow> ctx \<Rightarrow> bool" where
  "blames_boot_disk r msg c \<longleftrightarrow> r_id r \<in> set storage_rules \<and> c_boot_disk c \<noteq> [] \<and> str_in (c_boot_disk c) msg"

lemma label_FAIL:
  "r_severity r = FAIL \<Longrightarrow> r_boot_title r = None \<Longrightarrow> \<not> blames_boot_disk r msg c \<Longrightarrow>
   fst (snd (label_of r m at_boot msg c)) = FAIL"
  by (simp add: label_of_def bootdisk_label_def bert_label_def boot_label_def base_label_def blames_boot_disk_def split: bool.split)

lemma fatal_rule_fails:
  assumes "classify msg = Some (r, m)" "r_severity r = FAIL"
    and "\<not> (seconds < BOOT_WINDOW \<and> r_ignore_at_boot r)" "\<not> blames_boot_disk r msg c"
  shows "verdict (c_findings (process now level seconds msg c)) inc = FAILED"
  using assms RULES_fatal [OF classify_rule [OF assms(1)] assms(2)]
  by (auto simp: process_def Let_def report_FAIL label_FAIL)

text \<open>C31: a kernel message that matches a fatal rule fails the machine, whatever monitor owns the
  counter and whenever it arrives, unless it is probe noise of the boot window or blames the
  boot disk.\<close>

theorem fatal_message_fails:
  assumes "classify msg = Some (r, m)" "r_severity r = FAIL"
    and "\<not> (seconds < BOOT_WINDOW \<and> r_ignore_at_boot r)" "\<not> blames_boot_disk r msg c"
  shows "verdict (c_findings (process now level seconds msg c)) inc = FAILED"
  using assms by (rule fatal_rule_fails)

lemma panic_rule:
  assumes "str_in ''Kernel panic - not syncing'' msg"
  shows "\<exists>m. classify msg = Some (hd RULES, m)"
proof -
  have "is_literal ''Kernel panic - not syncing'' (re_compile no_flags ''Kernel panic - not syncing'')"
    unfolding is_literal_def by code_simp
  then have "is_literal ''Kernel panic - not syncing'' (r_re (hd RULES))" by (simp add: RULES_def Rule_def)
  then have "re_found (r_re (hd RULES)) msg" using assms by (subst re_found_literal) simp_all
  then obtain m where "re_search (r_re (hd RULES)) msg = Some m" by (auto simp: re_found_search)
  moreover have "RULES = hd RULES # tl RULES" by (simp add: RULES_def)
  ultimately show ?thesis unfolding classify_def by (metis classify_in.simps(2) option.simps(5))
qed

lemma hd_RULES [simp]:
  "r_id (hd RULES) = ''kernel-panic''" "r_severity (hd RULES) = FAIL" "r_ignore_at_boot (hd RULES) = False"
  by (simp_all add: RULES_def Rule_def)

text \<open>A kernel panic message fails the machine, on any level, at any time and in any state.\<close>

theorem kernel_panic_fails:
  assumes "str_in ''Kernel panic - not syncing'' msg"
  shows "verdict (c_findings (process now level seconds msg c)) inc = FAILED"
proof -
  obtain m where m: "classify msg = Some (hd RULES, m)" using panic_rule [OF assms] by blast
  have "\<not> blames_boot_disk (hd RULES) msg c" by (simp add: blames_boot_disk_def storage_rules_def)
  with fatal_rule_fails [OF m] show ?thesis by simp
qed

lemma old_count_rule:
  "findings_get F k = None \<Longrightarrow> old_count F k = 0" "findings_get F k = Some f \<Longrightarrow> old_count F k = f_count f"
  by (simp_all add: old_count_def)

text \<open>A corrected error is a warning only up to its threshold: the report that brings the
  finding's count to the configured limit turns it into a failure.\<close>

theorem threshold_message_fails:
  assumes "classify msg = Some (r, m)" "threshold_of r c = Some t" "t \<noteq> 0" "\<not> owned r c"
    and "\<not> (seconds < BOOT_WINDOW \<and> r_ignore_at_boot r)"
    and l: "label_of r m (seconds < BOOT_WINDOW) msg c = (key, WARN, title)" "\<not> endswith key ''-boot''"
    and "t \<le> old_count (c_findings c) key + 1"
  shows "verdict (c_findings (process now level seconds msg c)) inc = FAILED"
proof -
  let ?e = "rule_event r (key, WARN, title) 1 seconds msg"
  have "process now level seconds msg c = ctx_escalate_at t key (ctx_add now ?e c)"
    using assms by (auto simp: process_def report_rule_def Let_def)
  moreover obtain f where "findings_get (escalate_at t key (findings_add now ?e (c_findings c))) key = Some f" "f_severity f = FAIL"
    using threshold_reached [of ?e t "c_findings c" now] assms(8) by auto
  ultimately show ?thesis by (simp add: get_FAIL_verdict)
qed

section \<open>What the reader guarantees\<close>

lemma kmsg_step_simps:
  "kmsg_step (now, late, Overrun) k = k\<lparr>k_ctx := ctx_add now overrun_event (k_ctx k)\<rparr>"
  "kmsg_step (now, late, Read_error) k = k"
  "kmsg_step (now, late, Would_block) k = (if k_pending k \<noteq> [] then write_pending k else k)"
  by (simp_all add: kmsg_step_def)

lemma write_frame [simp]: "k_last_seq (write_pending k) = k_last_seq k" "k_pending (write_pending k) = []"
  "k_lines_total (write_pending k) = k_lines_total k" "k_log (write_pending k) = k_log k @ k_pending k"
  by (simp_all add: write_pending_def)

lemma take_frame [simp]:
  "k_last_seq (take_record now rec k) = fst (snd rec)" "k_log (take_record now rec k) = k_log k"
  "k_lines_total (take_record now rec k) = k_lines_total k + 1"
  "k_pending (take_record now (level, seq, sec, msg) k) = k_pending k @ [log_line level sec msg]"
  by (simp_all add: take_record_def split: prod.split)

lemma step_old:
  "parse_record raw_text = Some rec \<Longrightarrow> fst (snd rec) \<le> k_last_seq k \<Longrightarrow> k_pending k = [] \<Longrightarrow>
   kmsg_step (now, late, Data raw_text) k = k"
  by (cases raw_text) (auto simp: kmsg_step_def)

lemma step_unparsed:
  "parse_record raw_text = None \<Longrightarrow> k_pending k = [] \<Longrightarrow> kmsg_step (now, late, Data raw_text) k = k"
  by (cases raw_text) (auto simp: kmsg_step_def)

lemma parse_record_empty [simp]: "parse_record [] = None"
  by code_simp

lemma step_new:
  assumes "parse_record raw_text = Some rec" "k_last_seq k < fst (snd rec)"
  shows "kmsg_step (now, late, Data raw_text) k = (let k1 = take_record now rec k in
    if length (k_pending k1) < 200 then k1 else write_pending k1)"
  using assms by (cases raw_text) (auto simp: kmsg_step_def)

lemma step_mono: "k_last_seq k \<le> k_last_seq (kmsg_step ev k)"
  by (auto simp: kmsg_step_def Let_def split: prod.split kmsg_read.split list.split option.split)

lemma steps_mono: "k_last_seq k \<le> k_last_seq (fold kmsg_step evs k)"
proof (induction evs arbitrary: k)
  case (Cons ev evs)
  then show ?case using step_mono [of k ev] by (metis fold_simps(2) order_trans)
qed simp

lemma step_covers: "parse_record raw_text = Some rec \<Longrightarrow> fst (snd rec) \<le> k_last_seq (kmsg_step (now, late, Data raw_text) k)"
  by (cases raw_text) (auto simp: kmsg_step_def Let_def)

lemma steps_cover:
  "(now, late, Data raw_text) \<in> set evs \<Longrightarrow> parse_record raw_text = Some rec \<Longrightarrow>
   fst (snd rec) \<le> k_last_seq (fold kmsg_step evs k)"
proof (induction evs arbitrary: k)
  case (Cons ev evs)
  then show ?case
  proof (cases "ev = (now, late, Data raw_text)")
    case True
    then show ?thesis using step_covers [OF Cons.prems(2), of now late k] steps_mono [of "kmsg_step ev k" evs] by simp
  qed auto
qed simp

text \<open>The cursor in the session is the reader's, whenever nothing waits to be written.\<close>

definition cursor_saved :: "kmsg_state \<Rightarrow> bool" where
  "cursor_saved k \<longleftrightarrow> (k_pending k = [] \<longrightarrow> k_last_seq (kmsg_start (k_ctx k)) = k_last_seq k)"

lemma cursor_step: "cursor_saved k \<Longrightarrow> cursor_saved (kmsg_step ev k)"
proof -
  assume k: "cursor_saved k"
  have w: "cursor_saved (write_pending k')" for k'
    by (simp add: cursor_saved_def kmsg_start_def write_pending_def dict_simps)
  have t: "cursor_saved (take_record now rec k')" for now rec k'
    by (simp add: cursor_saved_def take_record_def split: prod.split)
  have o: "cursor_saved (k\<lparr>k_ctx := ctx_add now overrun_event (k_ctx k)\<rparr>)" for now
    using k by (simp add: cursor_saved_def kmsg_start_def)
  show ?thesis using k w t o
    by (auto simp: kmsg_step_def Let_def split: prod.split kmsg_read.split list.split option.split)
qed

lemma cursor_steps: "cursor_saved k \<Longrightarrow> cursor_saved (fold kmsg_step evs k)"
  by (induction evs arbitrary: k) (auto intro: cursor_step)

lemma cursor_start: "cursor_saved (kmsg_start c)"
  by (simp add: cursor_saved_def kmsg_start_def)

lemma replay_unchanged:
  "k_pending k = [] \<Longrightarrow> \<forall>ev \<in> set evs. \<exists>now late raw_text. ev = (now, late, Data raw_text) \<and>
     (\<forall>rec. parse_record raw_text = Some rec \<longrightarrow> fst (snd rec) \<le> k_last_seq k) \<Longrightarrow> fold kmsg_step evs k = k"
proof (induction evs)
  case (Cons ev evs)
  then obtain now late raw_text where ev: "ev = (now, late, Data raw_text)"
    "\<forall>rec. parse_record raw_text = Some rec \<longrightarrow> fst (snd rec) \<le> k_last_seq k" by auto
  have "kmsg_step ev k = k"
    using ev Cons.prems(1) step_old step_unparsed by (cases "parse_record raw_text") auto
  with Cons show ?case by simp
qed simp

lemma seen_process [simp]: "seen g (process now level sec msg c) = seen g c"
  by (simp add: seen_def)

lemma step_boot: "c_boot_id (k_ctx (kmsg_step ev k)) = c_boot_id (k_ctx k)"
  by (auto simp: kmsg_step_def Let_def take_record_def write_pending_def ctx_add_def
      split: prod.split kmsg_read.split list.split option.split)

lemma steps_boot: "c_boot_id (k_ctx (fold kmsg_step evs k)) = c_boot_id (k_ctx k)"
  by (induction evs arbitrary: k) (simp_all add: step_boot)

text \<open>The cursor of the session: where the next start begins.  It never goes back.\<close>

definition log_cursor :: "ctx \<Rightarrow> int" where
  "log_cursor c = k_last_seq (kmsg_start c)"

lemma cursor_seen: "seen ''kmsg'' c = seen ''kmsg'' d \<Longrightarrow> log_cursor c = log_cursor d"
  by (simp add: log_cursor_def kmsg_start_def)

lemma cursor_write: "log_cursor (k_ctx (write_pending k)) = k_last_seq k"
  by (simp add: log_cursor_def kmsg_start_def write_pending_def dict_simps)

lemma cursor_take: "log_cursor (k_ctx (take_record now rec k)) = log_cursor (k_ctx k)"
  by (rule cursor_seen) (simp add: take_record_def split: prod.split)

lemma cursor_grows:
  "log_cursor (k_ctx k) \<le> k_last_seq k \<Longrightarrow>
   log_cursor (k_ctx k) \<le> log_cursor (k_ctx (kmsg_step ev k)) \<and> log_cursor (k_ctx (kmsg_step ev k)) \<le> k_last_seq (kmsg_step ev k)"
proof -
  assume k: "log_cursor (k_ctx k) \<le> k_last_seq k"
  have o: "log_cursor (ctx_add now overrun_event (k_ctx k)) = log_cursor (k_ctx k)" for now by (rule cursor_seen) simp
  show ?thesis using k
    by (auto simp: kmsg_step_def Let_def cursor_write cursor_take o
        split: prod.split kmsg_read.split list.split option.split)
qed

lemma cursor_grow:
  "log_cursor (k_ctx k) \<le> k_last_seq k \<Longrightarrow> log_cursor (k_ctx k) \<le> log_cursor (k_ctx (fold kmsg_step evs k))"
proof (induction evs arbitrary: k)
  case (Cons ev evs)
  from cursor_grows [OF Cons.prems, of ev] Cons.IH [of "kmsg_step ev k"] show ?case by simp
qed simp

text \<open>C40: a kernel message written to the log is not counted twice.  A service reads the kernel log;
  after the reads \<open>reads\<close> everything is written out.  It reads on, and at some later time the session is
  saved on a storage that takes it.  When the service starts again within the boot, from the disk,
  it finds this session; the kernel delivers the whole ring buffer again, and whatever of
  \<open>reads\<close> is read again, in any order, changes neither findings nor session and adds no line to
  the kernel log, for every context that carries the reopened session.\<close>

theorem restart_does_not_recount:
  assumes k: "k = fold kmsg_step reads (kmsg_start c)" "k_pending k = []"
    and s: "s = c_session (k_ctx (fold kmsg_step later k))" "can_save s" "0 \<le> s_seq s"
    and here: "pointed s" "s_base s = path_join sroot ''pccheck''"
      "is_running_for mid (s_state s)" "map_of ident ''machine_id'' = Some mid"
    and replay: "\<forall>ev \<in> set evs. \<exists>now late raw_text now' late'. ev = (now, late, Data raw_text) \<and> (now', late', Data raw_text) \<in> set reads"
  shows "\<exists>s'. session_open (c_boot_id c) clk stamp sroot ident opts plan (s_fs (session_save s)) = Inr s' \<and>
    (\<forall>c'. c_session c' = s' \<and> c_boot_id c' = c_boot_id c \<longrightarrow>
       k_ctx (kmsg_run now None evs c') = c' \<and> k_log (kmsg_run now None evs c') = [])"
proof -
  let ?c = "k_ctx (fold kmsg_step later k)"
  let ?s = "resume (c_boot_id c) clk (make_session (s_base s) (s_dir s) (s_state s) (s_seq s + 1) (s_fs (session_save s)))"
  have l: "log_cursor (k_ctx k) = k_last_seq k"
    using cursor_steps [OF cursor_start, of reads c] k(2) unfolding k(1) cursor_saved_def log_cursor_def by simp
  then have le: "k_last_seq k \<le> log_cursor ?c" using cursor_grow [of k later] by simp
  have b: "c_boot_id ?c = c_boot_id c" by (simp add: steps_boot k(1) kmsg_start_def)
  have "k_ctx (kmsg_run now None evs c') = c' \<and> k_log (kmsg_run now None evs c') = []"
    if c': "c_session c' = ?s" "c_boot_id c' = c_boot_id c" for c'
  proof -
    have "seen ''kmsg'' c' = counters_of (c_boot_id c) ''kmsg'' s"
      unfolding seen_def c' resume_counters by (simp only: counters_of_def make_session_def session.simps)
    also have "\<dots> = seen ''kmsg'' ?c" unfolding seen_def b s(1) ..
    finally have "seen ''kmsg'' c' = seen ''kmsg'' ?c" .
    from le cursor_seen [OF this] have "k_last_seq k \<le> k_last_seq (kmsg_start c')" unfolding log_cursor_def by linarith
    then have "\<forall>ev \<in> set evs. \<exists>now late raw_text. ev = (now, late, Data raw_text) \<and>
       (\<forall>rec. parse_record raw_text = Some rec \<longrightarrow> fst (snd rec) \<le> k_last_seq (kmsg_start c'))"
      using replay steps_cover [where evs = reads and k = "kmsg_start c"] unfolding k(1) by (meson order_trans)
    then have "fold kmsg_step evs (kmsg_start c') = kmsg_start c'"
      by (intro replay_unchanged) (simp_all add: kmsg_start_def)
    then show ?thesis by (simp add: kmsg_run_def kmsg_stop_def kmsg_start_def)
  qed
  then show ?thesis using reopen_saved [OF s(2,3) here] by blast
qed

definition records_of :: "(string \<times> bool \<times> kmsg_read) list \<Rightarrow> (int \<times> int \<times> rat \<times> string) list" where
  "records_of evs = List.map_filter (\<lambda>(now, late, r). case r of Data raw_text \<Rightarrow> parse_record raw_text | _ \<Rightarrow> None) evs"

lemma records_Cons: "records_of ((now, late, r) # evs) =
    (case r of Data raw_text \<Rightarrow> (case parse_record raw_text of None \<Rightarrow> [] | Some rec \<Rightarrow> [rec]) | _ \<Rightarrow> []) @ records_of evs"
  by (auto simp: records_of_def map_filter_simps split: kmsg_read.split option.split)

lemma step_other_log:
  "(case r of Data raw_text \<Rightarrow> parse_record raw_text = None | _ \<Rightarrow> True) \<Longrightarrow>
   k_log (kmsg_step (now, late, r) k) @ k_pending (kmsg_step (now, late, r) k) = k_log k @ k_pending k \<and>
   k_last_seq (kmsg_step (now, late, r) k) = k_last_seq k"
  by (auto simp: kmsg_step_def split: kmsg_read.split list.split)

lemma step_new_log:
  assumes "parse_record raw_text = Some (level, seq, sec, msg)" "k_last_seq k < seq"
  shows "k_log (kmsg_step (now, late, Data raw_text) k) @ k_pending (kmsg_step (now, late, Data raw_text) k)
      = k_log k @ k_pending k @ [log_line level sec msg] \<and> k_last_seq (kmsg_step (now, late, Data raw_text) k) = seq"
  using assms by (simp add: step_new Let_def)

lemma steps_log:
  "sorted_wrt (<) (k_last_seq k # map (fst \<circ> snd) (records_of evs)) \<Longrightarrow>
   k_log (fold kmsg_step evs k) @ k_pending (fold kmsg_step evs k) =
   k_log k @ k_pending k @ map (\<lambda>(level, seq, sec, msg). log_line level sec msg) (records_of evs)"
proof (induction evs arbitrary: k)
  case Nil
  then show ?case by (simp add: records_of_def map_filter_simps)
next
  case (Cons ev evs)
  obtain now late r where ev: "ev = (now, late, r)" by (cases ev)
  let ?k = "kmsg_step ev k"
  show ?case
  proof (cases "case r of Data raw_text \<Rightarrow> parse_record raw_text = None | _ \<Rightarrow> True")
    case True
    then have rec: "records_of (ev # evs) = records_of evs"
      by (auto simp: ev records_Cons split: kmsg_read.splits option.splits)
    have "k_last_seq ?k = k_last_seq k" "k_log ?k @ k_pending ?k = k_log k @ k_pending k"
      using step_other_log [OF True, of now late k] ev by simp_all
    with Cons.IH [of ?k] Cons.prems show ?thesis unfolding rec by (metis append_assoc fold_simps(2))
  next
    case False
    then obtain raw_text level seq sec msg where r: "r = Data raw_text" "parse_record raw_text = Some (level, seq, sec, msg)"
      by (auto split: kmsg_read.splits)
    then have rec: "records_of (ev # evs) = (level, seq, sec, msg) # records_of evs" by (simp add: ev records_Cons)
    with Cons.prems have "k_last_seq k < seq" "sorted_wrt (<) (seq # map (fst \<circ> snd) (records_of evs))"
      by (simp_all add: comp_def)
    moreover from step_new_log [OF r(2) this(1), of now late]
    have "k_last_seq ?k = seq" "k_log ?k @ k_pending ?k = (k_log k @ k_pending k) @ [log_line level sec msg]"
      by (simp_all add: ev r(1))
    ultimately have "k_log (fold kmsg_step evs ?k) @ k_pending (fold kmsg_step evs ?k) = (k_log ?k @ k_pending ?k) @
        map (\<lambda>(level, seq, sec, msg). log_line level sec msg) (records_of evs)"
      using Cons.IH [of ?k] by (simp add: comp_def)
    then show ?thesis unfolding rec \<open>k_log ?k @ k_pending ?k = _\<close> by simp
  qed
qed

text \<open>No kernel message is lost.  Records that arrive with increasing sequence numbers are all
  in the log file when the reader stops, each once and in order, whatever the batching.\<close>

theorem kernel_log_complete:
  assumes "sorted_wrt (<) (k_last_seq (kmsg_start c) # map (fst \<circ> snd) (records_of reads))"
  shows "k_log (kmsg_run now None reads c) = map (\<lambda>(level, seq, sec, msg). log_line level sec msg) (records_of reads)"
  using steps_log [OF assms] by (simp add: kmsg_run_def kmsg_stop_def kmsg_start_def)


section \<open>Witnesses\<close>

definition blank_ctx :: ctx where
  "blank_ctx = \<lparr>c_opts = default_options, c_persistent = True, c_session = first_session,
     c_findings = findings_init ''findings.json'' blank_disk, c_boot_disk = ''sda'', c_sysfs_counters = [],
     c_abort = False, c_dm = None, c_status_note = [], c_telemetry = None, c_temps = [], c_final_verdict = None,
     c_reboot_request = None, c_boot_id = ''boot1''\<rparr>"

lemma blank_ctx [simp]:
  "c_opts blank_ctx = default_options" "c_session blank_ctx = first_session" "c_boot_disk blank_ctx = ''sda''"
  "c_sysfs_counters blank_ctx = []" "c_boot_id blank_ctx = ''boot1''" "c_abort blank_ctx = False"
  "findings_ok (c_findings blank_ctx)" "findings_get (c_findings blank_ctx) k = None"
  "c_persistent blank_ctx" "c_dm blank_ctx = None" "c_reboot_request blank_ctx = None"
  by (simp_all add: blank_ctx_def)

lemma seen_blank [simp]: "seen g blank_ctx = []"
  by (simp add: seen_def counters_of_def first_session_def make_session_def new_state_def dict_get_def)

lemma RULES_samples:
  "r \<in> set RULES \<Longrightarrow> r_id r = ''edac-ue'' \<Longrightarrow> r_severity r = FAIL \<and> \<not> r_ignore_at_boot r"
  "r \<in> set RULES \<Longrightarrow> r_id r = ''edac-ce'' \<Longrightarrow> r_severity r = WARN \<and> r_boot_title r = None \<and>
     r_key_group r = None \<and> \<not> r_ignore_at_boot r \<and> r_counter r = Some ''edac''"
proof -
  have "list_all (\<lambda>r. (r_id r = ''edac-ue'' \<longrightarrow> r_severity r = FAIL \<and> \<not> r_ignore_at_boot r) \<and>
     (r_id r = ''edac-ce'' \<longrightarrow> r_severity r = WARN \<and> r_boot_title r = None \<and>
        r_key_group r = None \<and> \<not> r_ignore_at_boot r \<and> r_counter r = Some ''edac'')) RULES"
    unfolding RULES_def Rule_def by (simp del: append_Cons)
  then show "r \<in> set RULES \<Longrightarrow> r_id r = ''edac-ue'' \<Longrightarrow> r_severity r = FAIL \<and> \<not> r_ignore_at_boot r"
    "r \<in> set RULES \<Longrightarrow> r_id r = ''edac-ce'' \<Longrightarrow> r_severity r = WARN \<and> r_boot_title r = None \<and>
     r_key_group r = None \<and> \<not> r_ignore_at_boot r \<and> r_counter r = Some ''edac''"
    by (simp_all add: list_all_iff)
qed

lemma sample_rules:
  "\<exists>r m. classify ''EDAC MC0: 1 UE on DIMM_A1'' = Some (r, m) \<and> r_id r = ''edac-ue''"
  "\<exists>r m. classify ''EDAC MC0: 1 CE on DIMM_A1'' = Some (r, m) \<and> r_id r = ''edac-ce''"
  by (rule rule_of_classify; use RULES_checked in \<open>simp add: Let_def\<close>)+

theorem fatal_message_fails_witness:
  "verdict (c_findings (process ''t'' 3 200 ''EDAC MC0: 1 UE on DIMM_A1'' (blank_ctx\<lparr>c_sysfs_counters := [''edac'']\<rparr>))) False = FAILED"
proof -
  obtain r m where c: "classify ''EDAC MC0: 1 UE on DIMM_A1'' = Some (r, m)" "r_id r = ''edac-ue''" using sample_rules by blast
  show ?thesis by (rule fatal_message_fails [OF c(1)])
    (simp_all add: RULES_samples(1) [OF classify_rule [OF c(1)] c(2)] c(2) blames_boot_disk_def storage_rules_def)
qed

theorem kernel_panic_fails_witness:
  "verdict (c_findings (process ''t'' 0 5 ''Kernel panic - not syncing: MCE'' blank_ctx)) False = FAILED"
  by (rule kernel_panic_fails) (simp add: str_in_iff, rule exI [of _ "[]"], simp)

theorem threshold_message_fails_witness:
  "verdict (c_findings (process ''t'' 3 200 ''EDAC MC0: 1 CE on DIMM_A1'' blank_ctx)) False = FAILED"
proof -
  obtain r m where c: "classify ''EDAC MC0: 1 CE on DIMM_A1'' = Some (r, m)" "r_id r = ''edac-ce''" using sample_rules by blast
  show ?thesis
    by (rule threshold_message_fails [OF c(1), where t = 1 and key = "''edac-ce''" and title = "r_title r"])
      (simp_all add: RULES_samples(2) [OF classify_rule [OF c(1)] c(2)] c(2) threshold_of_def default_options_def owned_def
        label_of_def bootdisk_label_def bert_label_def boot_label_def base_label_def device_key_def storage_rules_def
        endswith_def old_count_def BOOT_WINDOW_def)
qed

definition reader_ctx :: ctx where
  "reader_ctx = blank_ctx\<lparr>c_session := first_session, c_boot_id := ''boot1''\<rparr>"

text \<open>A record is read and written out, and another one is still waiting when the session is saved.\<close>

abbreviation sample_reads :: "(string \<times> bool \<times> kmsg_read) list" where
  "sample_reads \<equiv> [(''t'', False, Data ''6,7,100;usb 1-1: new device''), (''t'', True, Would_block)]"

abbreviation sample_later :: "(string \<times> bool \<times> kmsg_read) list" where
  "sample_later \<equiv> [(''t'', False, Data ''6,8,200;x'')]"

abbreviation sample_replay :: "(string \<times> bool \<times> kmsg_read) list" where
  "sample_replay \<equiv> [(''t2'', False, Data ''6,7,100;usb 1-1: new device'')]"

lemma sample_session:
  "k_pending (fold kmsg_step sample_reads (kmsg_start reader_ctx)) = []" (is "k_pending ?k = []")
  "c_session (k_ctx (fold kmsg_step sample_later (fold kmsg_step sample_reads (kmsg_start reader_ctx))))
    = put_counter ''boot1'' ''kmsg'' ''last_seq'' (Count 7) first_session" (is ?session)
proof -
  have "map_option (fst \<circ> snd) (parse_record ''6,7,100;usb 1-1: new device'') = Some 7"
    "map_option (fst \<circ> snd) (parse_record ''6,8,200;x'') = Some 8" by code_simp+
  then obtain l7 s7 m7 l8 s8 m8 where r: "parse_record ''6,7,100;usb 1-1: new device'' = Some (l7, 7, s7, m7)"
    "parse_record ''6,8,200;x'' = Some (l8, 8, s8, m8)" by auto
  define k1 where "k1 = take_record ''t'' (l7, 7, s7, m7) (kmsg_start reader_ctx)"
  have "k_last_seq (kmsg_start reader_ctx) = -1" "k_pending (kmsg_start reader_ctx) = []"
    by (simp_all add: kmsg_start_def seen_def counters_of_def dict_get_def reader_ctx_def first_session_def
        make_session_def new_state_def)
  then have 1: "kmsg_step (''t'', False, Data ''6,7,100;usb 1-1: new device'') (kmsg_start reader_ctx) = k1"
    "k_pending k1 \<noteq> []" "k_last_seq k1 = 7" "c_session (k_ctx k1) = first_session" "c_boot_id (k_ctx k1) = ''boot1''"
    using step_new [OF r(1), of "kmsg_start reader_ctx" "''t''" False]
    by (simp_all add: k1_def Let_def take_record_def kmsg_start_def reader_ctx_def)
  then have k: "?k = write_pending k1" by (simp add: kmsg_step_simps)
  then show "k_pending ?k = []" by simp
  have "kmsg_step (''t'', False, Data ''6,8,200;x'') (write_pending k1) = take_record ''t'' (l8, 8, s8, m8) (write_pending k1)"
    using step_new [OF r(2), of "write_pending k1" "''t''" False] 1 by (simp add: Let_def)
  then show ?session
    unfolding k using 1 by (simp add: take_record_def write_pending_def put_seen_def ctx_session_def)
qed

theorem restart_does_not_recount_witness:
  "\<exists>s'. session_open ''boot1'' clock0 ''stamp'' ''/mnt'' [(''machine_id'', ''m'')] default_options []
      (s_fs (session_save (c_session (k_ctx (fold kmsg_step sample_later (fold kmsg_step sample_reads (kmsg_start reader_ctx))))))) = Inr s' \<and>
     k_ctx (kmsg_run ''t2'' None sample_replay (reader_ctx\<lparr>c_session := s'\<rparr>)) = reader_ctx\<lparr>c_session := s'\<rparr>"
proof -
  let ?s = "c_session (k_ctx (fold kmsg_step sample_later (fold kmsg_step sample_reads (kmsg_start reader_ctx))))"
  have s: "can_save ?s" "0 \<le> s_seq ?s" "pointed ?s" "s_base ?s = path_join ''/mnt'' ''pccheck''" "is_running_for ''m'' (s_state ?s)"
    using first_session(2-6) unfolding sample_session(2)
    by (simp_all add: put_counter_def pointed_def is_running_for_def)
  have "\<exists>s'. session_open (c_boot_id reader_ctx) clock0 ''stamp'' ''/mnt'' [(''machine_id'', ''m'')] default_options []
      (s_fs (session_save ?s)) = Inr s' \<and>
    (\<forall>c'. c_session c' = s' \<and> c_boot_id c' = c_boot_id reader_ctx \<longrightarrow>
       k_ctx (kmsg_run ''t2'' None sample_replay c') = c' \<and> k_log (kmsg_run ''t2'' None sample_replay c') = [])"
    by (rule restart_does_not_recount [OF refl sample_session(1) refl s]) auto
  then show ?thesis by (auto simp: reader_ctx_def)
qed

theorem kernel_log_complete_witness:
  "k_log (kmsg_run ''t'' None [(''t'', False, Data ''6,7,100;a''), (''t'', False, Data ''4,9,200;b''), (''t'', True, Would_block)] blank_ctx)
     = map (\<lambda>(level, seq, sec, msg). log_line level sec msg)
       (records_of [(''t'', False, Data ''6,7,100;a''), (''t'', False, Data ''4,9,200;b''), (''t'', True, Would_block)])"
proof (rule kernel_log_complete)
  have "map (fst \<circ> snd) (records_of [(''t'', False, Data ''6,7,100;a''), (''t'', False, Data ''4,9,200;b''), (''t'', True, Would_block)]) = [7, 9]"
    by code_simp
  then show "sorted_wrt (<) (k_last_seq (kmsg_start blank_ctx) #
      map (fst \<circ> snd) (records_of [(''t'', False, Data ''6,7,100;a''), (''t'', False, Data ''4,9,200;b''), (''t'', True, Would_block)]))"
    by (simp add: kmsg_start_def)
qed

section \<open>A disk that only looks like the boot disk\<close>

text \<open>
  The test \<open>ctx.boot_disk in message\<close> is a substring test, so on a machine with more than 26
  disks an I/O error of \<open>sdab\<close> is blamed on the boot disk \<open>sda\<close> and stays a warning.
\<close>

lemma boot_disk_is_matched_as_substring:
  "label_of r m False ''I/O error, dev sdab, sector 8'' (blank_ctx\<lparr>c_boot_disk := ''sda''\<rparr>)
     = (''bootdisk:disk-io-error'', WARN, ''I/O errors on the PC-Check USB boot device (USB stick/port, not the tested hardware)'')"
  if "r_id r = ''disk-io-error''"
proof -
  have "str_in ''sda'' ''I/O error, dev sdab, sector 8''" by code_simp
  with that show ?thesis by (simp add: label_of_def bootdisk_label_def storage_rules_def)
qed

end
