(* ===== verification/PyJson.thy ===== *)
theory PyJson
  imports PyValue
begin

text \<open>
  Operations of Python on the values of \<open>json.loads\<close> that the parsers of tool output use: chains
  of \<open>get\<close>, membership, iteration, indexing, comparison with an integer, and \<open>str\<close>.  An operation
  on a value of the wrong class raises, as in Python.
\<close>

section \<open>Access\<close>

text \<open>\<open>x.get(k1, {}).get(k2, {}) ... .get(k, d)\<close>.\<close>

fun py_path :: "pyval \<Rightarrow> string list \<Rightarrow> pyval \<Rightarrow> exn + pyval" where
  "py_path v [] d = Inr v"
| "py_path v [k] d = py_get v k d"
| "py_path v (k # k2 # ks) d = ebind (py_get v k (PDict [])) (\<lambda>w. py_path w (k2 # ks) d)"

text \<open>\<open>a or b\<close>; the second operand is evaluated only when the first is false.\<close>

definition py_or :: "exn + pyval \<Rightarrow> exn + pyval \<Rightarrow> exn + pyval" where
  "py_or a b = ebind a (\<lambda>v. if truthy v then Inr v else b)"

text \<open>\<open>k in x\<close>.\<close>

fun py_contains :: "pyval \<Rightarrow> string \<Rightarrow> exn + bool" where
  "py_contains (PDict d) k = Inr (has_key d k)"
| "py_contains (PList xs) k = Inr (PStr k \<in> set xs)"
| "py_contains (PStr s) k = Inr (str_in k s)"
| "py_contains _ k = Inl (TypeError ''argument is not iterable'')"

text \<open>\<open>any(k in x for k in ks)\<close>.\<close>

fun py_any_in :: "pyval \<Rightarrow> string list \<Rightarrow> exn + bool" where
  "py_any_in v [] = Inr False"
| "py_any_in v (k # ks) = ebind (py_contains v k) (\<lambda>b. if b then Inr True else py_any_in v ks)"

text \<open>\<open>x[k]\<close> with a string, and \<open>x[0]\<close>.\<close>

fun py_item :: "pyval \<Rightarrow> string \<Rightarrow> exn + pyval" where
  "py_item (PDict d) k = (case map_of d k of Some v \<Rightarrow> Inr v | None \<Rightarrow> Inl (KeyError k))"
| "py_item _ k = Inl (TypeError ''indices must be integers'')"

fun py_first :: "pyval \<Rightarrow> exn + pyval" where
  "py_first (PList []) = Inl (IndexError ''list index out of range'')"
| "py_first (PList (x # xs)) = Inr x"
| "py_first (PStr []) = Inl (IndexError ''string index out of range'')"
| "py_first (PStr (c # cs)) = Inr (PStr [c])"
| "py_first (PDict d) = Inl (KeyError ''0'')"
| "py_first _ = Inl (TypeError ''object is not subscriptable'')"

fun py_iter :: "pyval \<Rightarrow> exn + pyval list" where
  "py_iter (PList xs) = Inr xs"
| "py_iter (PDict d) = Inr (map (\<lambda>p. PStr (fst p)) d)"
| "py_iter (PStr s) = Inr (map (\<lambda>c. PStr [c]) s)"
| "py_iter _ = Inl (TypeError ''object is not iterable'')"

text \<open>A value used as a key of a dictionary: \<open>1\<close>, \<open>1.0\<close> and \<open>True\<close> are the same key.\<close>

fun py_key :: "pyval \<Rightarrow> exn + pyval" where
  "py_key (PBool b) = Inr (PInt (if b then 1 else 0))"
| "py_key (PFloat (Fin x)) = Inr (if x = of_int \<lfloor>x\<rfloor> then PInt \<lfloor>x\<rfloor> else PFloat (Fin x))"
| "py_key (PList xs) = Inl (TypeError ''unhashable type: 'list' '')"
| "py_key (PDict d) = Inl (TypeError ''unhashable type: 'dict' '')"
| "py_key v = Inr v"

text \<open>\<open>x == n\<close> for an integer \<open>n\<close>.\<close>

fun py_eq_int :: "pyval \<Rightarrow> int \<Rightarrow> bool" where
  "py_eq_int (PInt i) n = (i = n)"
| "py_eq_int (PBool b) n = ((if b then 1 else 0) = n)"
| "py_eq_int (PFloat x) n = (x = Fin (of_int n))"
| "py_eq_int _ n = False"

text \<open>\<open>a == b\<close>: numbers compare by value, dictionaries without regard to the order of their keys.\<close>

fun py_num :: "pyval \<Rightarrow> pyfloat option" where
  "py_num (PBool b) = Some (Fin (if b then 1 else 0))"
| "py_num (PInt i) = Some (Fin (of_int i))"
| "py_num (PFloat x) = (if x = NaN then None else Some x)"
| "py_num _ = None"

lemma zip_size: "(x, y) \<in> set (zip xs ys) \<Longrightarrow> size x < Suc (size_list size xs)"
  by (induction xs ys rule: list_induct2') auto

lemma dict_size: "(k, v) \<in> set (d :: (string \<times> pyval) list) \<Longrightarrow> size v < Suc (size_list (size_prod (\<lambda>_. 0) size) d)"
  by (induction d) (auto simp: size_list_def)

function py_equal :: "pyval \<Rightarrow> pyval \<Rightarrow> bool" where
  "py_equal (PList xs) w = (case w of PList ys \<Rightarrow> length xs = length ys \<and> (\<forall>p \<in> set (zip xs ys). py_equal (fst p) (snd p)) | _ \<Rightarrow> False)"
| "py_equal (PDict d) w = (case w of PDict e \<Rightarrow> fst ` set d = fst ` set e \<and>
     (\<forall>p \<in> set d. case map_of e (fst p) of Some v \<Rightarrow> py_equal (snd p) v | None \<Rightarrow> False) | _ \<Rightarrow> False)"
| "py_equal PNone w = (w = PNone)"
| "py_equal (PStr s) w = (w = PStr s)"
| "py_equal (PBool b) w = (py_num w = py_num (PBool b))"
| "py_equal (PInt i) w = (py_num w = py_num (PInt i))"
| "py_equal (PFloat x) w = (x \<noteq> NaN \<and> py_num w = Some x)"
  by pat_completeness auto
termination
  by (relation "measure (\<lambda>q. size (fst q))") (auto intro: zip_size dict_size)

text \<open>A value that must be a string: a method of \<open>str\<close> on anything else raises.\<close>

fun py_as_str :: "pyval \<Rightarrow> exn + string" where
  "py_as_str (PStr s) = Inr s"
| "py_as_str _ = Inl (AttributeError ''object is not a string'')"

section \<open>Text\<close>

definition nibble :: "nat \<Rightarrow> char" where
  "nibble n = char_of (if n < 10 then 48 + n else 87 + n)"

definition quote_char :: "char \<Rightarrow> char \<Rightarrow> string" where
  "quote_char q c = (let n = code_point c in
     if c = q \<or> n = 92 then [CHR 0x5C, c]
     else if n = 10 then [CHR 0x5C, CHR ''n''] else if n = 13 then [CHR 0x5C, CHR ''r'']
     else if n = 9 then [CHR 0x5C, CHR ''t'']
     else if n < 32 \<or> (127 \<le> n \<and> n \<le> 160) \<or> n = 173 then [CHR 0x5C, CHR ''x'', nibble (n div 16), nibble (n mod 16)]
     else [c])"

definition str_repr :: "string \<Rightarrow> string" where
  "str_repr s = (let q = (if CHR 0x27 \<in> set s \<and> CHR 0x22 \<notin> set s then CHR 0x22 else CHR 0x27)
     in q # concat (map (quote_char q) s) @ [q])"

function py_repr :: "pyval \<Rightarrow> string" where
  "py_repr PNone = ''None''"
| "py_repr (PBool b) = (if b then ''True'' else ''False'')"
| "py_repr (PInt i) = int_str i"
| "py_repr (PFloat x) = float_repr x"
| "py_repr (PStr s) = str_repr s"
| "py_repr (PList xs) = ''['' @ join '', '' (map py_repr xs) @ '']''"
| "py_repr (PDict d) = ''{'' @ join '', '' (map (\<lambda>p. str_repr (fst p) @ '': '' @ py_repr (snd p)) d) @ ''}''"
  by pat_completeness auto
termination
proof (relation "measure size")
  fix d p assume "p \<in> set (d :: (string \<times> pyval) list)"
  then show "(snd p, PDict d) \<in> measure size"
    by (induction d) (auto simp: size_list_def)
qed (auto simp: size_list_estimation' less_Suc_eq_le)

fun py_str :: "pyval \<Rightarrow> string" where
  "py_str (PStr s) = s"
| "py_str v = py_repr v"

section \<open>Laws\<close>

lemma py_path_PDict [simp]:
  "py_path (PDict d) [k] v = Inr (dict_get d k v)"
  "py_path (PDict d) (k # k2 # ks) v = py_path (dict_get d k (PDict [])) (k2 # ks) v"
  by simp_all

lemma py_or_Inr: "py_or a b = Inr v \<Longrightarrow> a = Inr v \<and> truthy v \<or> (\<exists>w. a = Inr w \<and> \<not> truthy w \<and> b = Inr v)"
  by (auto simp: py_or_def split: if_splits)

end
