(* ===== verification/Monitors.thy ===== *)
theory Monitors
  imports Kmsg
begin

text \<open>
  Models the polling monitors of \<open>monitors.py\<close>: EDAC, PCIe AER, thermal throttling,
  temperatures, the BMC (event log and sensors) and the network counters.  A poll is a function
  of one reading \<open>sy\<close> of the operating system, the time and the context.  Every poll is an
  instance of the contract \<open>hardware_monitor\<close>.
\<close>

section \<open>EDAC\<close>

definition EDAC_ROOT :: string where
  "EDAC_ROOT = ''/sys/devices/system/edac/mc''"

type_synonym edac_entry = "string \<times> string \<times> int \<times> int"   \<comment> \<open>key, label, ce, ue\<close>

definition edac_dimms :: "sys \<Rightarrow> string \<Rightarrow> string list" where
  "edac_dimms sy mc = (let d = sort (glob sy (path_join mc ''dimm[0-9]*''))
     in if d = [] then sort (glob sy (path_join mc ''rank[0-9]*'')) else d)"

definition edac_dimm :: "sys \<Rightarrow> string \<Rightarrow> string \<Rightarrow> edac_entry" where
  "edac_dimm sy mcname dimm =
    (let label0 = or_else (strip (read_file sy (path_join dimm ''dimm_label''))) (mcname @ ''/'' @ basename dimm);
         loc = strip (read_file sy (path_join dimm ''dimm_location''));
         label = (if loc \<noteq> [] then label0 @ '' ('' @ loc @ '')'' else label0)
     in (mcname @ ''/'' @ basename dimm, label,
         read_int sy (path_join dimm ''dimm_ce_count'') 0, read_int sy (path_join dimm ''dimm_ue_count'') 0))"

definition add_entry :: "edac_entry \<Rightarrow> (string, string \<times> int \<times> int) dict \<Rightarrow> (string, string \<times> int \<times> int) dict" where
  "add_entry e d = AList.update (fst e) (snd e) d"

definition edac_mc :: "sys \<Rightarrow> string \<Rightarrow> (string, string \<times> int \<times> int) dict \<Rightarrow> (string, string \<times> int \<times> int) dict" where
  "edac_mc sy mc d =
    (let mcname = basename mc;
         d1 = fold (\<lambda>dimm. add_entry (edac_dimm sy mcname dimm)) (edac_dimms sy mc) d;
         mine = filter (\<lambda>kv. startswith (fst kv) (mcname @ ''/'')) d1;
         dimm_ce = sum_list (map (\<lambda>(k, l, ce, ue). ce) mine);
         dimm_ue = sum_list (map (\<lambda>(k, l, ce, ue). ue) mine);
         ce = max (read_int sy (path_join mc ''ce_noinfo_count'') 0) (read_int sy (path_join mc ''ce_count'') 0 - dimm_ce);
         ue = max (read_int sy (path_join mc ''ue_noinfo_count'') 0) (read_int sy (path_join mc ''ue_count'') 0 - dimm_ue)
     in add_entry (mcname @ ''/noinfo'', mcname @ '' (DIMM unknown)'', ce, ue) d1)"

definition edac_counts :: "sys \<Rightarrow> (string, string \<times> int \<times> int) dict" where
  "edac_counts sy = fold (edac_mc sy) (sort (glob sy (path_join EDAC_ROOT ''mc[0-9]*''))) []"

definition CE_DETAIL :: string where
  "CE_DETAIL = ''The memory controller corrected bit errors. New DIMMs should not produce any corrected errors under stress; this DIMM is likely to fail in production.''"

definition arrow :: "int \<Rightarrow> int \<Rightarrow> string" where
  "arrow a b = int_str a @ '' -> '' @ int_str b"

definition ce_event :: "string \<Rightarrow> string \<Rightarrow> int \<Rightarrow> int \<Rightarrow> event" where
  "ce_event now label prev ce = (event (''memory-ce:'' @ label) WARN ''Memory'' (''Corrected memory errors (ECC) on '' @ label))
     \<lparr>ev_detail := CE_DETAIL, ev_recommendation := REC_MEMORY, ev_count := ce - prev,
      ev_evidence := [now @ '' '' @ label @ '': ce_count '' @ arrow prev ce]\<rparr>"

definition ue_event :: "string \<Rightarrow> string \<Rightarrow> int \<Rightarrow> int \<Rightarrow> event" where
  "ue_event now label prev ue = (event (''memory-ue:'' @ label) FAIL ''Memory'' (''Uncorrectable memory errors on '' @ label))
     \<lparr>ev_recommendation := REC_MEMORY, ev_count := ue - prev,
      ev_evidence := [now @ '' '' @ label @ '': ue_count '' @ arrow prev ue]\<rparr>"

definition seen_pair :: "counters \<Rightarrow> string \<Rightarrow> int \<times> int" where
  "seen_pair d k = (case map_of d k of Some (Pair a b) \<Rightarrow> (a, b) | _ \<Rightarrow> (0, 0))"

definition edac_ce :: "string \<Rightarrow> string \<Rightarrow> int \<Rightarrow> int \<Rightarrow> ctx \<Rightarrow> ctx" where
  "edac_ce now label prev ce c = (if ce > prev
     then ctx_escalate_at (ce_fail (c_opts c)) (''memory-ce:'' @ label) (ctx_add now (ce_event now label prev ce) c) else c)"

definition edac_ue :: "string \<Rightarrow> string \<Rightarrow> int \<Rightarrow> int \<Rightarrow> ctx \<Rightarrow> ctx" where
  "edac_ue now label prev ue c = (if ue > prev then ctx_add now (ue_event now label prev ue) c else c)"

definition edac_entry :: "string \<Rightarrow> edac_entry \<Rightarrow> ctx \<Rightarrow> ctx" where
  "edac_entry now e c = (case e of (key, label, ce, ue) \<Rightarrow>
     let (prev_ce, prev_ue) = seen_pair (seen ''edac'' c) key
     in put_seen ''edac'' key (Pair ce ue) (edac_ue now label prev_ue ue (edac_ce now label prev_ce ce c)))"

definition edac_poll :: "string \<times> sys \<Rightarrow> ctx \<Rightarrow> outcome" where
  "edac_poll r c = ok (fold (edac_entry (fst r)) (edac_counts (snd r)) c)"

section \<open>PCIe AER\<close>

definition aer_line :: "string \<Rightarrow> (string, int) dict \<Rightarrow> exn + (string, int) dict" where
  "aer_line line counts = (case split_ws line of
     [name, n] \<Rightarrow> if py_isdigit n then (case py_int n of Some i \<Rightarrow> Inr (AList.update name i counts)
         | None \<Rightarrow> Inl (ValueError (''invalid literal for int() with base 10: '' @ n))) else Inr counts
   | _ \<Rightarrow> Inr counts)"

definition parse_aer_file :: "string \<Rightarrow> exn + (string, int) dict" where
  "parse_aer_file text = efold aer_line (splitlines text) []"

definition pci_name :: "sys \<Rightarrow> string \<Rightarrow> string" where
  "pci_name sy bdf = (case split1 (CHR '' '') (strip (out sy [''lspci'', ''-s'', bdf])) of
     (_, Some rest) \<Rightarrow> rest | _ \<Rightarrow> bdf)"

definition AER_KINDS :: "(string \<times> string \<times> severity) list" where
  "AER_KINDS = [(''correctable'', ''TOTAL_ERR_COR'', WARN), (''nonfatal'', ''TOTAL_ERR_NONFATAL'', FAIL),
     (''fatal'', ''TOTAL_ERR_FATAL'', FAIL)]"

definition aer_details :: "(string, int) dict \<Rightarrow> string" where
  "aer_details counts = join '', '' (map (\<lambda>(k, v). k @ ''='' @ int_str v)
     (filter (\<lambda>(k, v). v \<noteq> 0 \<and> \<not> startswith k ''TOTAL'') counts))"

definition aer_event :: "string \<Rightarrow> sys \<Rightarrow> string \<Rightarrow> string \<Rightarrow> severity \<Rightarrow> int \<Rightarrow> (string, int) dict \<Rightarrow> event" where
  "aer_event now sy bdf kind sev delta counts =
    (let corrected = (kind = ''correctable'');
         key = (if corrected then ''aer-corrected:'' else ''aer-uncorrected:'') @ bdf;
         title = (if corrected then ''Corrected'' else ''Uncorrected'') @ '' PCIe errors on '' @ bdf @ '' '' @ pci_name sy bdf
     in (event key sev ''PCIe'' title)\<lparr>ev_recommendation := REC_PCIE, ev_count := delta,
          ev_evidence := [now @ '' '' @ kind @ '': '' @ aer_details counts]\<rparr>)"

definition aer_account :: "string \<Rightarrow> sys \<Rightarrow> string \<Rightarrow> string \<Rightarrow> severity \<Rightarrow> int \<Rightarrow> (string, int) dict \<Rightarrow> ctx \<Rightarrow> ctx" where
  "aer_account now sy bdf kind sev n counts c =
    (let seen_key = bdf @ '':'' @ kind; prev = seen_count (seen ''aer'' c) seen_key;
         c1 = (if n > prev then
                 let c' = ctx_add now (aer_event now sy bdf kind sev (n - prev) counts) c
                 in if kind = ''correctable'' then ctx_escalate_at (aer_fail (c_opts c)) (''aer-corrected:'' @ bdf) c' else c'
               else c)
     in put_seen ''aer'' seen_key (Count n) c1)"

definition aer_kind :: "string \<Rightarrow> sys \<Rightarrow> string \<Rightarrow> string \<times> string \<times> severity \<Rightarrow> ctx \<Rightarrow> outcome" where
  "aer_kind now sy path k c = (case k of (kind, total_key, sev) \<Rightarrow>
     (case parse_aer_file (read_file sy (path_join path (''aer_dev_'' @ kind))) of
        Inl e \<Rightarrow> raise e c
      | Inr counts \<Rightarrow> if counts = [] then ok c
          else ok (aer_account now sy (basename path) kind sev (dict_get counts total_key 0) counts c)))"

definition aer_poll :: "string \<times> sys \<Rightarrow> ctx \<Rightarrow> outcome" where
  "aer_poll r c = for_each (\<lambda>path. for_each (aer_kind (fst r) (snd r) path) AER_KINDS)
     (glob (snd r) ''/sys/bus/pci/devices/*'') c"

section \<open>Thermal throttling\<close>

definition throttle_package :: "sys \<Rightarrow> string \<Rightarrow> (string, int) dict \<Rightarrow> (string, int) dict" where
  "throttle_package sy cpu packages =
    (let pkg = strip (read_file sy (path_join cpu ''topology/physical_package_id''));
         cnt = read_int sy (path_join cpu ''thermal_throttle/package_throttle_count'') 0
     in AList.update pkg (max (dict_get packages pkg 0) cnt) packages)"

definition throttle_counts :: "sys \<Rightarrow> (string, int) dict" where
  "throttle_counts sy =
    [(''core'', sum_list (map (\<lambda>cpu. read_int sy (path_join cpu ''core_throttle_count'') 0)
        (glob sy ''/sys/devices/system/cpu/cpu[0-9]*/thermal_throttle''))),
     (''package'', sum_list (map snd (fold (throttle_package sy) (glob sy ''/sys/devices/system/cpu/cpu[0-9]*'') [])))]"

definition THROTTLE_DETAIL :: string where
  "THROTTLE_DETAIL = ''The CPU reduced its speed because it reached its temperature limit. Under production load this costs performance and indicates marginal cooling.''"

definition throttle_delta :: "(string, int) dict \<Rightarrow> counters \<Rightarrow> int" where
  "throttle_delta counts s = sum_list (map (\<lambda>(k, n). max 0 (n - seen_count s k)) counts)"

definition throttle_event :: "string \<Rightarrow> (string, int) dict \<Rightarrow> int \<Rightarrow> ctx \<Rightarrow> event" where
  "throttle_event now counts delta c = (event ''thermal-throttle'' WARN ''Thermal'' ''CPU thermal throttling occurred'')
     \<lparr>ev_detail := THROTTLE_DETAIL, ev_recommendation := REC_THERMAL, ev_count := delta,
      ev_evidence := [now @ '' core_throttle_count='' @ int_str (dict_get counts ''core'' 0) @ '' package_throttle_count='' @
        int_str (dict_get counts ''package'' 0) @ '' (phase '' @ fs_current_phase (c_findings c) @ '')'']\<rparr>"

definition throttle_poll :: "string \<times> sys \<Rightarrow> ctx \<Rightarrow> outcome" where
  "throttle_poll r c =
    (let counts = throttle_counts (snd r); delta = throttle_delta counts (seen ''throttle'' c);
         c1 = (if delta > 0 then ctx_add (fst r) (throttle_event (fst r) counts delta c) c else c)
     in ok (fold (\<lambda>(k, n). put_seen ''throttle'' k (Count n)) counts c1))"

section \<open>Temperatures\<close>

record reading =
  rd_chip :: string
  rd_label :: string
  rd_kind :: string
  rd_value :: pyfloat
  rd_max :: pyval
  rd_crit :: pyval
  rd_alarm :: bool

definition SENSOR_RE :: regex where
  "SENSOR_RE = re_compile no_flags (raw ''(temp|fan|in|power|curr)(`d+)_input$'')"

text \<open>\<open>isinstance(value, (int, float))\<close> and \<open>float(value)\<close>; an integer beyond the range of
  doubles raises \<open>OverflowError\<close>.\<close>

fun number_of :: "pyval \<Rightarrow> pyfloat option" where
  "number_of (PInt i) = Some (Fin (of_int i))"
| "number_of (PBool b) = Some (Fin (if b then 1 else 0))"
| "number_of (PFloat x) = Some x"
| "number_of _ = None"

definition as_float :: "pyfloat \<Rightarrow> exn + pyfloat" where
  "as_float x = (case x of Fin r \<Rightarrow> (case to_pyfloat r of Fin y \<Rightarrow> Inr (Fin y)
       | _ \<Rightarrow> Inl (OverflowError ''int too large to convert to float''))
     | _ \<Rightarrow> Inr x)"

definition sensor_value :: "string \<Rightarrow> string \<Rightarrow> (string, pyval) dict \<Rightarrow> string \<times> pyval \<Rightarrow> reading list \<Rightarrow> exn + reading list" where
  "sensor_value chip label values nv rs =
    (case (re_match_start SENSOR_RE (fst nv), number_of (snd nv)) of
       (Some m, Some x) \<Rightarrow> ebind (as_float x) (\<lambda>v.
          let kind = the_default [] (m_group m 1); prefix = kind @ the_default [] (m_group m 2)
          in Inr (rs @ [\<lparr>rd_chip = chip, rd_label = label, rd_kind = kind, rd_value = v,
                   rd_max = dict_get values (prefix @ ''_max'') PNone, rd_crit = dict_get values (prefix @ ''_crit'') PNone,
                   rd_alarm = (truthy (dict_get values (prefix @ ''_alarm'') PNone) \<or>
                               truthy (dict_get values (prefix @ ''_crit_alarm'') PNone))\<rparr>]))
     | _ \<Rightarrow> Inr rs)"

definition sensor_label :: "string \<Rightarrow> string \<times> pyval \<Rightarrow> reading list \<Rightarrow> exn + reading list" where
  "sensor_label chip lv rs = (case snd lv of
     PDict values \<Rightarrow> efold (sensor_value chip (fst lv) values) values rs | _ \<Rightarrow> Inr rs)"

definition sensor_chip :: "string \<times> pyval \<Rightarrow> reading list \<Rightarrow> exn + reading list" where
  "sensor_chip cf rs = (case snd cf of
     PDict features \<Rightarrow> efold (sensor_label (fst cf)) features rs | _ \<Rightarrow> Inr rs)"

definition parse_sensors_json :: "pyval \<Rightarrow> exn + reading list" where
  "parse_sensors_json data = (case data of
     PDict chips \<Rightarrow> efold sensor_chip chips []
   | _ \<Rightarrow> if truthy data then Inl (AttributeError ''object has no attribute items'') else Inr [])"

definition CPU_CHIPS :: "string list" where
  "CPU_CHIPS = [''coretemp'', ''k10temp'', ''zenpower'', ''cpu_thermal'']"

definition DRIVE_CHIPS :: "string list" where
  "DRIVE_CHIPS = [''nvme'', ''drivetemp'']"

definition classify_chip :: "string \<Rightarrow> string" where
  "classify_chip chip = (if list_ex (startswith chip) CPU_CHIPS then ''cpu''
     else if list_ex (startswith chip) DRIVE_CHIPS then ''drive'' else ''board'')"

text \<open>A limit counts only when it is a number between 20 and 150.\<close>

definition plausible_limit :: "pyval \<Rightarrow> pyfloat option" where
  "plausible_limit v = (case number_of v of
     Some x \<Rightarrow> if pf_less (Fin 20) x \<and> pf_less x (Fin 150) then Some x else None | None \<Rightarrow> None)"

definition plausible :: "reading \<Rightarrow> bool" where
  "plausible r \<longleftrightarrow> rd_kind r = ''temp'' \<and> \<not> pf_le (rd_value r) (Fin (-40)) \<and> \<not> pf_le (Fin 200) (rd_value r)"

definition sensor_name :: "reading \<Rightarrow> string" where
  "sensor_name r = rd_chip r @ ''/'' @ rd_label r"

definition temp_evidence :: "string \<Rightarrow> reading \<Rightarrow> string \<Rightarrow> pyfloat \<Rightarrow> ctx \<Rightarrow> string" where
  "temp_evidence now r what limit c = now @ '' '' @ pf_fixed 0 (rd_value r) @ ''C ('' @ what @ '' '' @ pf_fixed 0 limit @
     ''C) phase '' @ fs_current_phase (c_findings c)"

definition crit_event :: "string \<Rightarrow> reading \<Rightarrow> pyfloat \<Rightarrow> ctx \<Rightarrow> event" where
  "crit_event now r crit c = (event (''temp-crit:'' @ sensor_name r) FAIL ''Thermal'' (''Critical temperature on '' @ sensor_name r))
     \<lparr>ev_recommendation := REC_THERMAL, ev_evidence := [temp_evidence now r ''crit'' crit c]\<rparr>"

definition high_event :: "string \<Rightarrow> reading \<Rightarrow> pyfloat \<Rightarrow> ctx \<Rightarrow> event" where
  "high_event now r limit c = (event (''temp-high:'' @ sensor_name r) WARN ''Thermal'' (''High temperature on '' @ sensor_name r))
     \<lparr>ev_recommendation := REC_THERMAL, ev_evidence := [temp_evidence now r ''limit'' limit c]\<rparr>"

definition reaches :: "pyfloat \<Rightarrow> pyfloat option \<Rightarrow> bool" where
  "reaches v limit = (case limit of Some x \<Rightarrow> pf_le x v | None \<Rightarrow> False)"

text \<open>The limit that the reading exceeds, in the order of the source's conditions.\<close>

definition high_limit :: "reading \<Rightarrow> options \<Rightarrow> pyfloat option" where
  "high_limit r o' =
    (let high = plausible_limit (rd_max r); crit = plausible_limit (rd_crit r); grp = classify_chip (rd_chip r);
         dflt = (if grp = ''cpu'' then Some (cpu_temp_warn o') else if grp = ''drive'' then Some (drive_temp_warn o') else None)
     in if reaches (rd_value r) high then high
        else if high = None \<and> crit = None \<and> reaches (rd_value r) dflt then dflt
        else None)"

definition raise_peak :: "string \<Rightarrow> pyfloat \<Rightarrow> state \<Rightarrow> state" where
  "raise_peak name v st = st\<lparr>st_telemetry_peaks :=
     AList.update name (pf_max (dict_get (st_telemetry_peaks st) name (Fin (-999))) v) (st_telemetry_peaks st)\<rparr>"

definition judge_reading :: "string \<Rightarrow> reading \<Rightarrow> ctx \<Rightarrow> ctx" where
  "judge_reading now r c =
    (case plausible_limit (rd_crit r) of
       Some crit \<Rightarrow>
         if pf_le crit (rd_value r)
         then request_abort (''Critical temperature on '' @ sensor_name r) (ctx_add now (crit_event now r crit c) c)
         else (case high_limit r (c_opts c) of Some l \<Rightarrow> ctx_add now (high_event now r l c) c | None \<Rightarrow> c)
     | None \<Rightarrow> (case high_limit r (c_opts c) of Some l \<Rightarrow> ctx_add now (high_event now r l c) c | None \<Rightarrow> c))"

definition sensor_reading :: "string \<Rightarrow> reading \<Rightarrow> (string, pyfloat) dict \<times> ctx \<Rightarrow> (string, pyfloat) dict \<times> ctx" where
  "sensor_reading now r = (\<lambda>(current, c).
     if \<not> plausible r then (current, c)
     else let grp = classify_chip (rd_chip r)
       in (AList.update grp (pf_max (dict_get current grp (Fin (-999))) (rd_value r)) current,
           judge_reading now r (ctx_session (upd_state (raise_peak (sensor_name r) (rd_value r))) c)))"

definition sensors_empty :: event where
  "sensors_empty = event ''sensors-empty'' WARN ''Thermal'' ''No usable temperature sensors reported''"

text \<open>\<open>json\<close> is \<open>json.loads\<close> (\<open>None\<close>: \<open>ValueError\<close>).\<close>

definition sensor_poll :: "(string \<Rightarrow> pyval option) \<Rightarrow> string \<times> sys \<Rightarrow> ctx \<Rightarrow> outcome" where
  "sensor_poll json r c =
    (let res = run_cmd (snd r) [''sensors'', ''-j''] in
     if returncode res \<noteq> 0 \<or> strip (stdout res) = [] then raise (RuntimeError ''sensors did not return telemetry'') c
     else (case json (stdout res) of
       None \<Rightarrow> raise (RuntimeError ''Invalid sensors JSON'') c
     | Some data \<Rightarrow> (case parse_sensors_json data of
         Inl e \<Rightarrow> raise e c
       | Inr rs \<Rightarrow>
           let (current, c1) = fold (sensor_reading (fst r)) rs ([], c); c2 = c1\<lparr>c_temps := current\<rparr>
           in ok (if current = [] then ctx_add (fst r) sensors_empty c2 else c2))))"


section \<open>The BMC\<close>

definition SEL_FAIL :: regex where
  "SEL_FAIL = re_compile re_I ''Uncorrectable|Machine Check|IERR|Thermal Trip|Critical Interrupt|Bus Fatal|Bus Uncorrectable|PCI SERR|PCI PERR|Fatal|Failure detected|Power Supply AC lost|AC lost|Predictive failure|Watchdog.*(?:Hard reset|Power down|Power cycle)|CATERR|Processor.*Error|Drive Fault|Configuration Error|Non-recoverable|Lower Non-recoverable|Upper Non-recoverable|Upper Critical going high|Lower Critical going low''"

definition SEL_WARN :: regex where
  "SEL_WARN = re_compile re_I ''Correctable|Redundancy Lost|Redundancy Degraded|Non-critical going|Upper Non-critical|Lower Non-critical|Throttl|Presence detected.*Deasserted|Power off|Power down|System Restart|OS Stop|Timestamp Clock Sync''"

definition SEL_IGNORE :: regex where
  "SEL_IGNORE = re_compile re_I ''Log area reset|Log area cleared|Event Logging Disabled.*Log area|Initiated by power up|Initiated by hard reset|Initiated by warm reset|System Boot|OEM record''"

definition SEL_ECC :: regex where
  "SEL_ECC = re_compile re_I ''Correctable.*ECC|Correctable.*memory''"

text \<open>\<open>None\<close>: a deasserted event, reported as informational.\<close>

definition classify_sel :: "string \<Rightarrow> severity option" where
  "classify_sel line =
    (if str_in ''Deasserted'' line \<and> \<not> re_found SEL_FAIL line then None
     else if re_found SEL_IGNORE line then Some INFO
     else if re_found SEL_FAIL line then Some FAIL
     else if re_found SEL_WARN line then Some WARN
     else Some INFO)"

definition parse_sdr :: "string \<Rightarrow> (string \<times> string \<times> string) list" where
  "parse_sdr text = List.map_filter (\<lambda>line. let parts = map strip (split_on (CHR ''|'') line)
     in if 5 \<le> length parts then Some (parts ! 0, py_lower (parts ! 2), parts ! 4) else None) (splitlines text)"

definition SDR_FAIL :: "string list" where
  "SDR_FAIL = [''cr'', ''nr'', ''lcr'', ''ucr'', ''lnr'', ''unr'']"

definition SDR_WARN :: "string list" where
  "SDR_WARN = [''nc'', ''lnc'', ''unc'']"

definition sel_lines :: "sys \<Rightarrow> exn + string list" where
  "sel_lines sy = (let res = run_cmd sy [''ipmitool'', ''sel'', ''elist''] in
     if returncode res \<noteq> 0 then Inl (RuntimeError (''Cannot read BMC SEL: '' @ strip (stderr res)))
     else Inr (map strip (filter (\<lambda>l. CHR ''|'' \<in> set l) (splitlines (stdout res)))))"

text \<open>\<open>sha1(line.split('|', 1)[-1])\<close>: the entry without its record number.\<close>

definition sel_hash :: "(string \<Rightarrow> string) \<Rightarrow> string \<Rightarrow> string" where
  "sel_hash sha1 line = take 16 (sha1 (case split1 (CHR ''|'') line of (_, Some rest) \<Rightarrow> rest | (s, None) \<Rightarrow> s))"

definition SEL_DETAIL :: string where
  "SEL_DETAIL = ''These happened before PC-Check started (e.g. in the factory, in transit or a previous deployment). Review them: memory/CPU/PSU events often point at the component that will fail.''"

definition historic_event :: "string list \<Rightarrow> severity \<Rightarrow> event" where
  "historic_event historic sev = (event ''sel-historic'' sev ''BMC''
      (nat_str (length historic) @ '' hardware events already in the BMC event log before the test''))
     \<lparr>ev_detail := SEL_DETAIL,
      ev_recommendation := ''Review the events; clear the SEL after resolving them so future runs start clean.'',
      ev_evidence := last_lines 25 historic\<rparr>"

definition sel_baseline :: "(string \<Rightarrow> string) \<Rightarrow> string \<times> sys \<Rightarrow> ctx \<Rightarrow> outcome" where
  "sel_baseline sha1 r c =
    (if st_sel_hashes (s_state (c_session c)) \<noteq> None then ok c
     else (case sel_lines (snd r) of
       Inl e \<Rightarrow> raise e c
     | Inr lines \<Rightarrow>
         let c1 = ctx_session (upd_state (\<lambda>st. st\<lparr>st_sel_hashes := Some (map (sel_hash sha1) lines)\<rparr>)) c;
             historic = filter (\<lambda>l. classify_sel l \<in> {Some FAIL, Some WARN}) lines;
             sev = (if list_ex (\<lambda>l. classify_sel l = Some FAIL) historic then WARN else INFO);
             c2 = (if historic \<noteq> [] then ctx_add (fst r) (historic_event historic sev) c1 else c1)
         in ok (ctx_session session_save c2)))"

definition sel_info_event :: "string \<Rightarrow> event" where
  "sel_info_event line = (event ''sel-info'' INFO ''BMC'' ''Informational BMC events during the test'')\<lparr>ev_evidence := [line]\<rparr>"

definition sel_key :: "string \<Rightarrow> string" where
  "sel_key line = (let fields = map strip (split_on (CHR ''|'') line);
       sensor = (if 3 < length fields then fields ! 3 else ''event'');
       what = (if 4 < length fields then fields ! 4 else line)
     in ''sel:'' @ sensor @ '':'' @ what)"

definition sel_title :: "string \<Rightarrow> string" where
  "sel_title line = (let fields = map strip (split_on (CHR ''|'') line);
       sensor = (if 3 < length fields then fields ! 3 else ''event'');
       what = (if 4 < length fields then fields ! 4 else line)
     in ''BMC event during test: '' @ sensor @ '' - '' @ what)"

definition sel_event :: "string \<Rightarrow> severity \<Rightarrow> event" where
  "sel_event line sev = (event (sel_key line) sev ''BMC'' (sel_title line))
     \<lparr>ev_recommendation := ''Check the component named by the sensor (DIMM/CPU/PSU/fan).'', ev_evidence := [line]\<rparr>"

definition sel_report :: "string \<Rightarrow> string \<Rightarrow> ctx \<Rightarrow> ctx" where
  "sel_report now line c = (case classify_sel line of
     Some sev \<Rightarrow>
       if sev = INFO then ctx_add now (sel_info_event line) c
       else let c1 = ctx_add now (sel_event line sev) c
         in if sev = WARN \<and> re_found SEL_ECC line then ctx_escalate_at (ce_fail (c_opts c)) (sel_key line) c1 else c1
   | None \<Rightarrow> ctx_add now (sel_info_event line) c)"

text \<open>One entry: the hashes known so far, the new ones, and the context.\<close>

definition sel_step :: "(string \<Rightarrow> string) \<Rightarrow> string \<Rightarrow> string \<Rightarrow> string list \<times> string list \<times> ctx \<Rightarrow> string list \<times> string list \<times> ctx" where
  "sel_step sha1 now line = (\<lambda>(known, fresh, c). let h = sel_hash sha1 line in
     if h \<in> set known then (known, fresh, c) else (h # known, fresh @ [h], sel_report now line c))"

definition sdr_event :: "string \<Rightarrow> string \<times> string \<times> string \<Rightarrow> severity \<Rightarrow> event" where
  "sdr_event now row sev = (case row of (name, status, value) \<Rightarrow>
     (event (''sdr:'' @ name) sev ''BMC'' (''BMC sensor '' @ (if sev = FAIL then ''critical: '' else ''non-critical: '') @ name))
       \<lparr>ev_evidence := [now @ '' '' @ name @ '': '' @ status @ '' '' @ value]\<rparr>)"

definition sdr_report :: "string \<Rightarrow> string \<times> string \<times> string \<Rightarrow> ctx \<Rightarrow> ctx" where
  "sdr_report now row c =
    (if fst (snd row) \<in> set SDR_FAIL then ctx_add now (sdr_event now row FAIL) c
     else if fst (snd row) \<in> set SDR_WARN then ctx_add now (sdr_event now row WARN) c
     else c)"

definition sel_scan :: "(string \<Rightarrow> string) \<Rightarrow> string \<times> sys \<Rightarrow> ctx \<Rightarrow> outcome" where
  "sel_scan sha1 r c = (case sel_lines (snd r) of
     Inl e \<Rightarrow> raise e c
   | Inr lines \<Rightarrow>
       let known = the_default [] (st_sel_hashes (s_state (c_session c)));
           (_, fresh, c1) = fold (sel_step sha1 (fst r)) lines (known, [], c)
       in ok (if fresh = [] then c1 else ctx_session (session_update (\<lambda>st. st\<lparr>st_sel_hashes :=
            Some (the_default [] (st_sel_hashes st) @ fresh)\<rparr>)) c1))"

definition sdr_scan :: "string \<times> sys \<Rightarrow> ctx \<Rightarrow> outcome" where
  "sdr_scan r c = (let res = run_cmd (snd r) [''ipmitool'', ''sdr'', ''elist''] in
     if returncode res \<noteq> 0 then raise (RuntimeError (''Cannot read BMC sensors: '' @ strip (stderr res))) c
     else ok (fold (sdr_report (fst r)) (parse_sdr (stdout res)) c))"

definition ipmi_poll :: "(string \<Rightarrow> string) \<Rightarrow> string \<times> sys \<Rightarrow> ctx \<Rightarrow> outcome" where
  "ipmi_poll sha1 r c = andthen (andthen (sel_baseline sha1 r c) (sel_scan sha1 r)) (sdr_scan r)"

section \<open>Network counters\<close>

definition NIC_COUNTERS :: "string list" where
  "NIC_COUNTERS = [''rx_crc_errors'', ''rx_frame_errors'', ''rx_length_errors'', ''rx_fifo_errors'',
     ''tx_carrier_errors'', ''tx_aborted_errors'', ''tx_fifo_errors'', ''tx_heartbeat_errors'']"

definition physical_nics :: "sys \<Rightarrow> string list" where
  "physical_nics sy = sort (map (\<lambda>p. basename (dirname p)) (glob sy ''/sys/class/net/*/device''))"

definition uptime :: "sys \<Rightarrow> pyfloat" where
  "uptime sy = (case split_ws (read_file sy ''/proc/uptime'') of
     x # _ \<Rightarrow> the_default (Fin 0) (py_float x) | [] \<Rightarrow> Fin 0)"

definition nic_values :: "sys \<Rightarrow> string \<Rightarrow> (string, int) dict" where
  "nic_values sy nic = map (\<lambda>k. (k, read_int sy (''/sys/class/net/'' @ nic @ ''/statistics/'' @ k) 0)) NIC_COUNTERS @
     [(''carrier_changes'', read_int sy (''/sys/class/net/'' @ nic @ ''/carrier_changes'') 0)]"

definition nic_errors :: "(string, int) dict \<Rightarrow> (string, int) dict \<Rightarrow> (string, int) dict" where
  "nic_errors values prev = map (\<lambda>k. (k, dict_get values k 0 - dict_get prev k 0))
     (filter (\<lambda>k. dict_get values k 0 > dict_get prev k 0) NIC_COUNTERS)"

definition nic_error_event :: "string \<Rightarrow> string \<Rightarrow> (string, int) dict \<Rightarrow> event" where
  "nic_error_event now nic errors = (event (''nic-errors:'' @ nic) WARN ''Network'' (''Network errors on '' @ nic))
     \<lparr>ev_recommendation := ''Check/replace cable, transceiver or switch port; then the NIC.'',
      ev_count := sum_list (map snd errors),
      ev_evidence := [now @ '' '' @ join '', '' (map (\<lambda>(k, v). k @ ''+'' @ int_str v) errors)]\<rparr>"

definition nic_flap_event :: "string \<Rightarrow> string \<Rightarrow> int \<Rightarrow> event" where
  "nic_flap_event now nic flaps = (event (''nic-flap:'' @ nic) WARN ''Network'' (''Link flapped on '' @ nic))
     \<lparr>ev_recommendation := ''Check cable/transceiver/switch port; then the NIC.'', ev_count := flaps,
      ev_evidence := [now @ '' carrier_changes +'' @ int_str flaps]\<rparr>"

definition nic_report :: "string \<Rightarrow> string \<Rightarrow> (string, int) dict \<Rightarrow> (string, int) dict \<Rightarrow> ctx \<Rightarrow> ctx" where
  "nic_report now nic values prev c =
    (let errors = nic_errors values prev; flaps = dict_get values ''carrier_changes'' 0 - dict_get prev ''carrier_changes'' 0;
         c1 = (if errors \<noteq> [] then ctx_add now (nic_error_event now nic errors) c else c)
     in if flaps > 0 then ctx_add now (nic_flap_event now nic flaps) c1 else c1)"

definition nic_step :: "string \<times> sys \<Rightarrow> string \<Rightarrow> ctx \<Rightarrow> ctx" where
  "nic_step r nic c =
    (if strip (read_file (snd r) (''/sys/class/net/'' @ nic @ ''/operstate'')) \<noteq> ''up'' then c
     else let values = nic_values (snd r) nic
       in put_seen ''nic'' nic (Stats values) (case map_of (seen ''nic'' c) nic of
            Some (Stats prev) \<Rightarrow> nic_report (fst r) nic values prev c
          | _ \<Rightarrow> c))"

definition nic_poll :: "string \<times> sys \<Rightarrow> ctx \<Rightarrow> outcome" where
  "nic_poll r c = ok (if pf_less (uptime (snd r)) (Fin 90) then c else fold (nic_step r) (physical_nics (snd r)) c)"


section \<open>Every poll keeps the evidence\<close>

lemma event_ok [simp]:
  "prev < n \<Longrightarrow> legal (ce_event now l prev n)" "prev < n \<Longrightarrow> legal (ue_event now l prev n)"
  "0 \<le> d \<Longrightarrow> legal (aer_event now sy bdf kind sev d counts)" "0 \<le> d \<Longrightarrow> legal (throttle_event now counts d c)"
  "legal (crit_event now r x c)" "legal (high_event now r x c)" "legal sensors_empty"
  "legal (historic_event ls sev)" "legal (sel_info_event l)" "legal (sel_event l sev)" "legal (sdr_event now row sev)"
  "0 \<le> f \<Longrightarrow> legal (nic_flap_event now nic f)"
  by (simp_all add: legal_def ce_event_def ue_event_def aer_event_def Let_def throttle_event_def crit_event_def
      high_event_def sensors_empty_def historic_event_def sel_info_event_def sel_event_def sdr_event_def nic_flap_event_def
      split: prod.split)

lemma nic_errors_pos: "0 \<le> sum_list (map snd (nic_errors values prev))"
  by (rule sum_list_nonneg) (auto simp: nic_errors_def)

lemma legal_nic_error [simp]: "legal (nic_error_event now nic (nic_errors values prev))"
  using nic_errors_pos by (simp add: nic_error_event_def legal_def)

lemma edac_entry_keeps [simp]: "keeps c (edac_entry now e c)"
  by (auto simp: edac_entry_def edac_ue_def edac_ce_def intro!: keeps_then split: prod.split)

lemma aer_account_keeps [simp]: "keeps c (aer_account now sy bdf kind sev n counts c)"
  by (auto simp: aer_account_def Let_def intro!: keeps_then)

lemma aer_kind_keeps: "keeps c (snd (aer_kind now sy path k c))"
  by (simp add: aer_kind_def split: prod.split sum.split)

lemma judge_keeps [simp]: "keeps c (judge_reading now r c)"
  by (auto simp: judge_reading_def intro!: keeps_then split: option.split)

lemma sensor_reading_keeps: "keeps (snd cc) (snd (sensor_reading now r cc))"
proof -
  obtain current c where cc: "cc = (current, c)" by force
  have "keeps c (judge_reading now r (ctx_session (upd_state (raise_peak n v)) c))" for n v
    by (rule keeps_trans [OF keeps_session(1) judge_keeps]) (simp add: minor_def raise_peak_def)
  then show ?thesis by (simp add: cc sensor_reading_def Let_def)
qed

lemma sensor_fold_keeps: "keeps (snd cc) (snd (fold (sensor_reading now) rs cc))"
proof (induction rs arbitrary: cc)
  case (Cons r rs)
  show ?case using keeps_trans [OF sensor_reading_keeps Cons.IH] by simp
qed simp

lemma sensor_poll_keeps: "keeps c (snd (sensor_poll json r c))"
proof -
  have temps: "keeps c (c1\<lparr>c_temps := x\<rparr>)" if "keeps c c1" for c1 x
    using keeps_trans [OF that keeps_same] by simp
  have "keeps c (snd (fold (sensor_reading (fst r)) rs ([], c)))" for rs
    using sensor_fold_keeps [of "([], c)" "fst r" rs] by simp
  then show ?thesis
    by (auto simp: sensor_poll_def Let_def intro!: keeps_then temps split: option.split sum.split prod.split)
      (metis snd_conv)+
qed

lemma sel_report_keeps [simp]: "keeps c (sel_report now line c)"
  by (auto simp: sel_report_def Let_def intro!: keeps_then split: option.split)

lemma minor_hashes [simp]: "minor (\<lambda>st. st\<lparr>st_sel_hashes := f st\<rparr>)"
  by (simp add: minor_def)

lemma sel_step_keeps: "keeps (snd (snd s)) (snd (snd (sel_step sha1 now line s)))"
  by (auto simp: sel_step_def Let_def split: prod.split)

lemma sel_fold_keeps: "keeps (snd (snd s)) (snd (snd (fold (sel_step sha1 now) lines s)))"
proof (induction lines arbitrary: s)
  case (Cons l ls)
  show ?case using keeps_trans [OF sel_step_keeps Cons.IH] by simp
qed simp

lemma sel_baseline_keeps: "keeps c (snd (sel_baseline sha1 r c))"
  by (auto simp: sel_baseline_def Let_def intro!: keeps_then split: sum.split)

lemma sel_scan_keeps: "keeps c (snd (sel_scan sha1 r c))"
proof -
  have "keeps c (snd (snd (fold (sel_step sha1 (fst r)) lines (known, [], c))))" for known lines
    using sel_fold_keeps [of "(known, [], c)" sha1 "fst r" lines] by simp
  then show ?thesis
    by (auto simp: sel_scan_def Let_def intro!: keeps_then split: sum.split prod.split) (metis snd_conv)+
qed

lemma sdr_report_keeps [simp]: "keeps c (sdr_report now row c)"
  by (simp add: sdr_report_def)

lemma sdr_scan_keeps: "keeps c (snd (sdr_scan r c))"
  by (simp add: sdr_scan_def Let_def keeps_fold)

lemma nic_report_keeps [simp]: "keeps c (nic_report now nic values prev c)"
  by (auto simp: nic_report_def Let_def intro!: keeps_then)

lemma nic_step_keeps [simp]: "keeps c (nic_step r nic c)"
  by (auto simp: nic_step_def Let_def intro!: keeps_then split: option.split counter.split)

interpretation edac: hardware_monitor edac_poll
  by unfold_locales (simp add: edac_poll_def keeps_fold)

interpretation aer: hardware_monitor aer_poll
  by unfold_locales (simp add: aer_poll_def keeps_for_each aer_kind_keeps)

interpretation throttle: hardware_monitor throttle_poll
proof
  fix c e
  have "keeps c (fold (\<lambda>(k, n). put_seen ''throttle'' k (Count n)) counts c1)" if "keeps c c1" for c1 counts
    by (rule keeps_trans [OF that keeps_fold]) (auto split: prod.split)
  then show "keeps c (snd (throttle_poll e c))"
    by (auto simp: throttle_poll_def Let_def)
qed

interpretation sensors: hardware_monitor "sensor_poll json" for json
  by unfold_locales (rule sensor_poll_keeps)

interpretation ipmi: hardware_monitor "ipmi_poll sha1" for sha1
  by unfold_locales (auto simp: ipmi_poll_def intro!: keeps_seq sel_baseline_keeps sel_scan_keeps sdr_scan_keeps)

interpretation nic: hardware_monitor nic_poll
  by unfold_locales (simp add: nic_poll_def keeps_fold)


section \<open>Hardware counters are accounted exactly once\<close>

text \<open>
  The contract of a monitor that turns kernel counters into a finding's count.  A reading \<open>v\<close> of
  device \<open>k\<close> shows the counter \<open>val v\<close>; \<open>seen_of k c\<close> is the value already accounted for, \<open>total c\<close>
  the count of one finding, and \<open>feeds k v\<close> says that this reading is booked on that finding.
\<close>

fun increases :: "int list \<Rightarrow> int" where
  "increases (a # b # xs) = max 0 (b - a) + increases (b # xs)"
| "increases _ = 0"

text \<open>A counter that never goes back has risen by the difference of its ends.\<close>

lemma increases_sorted: "sorted (a # xs) \<Longrightarrow> increases (a # xs) = last (a # xs) - a"
  by (induction xs arbitrary: a) auto

locale delta_counter =
  fixes step :: "'k \<Rightarrow> 'v \<Rightarrow> ctx \<Rightarrow> ctx"
    and val :: "'v \<Rightarrow> int"
    and seen_of :: "'k \<Rightarrow> ctx \<Rightarrow> int"
    and total :: "ctx \<Rightarrow> int"
    and feeds :: "'k \<Rightarrow> 'v \<Rightarrow> bool"
  assumes step_seen: "seen_of j (step k v c) = (if j = k then val v else seen_of j c)"
    and step_total: "total (step k v c) = total c + (if feeds k v then max 0 (val v - seen_of k c) else 0)"
begin

definition readings :: "'k \<Rightarrow> ('k \<times> 'v) list \<Rightarrow> int list" where
  "readings k rs = map (val \<circ> snd) (filter (\<lambda>r. fst r = k) rs)"

definition run :: "('k \<times> 'v) list \<Rightarrow> ctx \<Rightarrow> ctx" where
  "run rs c = fold (\<lambda>(k, v). step k v) rs c"

lemma run_simps [simp]: "run [] c = c" "run ((k, v) # rs) c = run rs (step k v c)"
  by (simp_all add: run_def)

lemma readings_simps [simp]: "readings j [] = []"
  "readings j ((k, v) # rs) = (if j = k then val v # readings j rs else readings j rs)"
  by (auto simp: readings_def)

text \<open>The finding grows by exactly what the counters of the devices \<open>K\<close> booked on it have risen.\<close>

lemma run_total:
  assumes "finite K" "\<forall>(k, v) \<in> set rs. feeds k v \<longleftrightarrow> k \<in> K"
  shows "total (run rs c) = total c + (\<Sum>k\<in>K. increases (seen_of k c # readings k rs))"
  using assms(2)
proof (induction rs arbitrary: c)
  case Nil
  then show ?case by simp
next
  case (Cons r rs)
  obtain j v where r: "r = (j, v)" by force
  let ?rise = "max 0 (val v - seen_of j c)"
  have e: "increases (seen_of k c # readings k (r # rs))
      = increases (seen_of k (step j v c) # readings k rs) + (if k = j then ?rise else 0)" for k
    by (simp add: r step_seen)
  have "(\<Sum>k\<in>K. increases (seen_of k c # readings k (r # rs)))
      = (\<Sum>k\<in>K. increases (seen_of k (step j v c) # readings k rs)) + (if j \<in> K then ?rise else 0)"
    unfolding e sum.distrib using assms(1) by simp
  moreover have "feeds j v \<longleftrightarrow> j \<in> K" using Cons.prems by (simp add: r)
  ultimately show ?case using Cons.IH [of "step j v c"] Cons.prems by (simp add: r step_total)
qed

end

lemma key_differs [simp]: "''memory-ue:'' @ a \<noteq> ''memory-ce:'' @ b" "''memory-ce:'' @ b \<noteq> ''memory-ue:'' @ a"
  by simp_all

text \<open>Corrected PCIe errors: the device is its address, a reading is the time, the system and the parsed file.\<close>

type_synonym aer_reading = "string \<times> sys \<times> (string, int) dict"

definition aer_cor_step :: "string \<Rightarrow> aer_reading \<Rightarrow> ctx \<Rightarrow> ctx" where
  "aer_cor_step bdf v c = (case v of (now, sy, counts) \<Rightarrow>
     aer_account now sy bdf ''correctable'' WARN (dict_get counts ''TOTAL_ERR_COR'' 0) counts c)"

definition aer_value :: "aer_reading \<Rightarrow> int" where
  "aer_value v = dict_get (snd (snd v)) ''TOTAL_ERR_COR'' 0"

definition aer_seen :: "string \<Rightarrow> ctx \<Rightarrow> int" where
  "aer_seen bdf c = seen_count (seen ''aer'' c) (bdf @ '':'' @ ''correctable'')"

definition aer_total :: "string \<Rightarrow> ctx \<Rightarrow> int" where
  "aer_total bdf c = old_count (c_findings c) (''aer-corrected:'' @ bdf)"

lemma aer_event_key [simp]: "ev_key (aer_event now sy bdf ''correctable'' sev d counts) = ''aer-corrected:'' @ bdf"
  "ev_count (aer_event now sy bdf kind sev d counts) = d"
  by (simp_all add: aer_event_def Let_def)

interpretation aer_cor: delta_counter aer_cor_step aer_value aer_seen "aer_total bdf" "\<lambda>k v. k = bdf" for bdf
proof (unfold_locales, goal_cases)
  case (1 j k v c)
  then show ?case
    by (cases v) (simp add: aer_seen_def aer_cor_step_def aer_account_def aer_value_def Let_def seen_count_def dict_simps)
next
  case (2 k v c)
  then show ?case
    by (cases v) (auto simp: aer_total_def aer_cor_step_def aer_account_def aer_seen_def aer_value_def Let_def count_add
        simp del: append_Cons append_Nil)
qed

text \<open>Corrected memory errors: the device is the EDAC key, and a reading is the time, the label and
  the two counts.  The finding is that of the label \<open>lab\<close>.\<close>

type_synonym edac_reading = "string \<times> string \<times> int \<times> int"

definition edac_step :: "string \<Rightarrow> edac_reading \<Rightarrow> ctx \<Rightarrow> ctx" where
  "edac_step key v c = edac_entry (fst v) (key, snd v) c"

definition ce_value :: "edac_reading \<Rightarrow> int" where
  "ce_value v = fst (snd (snd v))"

definition ce_seen :: "string \<Rightarrow> ctx \<Rightarrow> int" where
  "ce_seen key c = fst (seen_pair (seen ''edac'' c) key)"

definition ce_count :: "string \<Rightarrow> ctx \<Rightarrow> int" where
  "ce_count lab c = old_count (c_findings c) (''memory-ce:'' @ lab)"

lemma ce_event_fields [simp]:
  "ev_key (ce_event now l p n) = ''memory-ce:'' @ l" "ev_count (ce_event now l p n) = n - p"
  "ev_key (ue_event now l p n) = ''memory-ue:'' @ l" "ev_count (ue_event now l p n) = n - p"
  "ev_severity (ue_event now l p n) = FAIL" "ev_severity (ce_event now l p n) = WARN"
  by (simp_all add: ce_event_def ue_event_def)

lemma put_seen_same: "seen_pair (AList.update k (Pair a b) d) j = (if j = k then (a, b) else seen_pair d j)"
  by (simp add: seen_pair_def dict_simps)

lemma seen_edac [simp]: "seen g (edac_ce now l p n c) = seen g c" "seen g (edac_ue now l p n c) = seen g c"
  by (simp_all add: edac_ce_def edac_ue_def)

lemma count_edac_ce: "old_count (c_findings (edac_ce now l p n c)) (''memory-ce:'' @ l') =
    old_count (c_findings c) (''memory-ce:'' @ l') + (if l' = l then max 0 (n - p) else 0)"
  by (auto simp: edac_ce_def count_add simp del: append_Cons append_Nil)

lemma count_edac_ue: "old_count (c_findings (edac_ue now l p n c)) (''memory-ce:'' @ l') =
    old_count (c_findings c) (''memory-ce:'' @ l')"
  by (simp add: edac_ue_def count_add del: append_Cons append_Nil)

interpretation edac_cor: delta_counter edac_step ce_value ce_seen "ce_count lab" "\<lambda>k v. fst (snd v) = lab" for lab
proof (unfold_locales, goal_cases)
  case (1 j k v c)
  then show ?case
    by (cases v) (simp add: ce_seen_def edac_step_def edac_entry_def ce_value_def put_seen_same split: prod.split)
next
  case (2 k v c)
  obtain p q where pq: "seen_pair (seen ''edac'' c) k = (p, q)" by force
  obtain now l n u where v: "v = (now, l, n, u)" by (cases v)
  have "edac_step k v c = put_seen ''edac'' k (Pair n u) (edac_ue now l q u (edac_ce now l p n c))"
    by (simp add: edac_step_def edac_entry_def pq v)
  then show ?case
    unfolding ce_count_def
    by (simp only: put_seen_frame count_edac_ue count_edac_ce) (simp add: ce_seen_def ce_value_def pq v)
qed

section \<open>EDAC: counts and thresholds\<close>

definition edac_run :: "(string \<times> sys) list \<Rightarrow> ctx \<Rightarrow> ctx" where
  "edac_run rs c = fold (\<lambda>r c. snd (edac_poll r c)) rs c"

definition edac_readings :: "(string \<times> sys) list \<Rightarrow> (string \<times> edac_reading) list" where
  "edac_readings rs = concat (map (\<lambda>(now, sy). map (\<lambda>(k, n). (k, now, n)) (edac_counts sy)) rs)"

text \<open>The corrected-error counts that the polls read for one key, in order.\<close>

definition ce_readings :: "string \<Rightarrow> (string \<times> sys) list \<Rightarrow> int list" where
  "ce_readings k rs = map (ce_value \<circ> snd) (filter (\<lambda>r. fst r = k) (edac_readings rs))"

text \<open>The keys that the polls report under a label, and the condition that none of them changes it.\<close>

definition modules_of :: "string \<Rightarrow> (string \<times> sys) list \<Rightarrow> string set" where
  "modules_of lab rs = set (map fst (filter (\<lambda>r. fst (snd (snd r)) = lab) (edac_readings rs)))"

definition keeps_label :: "string \<Rightarrow> (string \<times> sys) list \<Rightarrow> bool" where
  "keeps_label lab rs \<longleftrightarrow> (\<forall>(k, now, l, n) \<in> set (edac_readings rs). k \<in> modules_of lab rs \<longrightarrow> l = lab)"

lemma edac_run_eq: "edac_run rs c = edac_cor.run (edac_readings rs) c"
proof (induction rs arbitrary: c)
  case (Cons r rs)
  have "fold (edac_entry now) es c = fold (\<lambda>(k, v). edac_step k v) (map (\<lambda>(k, n). (k, now, n)) es) c" for now es
    by (induction es arbitrary: c) (auto simp: edac_step_def)
  with Cons.IH show ?case
    by (simp add: edac_run_def edac_readings_def edac_poll_def edac_cor.run_def split: prod.split)
qed (simp add: edac_run_def edac_readings_def edac_cor.run_def)

lemma edac_exact:
  assumes "keeps_label lab rs"
  shows "ce_count lab (edac_run rs c) = ce_count lab c + (\<Sum>k\<in>modules_of lab rs. increases (ce_seen k c # ce_readings k rs))"
proof -
  have "\<forall>(k, v) \<in> set (edac_readings rs). fst (snd v) = lab \<longleftrightarrow> k \<in> modules_of lab rs"
    using assms by (force simp: keeps_label_def modules_of_def)
  then show ?thesis
    using edac_cor.run_total [where K = "modules_of lab rs" and rs = "edac_readings rs" and lab = lab and c = c]
    by (simp add: edac_run_eq modules_of_def edac_cor.readings_def ce_readings_def)
qed

text \<open>The finding of a memory module fails once its count has reached the limit.\<close>

definition ce_escalated :: "ctx \<Rightarrow> bool" where
  "ce_escalated c \<longleftrightarrow> (\<forall>l f. findings_get (c_findings c) (''memory-ce:'' @ l) = Some f \<longrightarrow>
     ce_fail (c_opts c) \<le> f_count f \<longrightarrow> f_severity f = FAIL)"

lemma edac_entry_opts [simp]: "c_opts (edac_entry now e c) = c_opts c"
  by (simp add: edac_entry_def edac_ue_def edac_ce_def split: prod.split)

lemma escalated_ce: "ce_escalated c \<Longrightarrow> ce_escalated (edac_ce now l p n c)"
  by (auto simp: ce_escalated_def edac_ce_def get_escalate_at get_add max_def split: if_splits option.splits
      simp del: append_Cons append_Nil)

lemma escalated_ue: "ce_escalated c \<Longrightarrow> ce_escalated (edac_ue now l p n c)"
  by (simp add: ce_escalated_def edac_ue_def get_add del: append_Cons append_Nil)

lemma escalated_entry: "ce_escalated c \<Longrightarrow> ce_escalated (edac_entry now e c)"
proof -
  have "ce_escalated (put_seen g k v d) = ce_escalated d" for g k v d by (simp add: ce_escalated_def)
  then show "ce_escalated c \<Longrightarrow> ce_escalated (edac_entry now e c)"
    by (simp add: edac_entry_def escalated_ce escalated_ue split: prod.split)
qed

lemma escalated_run: "ce_escalated c \<Longrightarrow> ce_escalated (edac_run rs c) \<and> c_opts (edac_run rs c) = c_opts c"
proof (induction rs arbitrary: c)
  case (Cons r rs)
  have "ce_escalated (fold (edac_entry now) es c) \<and> c_opts (fold (edac_entry now) es c) = c_opts c" for now es
    using Cons.prems by (induction es arbitrary: c) (auto simp: escalated_entry)
  with Cons.IH show ?case by (auto simp: edac_run_def edac_poll_def)
qed (simp add: edac_run_def)

text \<open>C32: every corrected memory error is counted exactly once.  Over any run of polls, from any
  stored state (a first start, a restart of the service, a boot after earlier errors), the finding
  of a label grows by exactly what the counters of the memory modules with that label have risen
  from poll to poll, starting at the stored baseline; other labels and the uncorrected errors do not
  touch it.  When the counters never go back, as within a boot, that is what they show now beyond
  the baseline.\<close>

theorem edac_counts_every_error:
  assumes "keeps_label lab rs"
  shows "old_count (c_findings (edac_run rs c)) (''memory-ce:'' @ lab) =
       old_count (c_findings c) (''memory-ce:'' @ lab) + (\<Sum>k\<in>modules_of lab rs. increases (ce_seen k c # ce_readings k rs)) \<and>
    ((\<forall>k\<in>modules_of lab rs. sorted (ce_seen k c # ce_readings k rs)) \<longrightarrow>
       old_count (c_findings (edac_run rs c)) (''memory-ce:'' @ lab) =
       old_count (c_findings c) (''memory-ce:'' @ lab) + (\<Sum>k\<in>modules_of lab rs. last (ce_readings k rs) - ce_seen k c))"
proof -
  have "ce_readings k rs \<noteq> []" if "k \<in> modules_of lab rs" for k
    using that by (auto simp: modules_of_def ce_readings_def filter_empty_conv)
  then have "(\<Sum>k\<in>modules_of lab rs. increases (ce_seen k c # ce_readings k rs))
      = (\<Sum>k\<in>modules_of lab rs. last (ce_readings k rs) - ce_seen k c)"
    if "\<forall>k\<in>modules_of lab rs. sorted (ce_seen k c # ce_readings k rs)"
    using that by (intro sum.cong refl) (simp add: increases_sorted del: sorted_wrt.simps)
  then show ?thesis using edac_exact [OF assms, of c] by (simp add: ce_count_def)
qed

text \<open>A module whose errors reach the configured limit fails the machine.\<close>

theorem edac_limit_fails:
  assumes "keeps_label lab rs" "ce_escalated c" "1 \<le> ce_fail (c_opts c)"
    and "ce_fail (c_opts c) \<le> ce_count lab c + (\<Sum>k\<in>modules_of lab rs. increases (ce_seen k c # ce_readings k rs))"
  shows "verdict (c_findings (edac_run rs c)) inc = FAILED"
proof -
  have "ce_fail (c_opts c) \<le> old_count (c_findings (edac_run rs c)) (''memory-ce:'' @ lab)"
    using edac_exact [OF assms(1), of c] assms(4) unfolding ce_count_def by simp
  then obtain f where "findings_get (c_findings (edac_run rs c)) (''memory-ce:'' @ lab) = Some f" "ce_fail (c_opts c) \<le> f_count f"
    using assms(3) by (auto simp: old_count_def split: option.splits)
  moreover from this have "f_severity f = FAIL" using escalated_run [OF assms(2), of rs] unfolding ce_escalated_def by metis
  ultimately show ?thesis using get_FAIL_verdict by blast
qed

section \<open>A critical temperature stops the test\<close>

lemma judge_crit:
  assumes "plausible_limit (rd_crit r) = Some x" "pf_le x (rd_value r)"
  shows "c_abort (judge_reading now r c) \<and> verdict (c_findings (judge_reading now r c)) inc = FAILED"
proof -
  have "ev_severity (crit_event now r x c) = FAIL" by (simp add: crit_event_def)
  then show ?thesis using assms add_FAIL_verdict by (simp add: judge_reading_def)
qed

lemma abort_keeps [simp]: "c_abort c \<Longrightarrow> c_abort (judge_reading now r c)"
  by (simp add: judge_reading_def split: option.split)

lemma reading_keeps_abort: "c_abort (snd cc) \<Longrightarrow> c_abort (snd (sensor_reading now r cc))"
  by (cases cc) (simp add: sensor_reading_def Let_def)

lemma readings_keep_abort: "c_abort (snd cc) \<Longrightarrow> c_abort (snd (fold (sensor_reading now) rs cc))"
  by (induction rs arbitrary: cc) (simp_all add: reading_keeps_abort)

definition critical :: "reading \<Rightarrow> bool" where
  "critical r \<longleftrightarrow> plausible r \<and> (\<exists>x. plausible_limit (rd_crit r) = Some x \<and> pf_le x (rd_value r))"

lemma FAILED_le: "grows c d \<Longrightarrow> findings_ok (c_findings c) \<Longrightarrow> verdict (c_findings c) inc = FAILED \<Longrightarrow>
    verdict (c_findings d) inc = FAILED"
  using grows_verdict [of c d inc] by (cases "verdict (c_findings d) inc") auto

lemma readings_critical:
  "r \<in> set rs \<Longrightarrow> critical r \<Longrightarrow> findings_ok (c_findings (snd cc)) \<Longrightarrow>
   c_abort (snd (fold (sensor_reading now) rs cc)) \<and> verdict (c_findings (snd (fold (sensor_reading now) rs cc))) inc = FAILED"
proof (induction rs arbitrary: cc)
  case (Cons q rs)
  let ?d = "sensor_reading now q cc"
  have ok: "findings_ok (c_findings (snd ?d))"
    using keeps_ok [OF sensor_reading_keeps [of cc now q]] Cons.prems(3) .
  show ?case
  proof (cases "q = r")
    case True
    obtain current c where cc: "cc = (current, c)" by force
    obtain x where "plausible_limit (rd_crit r) = Some x" "pf_le x (rd_value r)" "plausible r"
      using Cons.prems(2) by (auto simp: critical_def)
    then have "c_abort (snd ?d)" "verdict (c_findings (snd ?d)) inc = FAILED"
      using judge_crit by (simp_all add: True cc sensor_reading_def Let_def)
    then show ?thesis
      using readings_keep_abort FAILED_le [OF keepsD(1) [OF sensor_fold_keeps] ok] by simp
  next
    case False
    with Cons.IH [of ?d] Cons.prems ok show ?thesis by simp
  qed
qed simp

text \<open>C33: a reading at or above the chip's own critical limit aborts the test and fails the machine,
  wherever it stands in the sensor report.\<close>

theorem critical_temperature_aborts:
  assumes "returncode (run_cmd sy [''sensors'', ''-j'']) = 0" "strip (stdout (run_cmd sy [''sensors'', ''-j''])) \<noteq> []"
    and "json (stdout (run_cmd sy [''sensors'', ''-j''])) = Some data" "parse_sensors_json data = Inr rs"
    and "r \<in> set rs" "critical r" "findings_ok (c_findings c)"
  shows "c_abort (snd (sensor_poll json (now, sy) c)) \<and> verdict (c_findings (snd (sensor_poll json (now, sy) c))) inc = FAILED"
proof -
  obtain current c1 where f: "fold (sensor_reading now) rs ([], c) = (current, c1)" by force
  have c1: "c_abort c1" "verdict (c_findings c1) inc = FAILED" "findings_ok (c_findings c1)"
    using readings_critical [OF assms(5,6), of "([], c)" now inc] keeps_ok [OF sensor_fold_keeps [of "([], c)" now rs]] assms(7) f
    by simp_all
  have "snd (sensor_poll json (now, sy) c) =
      (if current = [] then ctx_add now sensors_empty (c1\<lparr>c_temps := current\<rparr>) else c1\<lparr>c_temps := current\<rparr>)"
    using assms(1-4) f by (simp add: sensor_poll_def Let_def)
  moreover have "grows c1 (c1\<lparr>c_temps := current\<rparr>)" by (rule grows_same) simp
  then have "verdict (c_findings (ctx_add now sensors_empty (c1\<lparr>c_temps := current\<rparr>))) inc = FAILED"
    by (intro FAILED_le [OF _ c1(3,2)] grows_trans [OF _ grows_add]) simp_all
  ultimately show ?thesis using c1 by simp
qed

section \<open>BMC events are reported once\<close>

lemma sel_report_hashes [simp]: "c_session (sel_report now line c) = c_session c"
  by (simp add: sel_report_def Let_def split: option.split)

definition scan_ok :: "(string \<Rightarrow> string) \<Rightarrow> string list \<Rightarrow> string list \<times> string list \<times> ctx \<Rightarrow> bool" where
  "scan_ok sha1 base = (\<lambda>(known, fresh, c). set known = set base \<union> set fresh)"

lemma sel_fold_known:
  "scan_ok sha1 base s \<Longrightarrow> scan_ok sha1 base (fold (sel_step sha1 now) lines s) \<and>
   set (fst s) \<union> sel_hash sha1 ` set lines \<subseteq> set (fst (fold (sel_step sha1 now) lines s)) \<and>
   c_session (snd (snd (fold (sel_step sha1 now) lines s))) = c_session (snd (snd s))"
proof (induction lines arbitrary: s)
  case (Cons l ls)
  have "scan_ok sha1 base (sel_step sha1 now l s)" "insert (sel_hash sha1 l) (set (fst s)) \<subseteq> set (fst (sel_step sha1 now l s))"
    "c_session (snd (snd (sel_step sha1 now l s))) = c_session (snd (snd s))"
    using Cons.prems by (auto simp: scan_ok_def sel_step_def Let_def split: prod.splits if_splits)
  with Cons.IH [of "sel_step sha1 now l s"] show ?case by auto
qed simp

lemma sel_fold_none:
  "sel_hash sha1 ` set lines \<subseteq> set known \<Longrightarrow> fold (sel_step sha1 now) lines (known, [], c) = (known, [], c)"
  by (induction lines) (auto simp: sel_step_def Let_def)

text \<open>No event of the BMC's log is reported twice: once a scan has seen an entry, a later scan of
  a log that holds only such entries changes nothing at all.\<close>

theorem bmc_event_reported_once:
  assumes "sel_lines sy = Inr lines" "sel_lines sy' = Inr lines'" "set lines' \<subseteq> set lines"
  shows "snd (sel_scan sha1 (now', sy') (snd (sel_scan sha1 (now, sy) c))) = snd (sel_scan sha1 (now, sy) c)"
proof -
  let ?base = "the_default [] (st_sel_hashes (s_state (c_session c)))"
  obtain known fresh c1 where f: "fold (sel_step sha1 now) lines (?base, [], c) = (known, fresh, c1)"
    by (metis prod_cases3)
  from sel_fold_known [of sha1 ?base "(?base, [], c)" now lines] f
  have k: "set known = set ?base \<union> set fresh" "sel_hash sha1 ` set lines \<subseteq> set known" "c_session c1 = c_session c"
    by (auto simp: scan_ok_def)
  let ?d = "snd (sel_scan sha1 (now, sy) c)"
  have d: "set known \<subseteq> set (the_default [] (st_sel_hashes (s_state (c_session ?d))))"
    using assms(1) f k by (auto simp: sel_scan_def session_update_def Let_def)
  have "sel_hash sha1 ` set lines' \<subseteq> set (the_default [] (st_sel_hashes (s_state (c_session ?d))))"
    using assms(3) k(2) d by blast
  then show ?thesis using assms(2) sel_fold_none by (simp add: sel_scan_def [of _ "(now', sy')"])
qed


text \<open>The same for corrected PCIe errors, through the contract.\<close>

lemma aer_counts_every_error:
  "aer_total bdf (fold (\<lambda>(k, v). aer_cor_step k v) rs c)
    = aer_total bdf c + increases (aer_seen bdf c # map (aer_value \<circ> snd) (filter (\<lambda>r. fst r = bdf) rs))"
  using aer_cor.run_total [where K = "{bdf}" and rs = rs and bdf = bdf and c = c]
  by (simp add: aer_cor.readings_def aer_cor.run_def)

section \<open>Event log classes\<close>

text \<open>
  Entries that say that an event ended (\<open>Deasserted\<close>) are informational unless they match a
  failure pattern.  The alternative \<open>Presence detected.*Deasserted\<close> of the warning pattern is
  therefore never reached for the text that ipmitool prints: a power supply or drive that
  disappears during the test is reported as information only.
\<close>

lemma deasserted_never_warns: "str_in ''Deasserted'' line \<Longrightarrow> classify_sel line \<noteq> Some WARN"
  by (simp add: classify_sel_def)

section \<open>Witnesses\<close>

definition sample_edac :: "int \<Rightarrow> sys" where
  "sample_edac n = \<lparr>
     read_file = (\<lambda>p. if p = ''/sys/devices/system/edac/mc/mc0/dimm0/dimm_ce_count'' then int_str n
                     else if p = ''/sys/devices/system/edac/mc/mc0/dimm0/dimm_label'' then ''DIMM_A1'' else []),
     glob = (\<lambda>p. if p = ''/sys/devices/system/edac/mc/mc[0-9]*'' then [''/sys/devices/system/edac/mc/mc0'']
                else if p = ''/sys/devices/system/edac/mc/mc0/dimm[0-9]*'' then [''/sys/devices/system/edac/mc/mc0/dimm0''] else []),
     path_exists = (\<lambda>_. False), run_cmd = (\<lambda>_. \<lparr>returncode = 0, stdout = [], stderr = []\<rparr>)\<rparr>"

lemma sample_edac_counts:
  "edac_counts (sample_edac 2) = [(''mc0/dimm0'', ''DIMM_A1'', 2, 0), (''mc0/noinfo'', ''mc0 (DIMM unknown)'', 0, 0)]"
  "edac_counts (sample_edac 5) = [(''mc0/dimm0'', ''DIMM_A1'', 5, 0), (''mc0/noinfo'', ''mc0 (DIMM unknown)'', 0, 0)]"
  by code_simp+

text \<open>A later boot: three errors were found before the reset, the counters have started again.\<close>

definition sample_polls :: "(string \<times> sys) list" where
  "sample_polls = [(''t1'', sample_edac 2), (''t2'', sample_edac 5)]"

definition sample_ctx :: ctx where
  "sample_ctx = ctx_add ''t0'' (ce_event ''t0'' ''DIMM_A1'' 0 3) blank_ctx"

lemma sample_readings: "edac_readings sample_polls =
    [(''mc0/dimm0'', ''t1'', ''DIMM_A1'', 2, 0), (''mc0/noinfo'', ''t1'', ''mc0 (DIMM unknown)'', 0, 0),
     (''mc0/dimm0'', ''t2'', ''DIMM_A1'', 5, 0), (''mc0/noinfo'', ''t2'', ''mc0 (DIMM unknown)'', 0, 0)]"
  by (simp add: edac_readings_def sample_polls_def sample_edac_counts)

lemma sample_modules: "modules_of ''DIMM_A1'' sample_polls = {''mc0/dimm0''}" "keeps_label ''DIMM_A1'' sample_polls"
  "ce_readings ''mc0/dimm0'' sample_polls = [2, 5]"
  by (simp_all add: modules_of_def keeps_label_def ce_readings_def sample_readings ce_value_def)

lemma sample_start: "ce_escalated blank_ctx" "ce_seen k blank_ctx = 0" "ce_seen k sample_ctx = 0"
  "ce_count lab blank_ctx = 0"
  by (simp_all add: sample_ctx_def) (simp_all add: ce_seen_def seen_pair_def old_count_def ce_escalated_def ce_count_def)

lemma sample_old: "old_count (c_findings sample_ctx) (''memory-ce:'' @ ''DIMM_A1'') = 3"
  by code_simp

theorem edac_counts_every_error_witness:
  "old_count (c_findings (edac_run sample_polls sample_ctx)) (''memory-ce:'' @ ''DIMM_A1'') = 8"
  using edac_counts_every_error [OF sample_modules(2), of sample_ctx]
  unfolding sample_old by (simp add: sample_modules sample_start)

theorem edac_limit_fails_witness:
  "verdict (c_findings (edac_run sample_polls blank_ctx)) False = FAILED"
  by (rule edac_limit_fails [OF sample_modules(2) sample_start(1)])
    (simp_all add: sample_modules sample_start default_options_def)

definition sample_sensors :: sys where
  "sample_sensors = \<lparr>read_file = \<lambda>_. [], glob = \<lambda>_. [], path_exists = \<lambda>_. False,
     run_cmd = \<lambda>_. \<lparr>returncode = 0, stdout = ''x'', stderr = []\<rparr>\<rparr>"

definition sample_json :: pyval where
  "sample_json = PDict [(''coretemp-isa-0000'', PDict [(''Adapter'', PStr ''ISA''),
     (''Core 0'', PDict [(''temp2_input'', PFloat (Fin 101)), (''temp2_crit'', PInt 100)])])]"

definition sample_reading :: reading where
  "sample_reading = \<lparr>rd_chip = ''coretemp-isa-0000'', rd_label = ''Core 0'', rd_kind = ''temp'', rd_value = Fin 101,
     rd_max = PNone, rd_crit = PInt 100, rd_alarm = False\<rparr>"

lemma sample_parse: "parse_sensors_json sample_json = Inr [sample_reading]"
  by code_simp

theorem critical_temperature_aborts_witness:
  "c_abort (snd (sensor_poll (\<lambda>_. Some sample_json) (''t'', sample_sensors) blank_ctx)) \<and>
   verdict (c_findings (snd (sensor_poll (\<lambda>_. Some sample_json) (''t'', sample_sensors) blank_ctx))) False = FAILED"
proof (rule critical_temperature_aborts [OF _ _ _ sample_parse])
  show "critical sample_reading"
    by (simp add: critical_def plausible_def sample_reading_def plausible_limit_def pf_le_def)
  show "strip (stdout (run_cmd sample_sensors [''sensors'', ''-j''])) \<noteq> []" by code_simp
qed (simp_all add: sample_sensors_def)

definition sample_sel :: sys where
  "sample_sel = sample_sensors\<lparr>run_cmd := \<lambda>_. \<lparr>returncode = 0,
     stdout = ''1 | 01/01/2025 | 10:00:00 | Memory #1 | Uncorrectable ECC | Asserted'', stderr = []\<rparr>\<rparr>"

lemma sample_sel_lines: "sel_lines sample_sel = Inr [''1 | 01/01/2025 | 10:00:00 | Memory #1 | Uncorrectable ECC | Asserted'']"
  by code_simp

theorem bmc_event_reported_once_witness:
  "snd (sel_scan id (''t2'', sample_sel) (snd (sel_scan id (''t1'', sample_sel) blank_ctx)))
     = snd (sel_scan id (''t1'', sample_sel) blank_ctx)"
  by (rule bmc_event_reported_once [OF sample_sel_lines sample_sel_lines]) simp

end
