(* ===== verification/Smart.thy ===== *)
theory Smart
  imports PyJson Monitors
begin

text \<open>
  Models the discovery and SMART part of \<open>disks.py\<close>: block devices, SMART targets, the metrics that
  are compared before and after the burn-in, the judgement of a report and the self-test result.
  \<open>json\<close> is \<open>json.loads\<close> (\<open>None\<close>: \<open>ValueError\<close>).  A report is a Python value, so that malformed
  tool output raises where the code raises.
\<close>

section \<open>Discovery\<close>

definition LSBLK :: "string list" where
  "LSBLK = [''lsblk'', ''-J'', ''-b'', ''-d'', ''-o'', ''NAME,TYPE,SIZE,MODEL,SERIAL,WWN,ROTA,TRAN,RO,RM'']"

definition truth_text :: "pyval \<Rightarrow> bool" where
  "truth_text v = (py_str v \<in> {''1'', ''True'', ''true''})"

definition VIRTUAL :: "string list" where
  "VIRTUAL = [''loop'', ''ram'', ''zram'', ''sr'', ''fd'', ''nbd'', ''md'', ''dm-'']"

text \<open>\<open>(d.get(k) or dflt)\<close> that must be a string, and \<open>int(d.get("size") or 0)\<close>.\<close>

definition str_or :: "pyval \<Rightarrow> string \<Rightarrow> exn + string" where
  "str_or d k = ebind (py_or (py_get d k PNone) (Inr (PStr []))) py_as_str"

definition dev_size :: "pyval \<Rightarrow> exn + int" where
  "dev_size d = ebind (py_or (py_get d ''size'' PNone) (Inr (PInt 0))) py_int_of"

definition block_disk_of :: "string \<Rightarrow> int \<Rightarrow> pyval \<Rightarrow> exn + block_disk" where
  "block_disk_of name sz d =
    ebind (str_or d ''model'') (\<lambda>model. ebind (str_or d ''serial'') (\<lambda>serial. ebind (str_or d ''wwn'') (\<lambda>wwn.
    ebind (py_get d ''rota'' PNone) (\<lambda>rota. ebind (str_or d ''tran'') (\<lambda>tran.
      Inr \<lparr>d_name = name, d_path = ''/dev/'' @ name, d_size = sz, d_model = strip model, d_serial = strip serial,
           d_wwn = wwn, d_rotational = truth_text rota, d_transport = tran\<rparr>)))))"

definition block_dev :: "string list \<Rightarrow> pyval \<Rightarrow> block_disk list \<Rightarrow> exn + block_disk list" where
  "block_dev exclude d disks =
    ebind (py_get d ''name'' (PStr [])) (\<lambda>nv. ebind (py_get d ''type'' PNone) (\<lambda>t.
    if t \<noteq> PStr ''disk'' then Inr disks
    else ebind (py_as_str nv) (\<lambda>name.
    if name \<in> set exclude \<or> (\<exists>p \<in> set VIRTUAL. startswith name p) then Inr disks
    else ebind (dev_size d) (\<lambda>sz. ebind (py_get d ''ro'' PNone) (\<lambda>ro.
    if sz = 0 \<or> truth_text ro then Inr disks
    else ebind (block_disk_of name sz d) (\<lambda>b. Inr (disks @ [b])))))))"

definition block_disks :: "(string \<Rightarrow> pyval option) \<Rightarrow> sys \<Rightarrow> string list \<Rightarrow> exn + block_disk list" where
  "block_disks json sy exclude = (let res = run_cmd sy LSBLK in
     if returncode res \<noteq> 0 then Inl (RuntimeError (''Block device discovery failed: '' @ strip (stderr res)))
     else (case json (stdout res) of
       None \<Rightarrow> Inl (RuntimeError ''Block device discovery returned invalid JSON'')
     | Some v \<Rightarrow> ebind (py_get v ''blockdevices'' (PList [])) (\<lambda>ds. ebind (py_iter ds) (\<lambda>ds.
         efold (block_dev exclude) ds []))))"

definition disk_id :: "block_disk \<Rightarrow> string" where
  "disk_id d = (if d_serial d \<noteq> [] then d_serial d else if d_wwn d \<noteq> [] then d_wwn d else d_name d)"

record smart_dev =
  sd_name :: string
  sd_type :: string

definition smart_dev_step :: "string list \<Rightarrow> pyval \<Rightarrow> smart_dev list \<Rightarrow> exn + smart_dev list" where
  "smart_dev_step exclude d result =
    ebind (ebind (py_get d ''name'' (PStr [])) py_as_str) (\<lambda>name.
    ebind (ebind (py_get d ''type'' (PStr [])) py_as_str) (\<lambda>t.
    if basename name \<in> set exclude \<and> CHR '','' \<notin> set t then Inr result
    else ebind (ebind (py_get d ''type'' (PStr ''auto'')) py_as_str) (\<lambda>t. Inr (result @ [\<lparr>sd_name = name, sd_type = t\<rparr>]))))"

definition smart_devices :: "(string \<Rightarrow> pyval option) \<Rightarrow> sys \<Rightarrow> string list \<Rightarrow> exn + smart_dev list" where
  "smart_devices json sy exclude = (let res = run_cmd sy [''smartctl'', ''--scan-open'', ''-j''] in
     if returncode res \<noteq> 0 then Inl (RuntimeError (''SMART device discovery failed: '' @ strip (stderr res)))
     else (case json (stdout res) of
       None \<Rightarrow> Inl (RuntimeError ''SMART device discovery returned invalid JSON'')
     | Some v \<Rightarrow> ebind (py_get v ''devices'' (PList [])) (\<lambda>ds. ebind (py_iter ds) (\<lambda>ds.
         efold (smart_dev_step exclude) ds []))))"

definition smart_read :: "(string \<Rightarrow> pyval option) \<Rightarrow> sys \<Rightarrow> smart_dev \<Rightarrow> pyval" where
  "smart_read json sy dev = (case json (stdout (run_cmd sy [''smartctl'', ''-j'', ''-x'', ''-d'', sd_type dev, sd_name dev])) of
     Some v \<Rightarrow> v | None \<Rightarrow> PDict [])"

definition smart_label :: "pyval \<Rightarrow> smart_dev \<Rightarrow> exn + string" where
  "smart_label data dev =
    ebind (py_or (py_get data ''model_name'' PNone) (py_or (py_get data ''scsi_model_name'' PNone)
      (py_or (py_get data ''model_family'' PNone) (Inr (PStr []))))) (\<lambda>model.
    ebind (py_get data ''serial_number'' (PStr [])) (\<lambda>serial.
      Inr (strip (sd_name dev @ (if CHR '','' \<in> set (sd_type dev) then ''/'' @ sd_type dev else []) @ '' '' @
        py_str model @ '' SN:'' @ py_str serial))))"

section \<open>Metrics\<close>

definition ata_attrs :: "pyval \<Rightarrow> exn + (pyval, pyval) dict" where
  "ata_attrs data = ebind (py_path data [''ata_smart_attributes'', ''table''] (PList [])) (\<lambda>t. ebind (py_iter t) (\<lambda>xs.
     efold (\<lambda>a attrs. ebind (py_get a ''id'' PNone) (\<lambda>i. ebind (py_key i) (\<lambda>k. Inr (AList.update k a attrs)))) xs []))"

definition METRIC_ATTRS :: "(int \<times> string) list" where
  "METRIC_ATTRS = [(5, ''reallocated''), (187, ''reported_uncorrect''), (197, ''pending''), (198, ''offline_uncorrectable''),
     (199, ''udma_crc''), (10, ''spin_retry''), (184, ''end_to_end''), (196, ''realloc_events'')]"

definition attr_metric :: "(pyval, pyval) dict \<Rightarrow> int \<times> string \<Rightarrow> (string, int) dict \<Rightarrow> exn + (string, int) dict" where
  "attr_metric attrs p m = (case map_of attrs (PInt (fst p)) of
     None \<Rightarrow> Inr m
   | Some a \<Rightarrow> ebind (ebind (py_path a [''raw'', ''value''] (PInt 0)) py_int_of) (\<lambda>n.
       Inr (AList.update (snd p) (n mod 2 ^ 32) m)))"

definition NVME_KEYS :: "string list" where
  "NVME_KEYS = [''critical_warning'', ''media_errors'', ''num_err_log_entries'', ''percentage_used'',
     ''available_spare'', ''available_spare_threshold'']"

definition key_metric :: "pyval \<Rightarrow> string \<times> string \<Rightarrow> (string, int) dict \<Rightarrow> exn + (string, int) dict" where
  "key_metric v p m = ebind (py_contains v (fst p)) (\<lambda>b. if \<not> b then Inr m
     else ebind (ebind (py_item v (fst p)) py_int_of) (\<lambda>n. Inr (AList.update (snd p) n m)))"

definition scsi_metric :: "pyval \<Rightarrow> string \<Rightarrow> (string, int) dict \<Rightarrow> exn + (string, int) dict" where
  "scsi_metric data op m = ebind (py_path data [''scsi_error_counter_log'', op] (PDict [])) (\<lambda>errs.
     key_metric errs (''total_uncorrected_errors'', ''scsi_'' @ op @ ''_uncorrected'') m)"

definition smart_metrics :: "pyval \<Rightarrow> exn + (string, int) dict" where
  "smart_metrics data = ebind (ata_attrs data) (\<lambda>attrs.
     ebind (efold (attr_metric attrs) METRIC_ATTRS []) (\<lambda>m.
     ebind (py_get data ''nvme_smart_health_information_log'' PNone) (\<lambda>nvme.
     ebind (if truthy nvme then efold (\<lambda>k. key_metric nvme (k, k)) NVME_KEYS m else Inr m) (\<lambda>m.
     ebind (key_metric data (''scsi_grown_defect_list'', ''grown_defects'') m) (\<lambda>m.
     efold (scsi_metric data) [''read'', ''write'', ''verify''] m)))))"

section \<open>Self-test state\<close>

definition selftest_table :: "pyval \<Rightarrow> exn + pyval" where
  "selftest_table data = ebind (py_get data ''ata_smart_self_test_log'' (PDict [])) (\<lambda>ata.
     py_or (py_path ata [''extended'', ''table''] PNone) (py_path ata [''standard'', ''table''] (PList [])))"

definition selftest_in_progress :: "pyval \<Rightarrow> exn + bool" where
  "selftest_in_progress data =
    ebind (py_path data [''ata_smart_data'', ''self_test'', ''status'', ''remaining_percent''] PNone) (\<lambda>r.
    if r \<noteq> PNone then Inr True
    else ebind (py_path data [''nvme_self_test_log'', ''current_self_test_operation'', ''value''] (PInt 0)) (\<lambda>v.
    if \<not> py_eq_int v 0 then Inr True
    else ebind (py_path data [''scsi_self_test_0'', ''self_test_in_progress''] (PBool False)) (\<lambda>b. Inr (truthy b))))"

text \<open>The result of the latest self-test, and the log that identifies it.\<close>

definition selftest_result :: "pyval \<Rightarrow> exn + pyval \<times> pyval" where
  "selftest_result data = ebind (py_or (selftest_table data) (Inr (PList []))) (\<lambda>table.
    if truthy table then ebind (py_first table) (\<lambda>e. ebind (py_path e [''status'', ''passed''] PNone) (\<lambda>p. Inr (p, table)))
    else ebind (py_path data [''nvme_self_test_log'', ''table''] (PList [])) (\<lambda>table.
    if truthy table then ebind (py_first table) (\<lambda>e. ebind (py_path e [''self_test_result'', ''value''] PNone) (\<lambda>v.
      Inr (PBool (py_eq_int v 0), table)))
    else ebind (py_get data ''scsi_self_test_0'' PNone) (\<lambda>scsi.
    if truthy scsi then ebind (py_path scsi [''result'', ''value''] PNone) (\<lambda>v. Inr (PBool (py_eq_int v 0), scsi))
    else Inr (PNone, PNone))))"

definition is_solid_state :: "pyval \<Rightarrow> exn + bool" where
  "is_solid_state data = ebind (py_contains data ''nvme_smart_health_information_log'') (\<lambda>b. if b then Inr True
     else ebind (py_get data ''rotation_rate'' PNone) (\<lambda>r. Inr (py_eq_int r 0)))"

section \<open>Judging a report\<close>

function hex_digits :: "int \<Rightarrow> string" where
  "hex_digits n = (if n < 16 then [nibble (nat n)] else hex_digits (n div 16) @ [nibble (nat (n mod 16))])"
  by pat_completeness auto
termination
  by (relation "measure nat") auto

declare hex_digits.simps [simp del]

definition hex2 :: "int \<Rightarrow> string" where
  "hex2 n = (if n < 0 then CHR ''-'' # rjust 1 (CHR ''0'') (hex_digits (- n)) else rjust 2 (CHR ''0'') (hex_digits n))"

definition spaced :: "string \<Rightarrow> string" where
  "spaced name = replace_char (CHR ''_'') (CHR '' '') name"

definition smart_event :: "string \<Rightarrow> string \<Rightarrow> string \<Rightarrow> severity \<Rightarrow> string \<Rightarrow> string \<Rightarrow> event" where
  "smart_event dev label key sev title detail =
     (event (''smart:'' @ dev @ '':'' @ key) sev ''Storage'' (title @ '' - '' @ label))
       \<lparr>ev_detail := detail, ev_recommendation := REC_DISK\<rparr>"

type_synonym report_step = "event list \<Rightarrow> exn + event list"

definition smart_add :: "string \<Rightarrow> string \<Rightarrow> severity \<Rightarrow> string \<Rightarrow> string \<Rightarrow> report_step" where
  "smart_add label key sev title detail fs = (case split_ws label of
     [] \<Rightarrow> Inl (IndexError ''list index out of range'')
   | dev # _ \<Rightarrow> Inr (fs @ [smart_event dev label key sev title detail]))"

definition add_when :: "bool \<Rightarrow> report_step \<Rightarrow> report_step" where
  "add_when b f fs = (if b then f fs else Inr fs)"

definition health_step :: "string \<Rightarrow> pyval \<Rightarrow> report_step" where
  "health_step label data fs = ebind (py_path data [''smart_status'', ''passed''] PNone) (\<lambda>p.
     add_when (p = PBool False) (smart_add label ''health'' FAIL ''SMART overall health check FAILED'' []) fs)"

definition attr_step :: "string \<Rightarrow> pyval \<Rightarrow> report_step" where
  "attr_step label a fs = ebind (py_get a ''when_failed'' (PStr [])) (\<lambda>wf.
     ebind (py_get a ''id'' PNone) (\<lambda>i. ebind (py_get a ''name'' PNone) (\<lambda>n.
     if wf = PStr ''now'' then smart_add label (''attr'' @ py_str i) FAIL (''SMART attribute '' @ py_str n @ '' is failing now'') [] fs
     else if wf = PStr ''past'' then smart_add label (''attr'' @ py_str i) WARN (''SMART attribute '' @ py_str n @ '' failed in the past'') [] fs
     else Inr fs)))"

definition NONZERO :: "(string \<times> severity) list" where
  "NONZERO = [(''pending'', FAIL), (''offline_uncorrectable'', FAIL), (''reallocated'', WARN), (''reported_uncorrect'', WARN),
     (''spin_retry'', WARN), (''end_to_end'', FAIL), (''media_errors'', FAIL), (''grown_defects'', WARN),
     (''scsi_read_uncorrected'', FAIL), (''scsi_write_uncorrected'', FAIL), (''scsi_verify_uncorrected'', FAIL)]"

definition metric_step :: "string \<Rightarrow> (string, int) dict \<Rightarrow> string \<times> severity \<Rightarrow> report_step" where
  "metric_step label m p fs = add_when (dict_get m (fst p) 0 > 0)
     (smart_add label (fst p) (snd p) (''SMART '' @ spaced (fst p) @ '' = '' @ int_str (dict_get m (fst p) 0)) []) fs"

definition critical_step :: "string \<Rightarrow> (string, int) dict \<Rightarrow> report_step" where
  "critical_step label m fs = (let w = dict_get m ''critical_warning'' 0 in add_when (w \<noteq> 0)
     (smart_add label ''critical_warning'' FAIL (''NVMe critical warning flags 0x'' @ hex2 w) []) fs)"

definition wear_step :: "string \<Rightarrow> (string, int) dict \<Rightarrow> report_step" where
  "wear_step label m fs = (let u = dict_get m ''percentage_used'' 0 in add_when (u \<ge> 90)
     (smart_add label ''wear'' WARN (''SSD endurance used '' @ int_str u @ ''%'') []) fs)"

definition spare_step :: "string \<Rightarrow> (string, int) dict \<Rightarrow> report_step" where
  "spare_step label m fs = (case map_of m ''available_spare'' of None \<Rightarrow> Inr fs
   | Some v \<Rightarrow> add_when (v < dict_get m ''available_spare_threshold'' 0)
       (smart_add label ''spare'' FAIL (''NVMe available spare '' @ int_str v @ ''% below threshold'') []) fs)"

definition NOT_COUNTERS :: "string list" where
  "NOT_COUNTERS = [''percentage_used'', ''available_spare'', ''available_spare_threshold'', ''num_err_log_entries'']"

definition growth_step :: "string \<Rightarrow> (string, int) dict \<Rightarrow> string \<times> int \<Rightarrow> report_step" where
  "growth_step label before p fs = (case p of (name, value) \<Rightarrow>
     if name \<in> set NOT_COUNTERS then Inr fs
     else (case map_of before name of None \<Rightarrow> Inr fs
       | Some prev \<Rightarrow> add_when (value > prev) (smart_add label (''grew:'' @ name) (if name = ''udma_crc'' then WARN else FAIL)
           (''SMART '' @ spaced name @ '' increased during the test ('' @ int_str prev @ '' -> '' @ int_str value @ '')'')
           (if name = ''udma_crc'' then ''udma_crc errors point to the SATA cable/backplane'' else [])) fs))"

definition ata_selftest_step :: "string \<Rightarrow> pyval \<Rightarrow> report_step" where
  "ata_selftest_step label data fs = ebind (selftest_table data) (\<lambda>log.
     if \<not> truthy log then Inr fs
     else ebind (py_first log) (\<lambda>e. ebind (py_get e ''status'' (PDict [])) (\<lambda>st. ebind (py_get st ''passed'' PNone) (\<lambda>p.
       if p = PBool False then ebind (py_get st ''string'' (PStr [])) (\<lambda>t.
         smart_add label ''selftest'' FAIL (''SMART self-test failed: '' @ py_str t) [] fs)
       else Inr fs))))"

definition nvme_selftest_step :: "string \<Rightarrow> pyval \<Rightarrow> report_step" where
  "nvme_selftest_step label data fs = ebind (py_path data [''nvme_self_test_log'', ''table''] (PList [])) (\<lambda>log.
     if \<not> truthy log then Inr fs
     else ebind (py_first log) (\<lambda>e. ebind (py_path e [''self_test_result'', ''value''] (PInt 0)) (\<lambda>r.
       if py_eq_int r 5 \<or> py_eq_int r 6 \<or> py_eq_int r 7 then ebind (py_path e [''self_test_result'', ''string''] r) (\<lambda>t.
         smart_add label ''selftest'' FAIL (''NVMe self-test failed: '' @ py_str t) [] fs)
       else Inr fs)))"

definition scsi_selftest_step :: "string \<Rightarrow> pyval \<Rightarrow> report_step" where
  "scsi_selftest_step label data fs = ebind (py_path data [''scsi_self_test_0'', ''result''] (PDict [])) (\<lambda>res.
     ebind (py_get res ''value'' PNone) (\<lambda>v.
     if \<exists>n \<in> {3, 4, 5, 6, 7}. py_eq_int v n then ebind (py_get res ''string'' (PStr [])) (\<lambda>t.
       smart_add label ''selftest'' FAIL (''SCSI self-test failed: '' @ py_str t) [] fs)
     else Inr fs))"

text \<open>\<open>before\<close> is empty when the caller gives no metrics.\<close>

definition report_steps :: "string \<Rightarrow> pyval \<Rightarrow> (string, int) dict \<Rightarrow> (string, int) dict \<Rightarrow> (pyval, pyval) dict \<Rightarrow> report_step list" where
  "report_steps label data before m attrs =
     map (\<lambda>p. attr_step label (snd p)) attrs @ map (metric_step label m) NONZERO @
     [critical_step label m, wear_step label m, spare_step label m] @
     map (growth_step label before) m @
     [ata_selftest_step label data, nvme_selftest_step label data, scsi_selftest_step label data]"

definition evaluate_smart :: "pyval \<Rightarrow> string \<Rightarrow> (string, int) dict \<Rightarrow> exn + event list" where
  "evaluate_smart data label before =
    (if \<not> truthy data then Inr []
     else ebind (health_step label data []) (\<lambda>fs. ebind (smart_metrics data) (\<lambda>m. ebind (ata_attrs data) (\<lambda>attrs.
       efold (\<lambda>f. f) (report_steps label data before m attrs) fs))))"

section \<open>What a report yields\<close>

text \<open>Every step only appends storage events.\<close>

definition extends :: "report_step \<Rightarrow> bool" where
  "extends f \<longleftrightarrow> (\<forall>fs gs. f fs = Inr gs \<longrightarrow> (\<exists>es. gs = fs @ es \<and> (\<forall>e \<in> set es. legal e \<and> ev_component e = ''Storage'')))"

lemma extendsI: "(\<And>fs gs. f fs = Inr gs \<Longrightarrow> \<exists>es. gs = fs @ es \<and> (\<forall>e \<in> set es. legal e \<and> ev_component e = ''Storage'')) \<Longrightarrow> extends f"
  by (simp add: extends_def)

lemma smart_event_fields [simp]:
  "ev_severity (smart_event d l k s t x) = s" "ev_count (smart_event d l k s t x) = 1"
  "ev_component (smart_event d l k s t x) = ''Storage''" "ev_incomplete (smart_event d l k s t x) = False"
  "legal (smart_event d l k s t x)"
  by (simp_all add: smart_event_def legal_def)

lemma extends_same [simp]: "extends Inr"
  by (simp add: extends_def)

lemma extends_add [simp]: "extends (smart_add label key sev title detail)"
  by (rule extendsI) (auto simp: smart_add_def split: list.splits)

lemma extends_add_when [simp]: "extends f \<Longrightarrow> extends (add_when b f)"
  by (cases b) (simp_all add: extends_def add_when_def)

lemma extends_ebind: "(\<And>v. v0 = Inr v \<Longrightarrow> extends (f v)) \<Longrightarrow> extends (\<lambda>fs. ebind v0 (\<lambda>v. f v fs))"
  by (cases v0) (simp_all add: extends_def)

lemma extends_if: "extends f \<Longrightarrow> extends g \<Longrightarrow> extends (\<lambda>fs. if b then f fs else g fs)"
  by (cases b) simp_all

lemmas extends_intros = extends_ebind extends_if

lemma extends_steps: "\<forall>f \<in> set (report_steps label data before m attrs). extends f"
proof -
  have "extends (attr_step label a)" for a
    unfolding attr_step_def by (intro extends_intros extends_add extends_same)
  moreover have "extends (metric_step label m p)" "extends (critical_step label m)" "extends (wear_step label m)" for p
    unfolding metric_step_def critical_step_def wear_step_def Let_def by (intro extends_add_when extends_add)+
  moreover have "extends (spare_step label m)"
    by (rule extendsI) (auto simp: spare_step_def add_when_def smart_add_def split: if_splits option.splits list.splits)
  moreover have "extends (growth_step label before p)" for p
    by (rule extendsI) (auto simp: growth_step_def add_when_def smart_add_def split: if_splits option.splits prod.splits list.splits)
  moreover have "extends (ata_selftest_step label data)" "extends (nvme_selftest_step label data)" "extends (scsi_selftest_step label data)"
    unfolding ata_selftest_step_def nvme_selftest_step_def scsi_selftest_step_def
    by (intro extends_intros extends_add extends_same)+
  ultimately show ?thesis by (auto simp: report_steps_def)
qed

lemma efold_extends:
  "\<forall>f \<in> set steps. extends f \<Longrightarrow> efold (\<lambda>f. f) steps fs = Inr gs \<Longrightarrow>
   \<exists>es. gs = fs @ es \<and> (\<forall>e \<in> set es. legal e \<and> ev_component e = ''Storage'')"
proof (induction steps arbitrary: fs)
  case (Cons f steps)
  then obtain hs where hs: "f fs = Inr hs" "efold (\<lambda>f. f) steps hs = Inr gs" by auto
  have "extends f" using Cons.prems by simp
  then obtain a where "hs = fs @ a" "\<forall>e \<in> set a. legal e \<and> ev_component e = ''Storage''"
    using hs(1) unfolding extends_def by blast
  then show ?case using Cons.IH [OF _ hs(2)] Cons.prems(1) by fastforce
qed simp

text \<open>Whatever one of the steps adds is in the final list.\<close>

lemma efold_step_in:
  "\<forall>f \<in> set steps. extends f \<Longrightarrow> efold (\<lambda>f. f) steps fs = Inr gs \<Longrightarrow> g \<in> set steps \<Longrightarrow>
   \<exists>a b. g a = Inr b \<and> set b \<subseteq> set gs"
proof (induction steps arbitrary: fs)
  case (Cons f steps)
  then obtain hs where hs: "f fs = Inr hs" "efold (\<lambda>f. f) steps hs = Inr gs" by auto
  show ?case
  proof (cases "g = f")
    case True
    have "set hs \<subseteq> set gs" using efold_extends [OF _ hs(2)] Cons.prems(1) by auto
    then show ?thesis using True hs(1) by blast
  next
    case False
    then show ?thesis using Cons.IH [OF _ hs(2)] Cons.prems by auto
  qed
qed simp

lemma smart_add_FAIL: "smart_add label key FAIL title detail fs = Inr gs \<Longrightarrow> \<exists>e \<in> set gs. ev_severity e = FAIL"
  by (auto simp: smart_add_def split: list.splits)

lemma evaluate_cases:
  assumes "evaluate_smart data label before = Inr es"
  obtains "\<not> truthy data" "es = []"
  | fs m attrs where "truthy data" "health_step label data [] = Inr fs" "smart_metrics data = Inr m" "ata_attrs data = Inr attrs"
      "efold (\<lambda>f. f) (report_steps label data before m attrs) fs = Inr es"
  using assms by (auto simp: evaluate_smart_def split: if_splits)

lemma extends_health: "extends (health_step label data)"
  unfolding health_step_def by (intro extends_ebind extends_add_when extends_add)

lemma evaluate_legal: "evaluate_smart data label before = Inr es \<Longrightarrow> e \<in> set es \<Longrightarrow> legal e \<and> ev_component e = ''Storage''"
proof (erule evaluate_cases, simp)
  fix fs m attrs
  assume e: "e \<in> set es" and fs: "health_step label data [] = Inr fs"
    and es: "efold (\<lambda>f. f) (report_steps label data before m attrs) fs = Inr es"
  from extends_health fs have "\<forall>e \<in> set fs. legal e \<and> ev_component e = ''Storage''" unfolding extends_def by fastforce
  then show ?thesis using efold_extends [OF extends_steps es] e by auto
qed

lemma step_reported:
  assumes "evaluate_smart data label before = Inr es" "truthy data" "smart_metrics data = Inr m" "ata_attrs data = Inr attrs"
    and "g \<in> set (report_steps label data before m attrs)"
  shows "\<exists>a b. g a = Inr b \<and> set b \<subseteq> set es"
  using assms(1) by (rule evaluate_cases) (use assms in \<open>auto dest: efold_step_in [OF extends_steps]\<close>)

lemma growth_reported:
  assumes ev: "evaluate_smart data label before = Inr es" and m: "smart_metrics data = Inr m" and t: "truthy data"
    and "(name, v) \<in> set m" "map_of before name = Some p" "p < v" "name \<notin> set NOT_COUNTERS" "name \<noteq> ''udma_crc''"
  shows "\<exists>e \<in> set es. ev_severity e = FAIL"
proof -
  obtain attrs where a: "ata_attrs data = Inr attrs" using m by (auto simp: smart_metrics_def)
  have "growth_step label before (name, v) \<in> set (report_steps label data before m attrs)"
    using assms(4) by (simp add: report_steps_def)
  from step_reported [OF ev t m a this] obtain x b where b: "growth_step label before (name, v) x = Inr b" "set b \<subseteq> set es" by blast
  have "\<exists>e \<in> set b. ev_severity e = FAIL"
    using b(1) assms(5-8) by (intro smart_add_FAIL) (simp add: growth_step_def add_when_def)
  then show ?thesis using b(2) by blast
qed

lemma failed_selftest_reported:
  assumes ev: "evaluate_smart data label before = Inr es" and t: "truthy data"
    and "selftest_table data = Inr tab" "truthy tab" "py_first tab = Inr e" "py_get e ''status'' (PDict []) = Inr st"
      "py_get st ''passed'' PNone = Inr (PBool False)"
  shows "\<exists>e \<in> set es. ev_severity e = FAIL"
proof -
  from ev t obtain m attrs where m: "smart_metrics data = Inr m" "ata_attrs data = Inr attrs" by (auto elim: evaluate_cases)
  have "ata_selftest_step label data \<in> set (report_steps label data before m attrs)" by (simp add: report_steps_def)
  from step_reported [OF ev t m this] obtain x b where b: "ata_selftest_step label data x = Inr b" "set b \<subseteq> set es" by blast
  have "\<exists>e \<in> set b. ev_severity e = FAIL"
    using b(1) assms(3-7) by (auto simp: ata_selftest_step_def intro: smart_add_FAIL)
  then show ?thesis using b(2) by blast
qed

end
