(* ===== verification/SurfaceScan.thy ===== *)
theory SurfaceScan
  imports Smart
begin

text \<open>
  Models the read loop of \<open>SurfaceScan.run\<close> in \<open>disks.py\<close>.  The device is a parameter: for each
  iteration, whether the stop event is set, what \<open>os.preadv\<close> does and how long it takes.  The
  loop needs no fuel: each iteration moves the offset or ends it.
\<close>

section \<open>The loop\<close>

definition CHUNK :: int where
  "CHUNK = 4 * 1024 * 1024"

definition MAX_READ_ERRORS :: nat where
  "MAX_READ_ERRORS = 64"

datatype read_result = Read_bytes int | Read_failed string

text \<open>One iteration on a read result and its duration; the flag says whether the loop goes on.\<close>

definition chunk_length :: "surface_scan \<Rightarrow> int" where
  "chunk_length s = min CHUNK (d_size (ss_disk s) - ss_offset s)"

definition SHORT_DEVICE :: string where
  "SHORT_DEVICE = ''Unexpected end of device before its advertised size''"

definition scan_read :: "pyfloat \<Rightarrow> read_result \<times> rat \<Rightarrow> surface_scan \<Rightarrow> bool \<times> surface_scan" where
  "scan_read slow rd s = (case rd of
     (Read_failed err, dt) \<Rightarrow>
       (let s1 = s\<lparr>ss_errors := ss_errors s @ [(ss_offset s, err)]\<rparr> in
        if MAX_READ_ERRORS \<le> length (ss_errors s1) then (False, s1\<lparr>ss_aborted := True\<rparr>)
        else (True, s1\<lparr>ss_offset := ss_offset s + chunk_length s\<rparr>))
   | (Read_bytes n, dt) \<Rightarrow>
       (let s1 = s\<lparr>ss_seconds := fl (ss_seconds s + dt),
                   ss_slow_reads := ss_slow_reads s + (if pf_less slow (Fin dt) then 1 else 0)\<rparr> in
        if n \<le> 0 then (False, s1\<lparr>ss_errors := ss_errors s @ [(ss_offset s, SHORT_DEVICE)]\<rparr>)
        else (True, s1\<lparr>ss_bytes_read := ss_bytes_read s + n, ss_offset := ss_offset s + n\<rparr>)))"

definition scan_active :: "(nat \<Rightarrow> bool \<times> read_result \<times> rat) \<Rightarrow> nat \<Rightarrow> surface_scan \<Rightarrow> bool" where
  "scan_active io i s \<longleftrightarrow> ss_offset s < d_size (ss_disk s) \<and> \<not> fst (io i)"

definition left_to_read :: "surface_scan \<Rightarrow> nat" where
  "left_to_read s = nat (d_size (ss_disk s) - ss_offset s)"

lemma scan_read_disk [simp]: "ss_disk (snd (scan_read slow rd s)) = ss_disk s"
  by (simp add: scan_read_def Let_def split: prod.split read_result.split)

lemma scan_read_progress:
  "scan_active io i s \<Longrightarrow> scan_read slow rd s = (True, s') \<Longrightarrow> left_to_read s' < left_to_read s"
  by (auto simp: scan_active_def left_to_read_def scan_read_def Let_def chunk_length_def CHUNK_def
      split: prod.splits read_result.splits if_splits)

function scan_loop :: "pyfloat \<Rightarrow> (nat \<Rightarrow> bool \<times> read_result \<times> rat) \<Rightarrow> nat \<Rightarrow> surface_scan \<Rightarrow> surface_scan" where
  "scan_loop slow io i s = (if \<not> scan_active io i s then s
     else (case scan_read slow (snd (io i)) s of
         (True, s') \<Rightarrow> scan_loop slow io (Suc i) s'
       | (False, s') \<Rightarrow> s'))"
  by pat_completeness auto
termination
  by (relation "measure (\<lambda>(slow, io, i, s). left_to_read s)") (auto intro: scan_read_progress [OF _ sym])

declare scan_loop.simps [simp del]

text \<open>The reads that the loop issues: offset, length and result.\<close>

function scan_calls :: "pyfloat \<Rightarrow> (nat \<Rightarrow> bool \<times> read_result \<times> rat) \<Rightarrow> nat \<Rightarrow> surface_scan \<Rightarrow> (int \<times> int \<times> read_result) list" where
  "scan_calls slow io i s = (if \<not> scan_active io i s then []
     else (ss_offset s, chunk_length s, fst (snd (io i))) #
       (case scan_read slow (snd (io i)) s of
         (True, s') \<Rightarrow> scan_calls slow io (Suc i) s'
       | (False, s') \<Rightarrow> []))"
  by pat_completeness auto
termination
  by (relation "measure (\<lambda>(slow, io, i, s). left_to_read s)") (auto intro: scan_read_progress [OF _ sym])

declare scan_calls.simps [simp del]

definition scan_close :: "surface_scan \<Rightarrow> surface_scan" where
  "scan_close s = (if d_size (ss_disk s) \<le> ss_offset s \<or> ss_aborted s then s\<lparr>ss_done := True\<rparr> else s)"

definition scan_run :: "pyfloat \<Rightarrow> (nat \<Rightarrow> bool \<times> read_result \<times> rat) \<Rightarrow> surface_scan \<Rightarrow> surface_scan" where
  "scan_run slow io s = (scan_close (scan_loop slow io 0 s))\<lparr>ss_alive := False\<rparr>"

definition new_scan :: "block_disk \<Rightarrow> int \<Rightarrow> surface_scan" where
  "new_scan d offset = \<lparr>ss_disk = d, ss_offset = offset, ss_errors = [], ss_slow_reads = 0, ss_bytes_read = 0,
     ss_seconds = 0, ss_done = False, ss_aborted = False, ss_alive = True\<rparr>"

lemma new_scan_simps [simp]:
  "ss_disk (new_scan d k) = d" "ss_offset (new_scan d k) = k" "ss_errors (new_scan d k) = []"
  "\<not> ss_done (new_scan d k)" "\<not> ss_aborted (new_scan d k)"
  by (simp_all add: new_scan_def)

definition scan_progress :: "surface_scan \<Rightarrow> rat" where
  "scan_progress s = (if d_size (ss_disk s) \<noteq> 0 then min 1 (fl (of_int (ss_offset s) / of_int (d_size (ss_disk s)))) else 1)"

definition scan_rate :: "surface_scan \<Rightarrow> rat" where
  "scan_rate s = (if ss_seconds s > 0 then fl (of_int (ss_bytes_read s) / ss_seconds s) else 0)"

section \<open>The loop covers the surface\<close>

text \<open>A read covers its bytes when it returned them, or when it failed and its offset is recorded.\<close>

definition covers :: "(int \<times> string) list \<Rightarrow> int \<times> int \<times> read_result \<Rightarrow> int \<Rightarrow> bool" where
  "covers errs call b = (case call of (off, len, res) \<Rightarrow> (case res of
     Read_bytes n \<Rightarrow> off \<le> b \<and> b < off + n
   | Read_failed err \<Rightarrow> off \<le> b \<and> b < off + len \<and> (off, err) \<in> set errs))"

lemma covers_mono: "covers errs call b \<Longrightarrow> set errs \<subseteq> set errs' \<Longrightarrow> covers errs' call b"
  by (auto simp: covers_def split: prod.splits read_result.splits)

lemma scan_read_errors: "set (ss_errors s) \<subseteq> set (ss_errors (snd (scan_read slow rd s)))"
  by (auto simp: scan_read_def Let_def split: prod.split read_result.split)

lemma scan_read_covers:
  assumes "scan_read slow (res, dt) s = (go, s')" "ss_offset s \<le> b" "b < ss_offset s'"
  shows "covers (ss_errors s') (ss_offset s, chunk_length s, res) b"
  using assms by (auto simp: scan_read_def Let_def covers_def split: read_result.splits if_splits)

lemma scan_loop_errors: "set (ss_errors s) \<subseteq> set (ss_errors (scan_loop slow io i s))"
proof (induction slow io i s rule: scan_loop.induct)
  case (1 slow io i s)
  show ?case
  proof (cases "scan_active io i s")
    case True
    obtain go s' where r: "scan_read slow (snd (io i)) s = (go, s')" by force
    have "set (ss_errors s) \<subseteq> set (ss_errors s')" using scan_read_errors [of s slow "snd (io i)"] r by simp
    then show ?thesis using 1 True r by (cases go) (auto simp: scan_loop.simps [of slow io i s])
  qed (simp add: scan_loop.simps)
qed

lemma loop_covers:
  "ss_offset s \<le> b \<Longrightarrow> b < ss_offset (scan_loop slow io i s) \<Longrightarrow>
   \<exists>call \<in> set (scan_calls slow io i s). covers (ss_errors (scan_loop slow io i s)) call b"
proof (induction slow io i s rule: scan_loop.induct)
  case (1 slow io i s)
  show ?case
  proof (cases "scan_active io i s")
    case False
    then show ?thesis using 1 by (simp add: scan_loop.simps)
  next
    case act: True
    obtain res dt where io: "snd (io i) = (res, dt)" by force
    obtain go s' where r: "scan_read slow (snd (io i)) s = (go, s')" by force
    have l: "scan_loop slow io i s = (if go then scan_loop slow io (Suc i) s' else s')"
      using act r by (auto simp: scan_loop.simps [of slow io i s])
    have c: "scan_calls slow io i s = (ss_offset s, chunk_length s, res) # (if go then scan_calls slow io (Suc i) s' else [])"
      using act r io by (auto simp: scan_calls.simps [of slow io i s])
    show ?thesis
    proof (cases "b < ss_offset s'")
      case True
      have "covers (ss_errors s') (ss_offset s, chunk_length s, res) b"
        using scan_read_covers [OF r [unfolded io]] 1(2) True by simp
      moreover have "set (ss_errors s') \<subseteq> set (ss_errors (scan_loop slow io i s))" using l scan_loop_errors by simp
      ultimately show ?thesis using covers_mono c by fastforce
    next
      case False
      then have g: "go" using 1(3) l by (cases go) auto
      then show ?thesis using 1(1) [OF _ r [symmetric]] act 1(3) False l c by auto
    qed
  qed
qed

section \<open>Bounds and outcome\<close>

lemma loop_frame [simp]:
  "ss_disk (scan_loop slow io i s) = ss_disk s" "ss_done (scan_loop slow io i s) = ss_done s"
proof (induction slow io i s rule: scan_loop.induct)
  case (1 slow io i s)
  obtain go s' where r: "scan_read slow (snd (io i)) s = (go, s')" by force
  have "ss_disk s' = ss_disk s \<and> ss_done s' = ss_done s"
    using r by (auto simp: scan_read_def Let_def split: prod.splits read_result.splits if_splits)
  then show "ss_disk (scan_loop slow io i s) = ss_disk s" "ss_done (scan_loop slow io i s) = ss_done s"
    using 1 r by (cases go; auto simp: scan_loop.simps [of slow io i s])+
qed

text \<open>The errors stay within their limit, and the limit is exactly what aborts a scan.\<close>

definition errors_ok :: "surface_scan \<Rightarrow> bool" where
  "errors_ok s \<longleftrightarrow> (if ss_aborted s then length (ss_errors s) = MAX_READ_ERRORS else length (ss_errors s) \<le> MAX_READ_ERRORS)"

lemma scan_read_errors_ok:
  assumes "scan_read slow rd s = (go, s')" "\<not> ss_aborted s" "length (ss_errors s) < MAX_READ_ERRORS"
  shows "errors_ok s'" "go \<Longrightarrow> \<not> ss_aborted s' \<and> length (ss_errors s') < MAX_READ_ERRORS"
  using assms by (auto simp: scan_read_def Let_def errors_ok_def split: prod.splits read_result.splits if_splits)

lemma loop_errors_ok:
  "\<not> ss_aborted s \<Longrightarrow> length (ss_errors s) < MAX_READ_ERRORS \<Longrightarrow> errors_ok (scan_loop slow io i s)"
proof (induction slow io i s rule: scan_loop.induct)
  case (1 slow io i s)
  obtain go s' where r: "scan_read slow (snd (io i)) s = (go, s')" by force
  from scan_read_errors_ok [OF r 1(2,3)] show ?case
    using 1 r by (cases go) (auto simp: scan_loop.simps [of slow io i s] errors_ok_def)
qed

lemma calls_bounded: "length (scan_calls slow io i s) \<le> left_to_read s"
proof (induction slow io i s rule: scan_calls.induct)
  case (1 slow io i s)
  show ?case
  proof (cases "scan_active io i s")
    case True
    obtain go s' where r: "scan_read slow (snd (io i)) s = (go, s')" by force
    have "left_to_read s > 0" using True by (simp add: scan_active_def left_to_read_def)
    then show ?thesis using 1 True r scan_read_progress [OF True, of slow "snd (io i)"]
      by (cases go) (fastforce simp: scan_calls.simps [of slow io i s])+
  qed (simp add: scan_calls.simps)
qed

text \<open>A loop that is not stopped ends at the end of the device or with an error.\<close>

definition settled_scan :: "surface_scan \<Rightarrow> bool" where
  "settled_scan s \<longleftrightarrow> d_size (ss_disk s) \<le> ss_offset s \<or> ss_errors s \<noteq> []"

lemma scan_read_stops: "scan_read slow rd s = (False, s') \<Longrightarrow> ss_errors s' \<noteq> []"
  by (auto simp: scan_read_def Let_def split: prod.splits read_result.splits if_splits)

lemma loop_settles: "\<forall>k. \<not> fst (io k) \<Longrightarrow> settled_scan (scan_loop slow io i s)"
proof (induction slow io i s rule: scan_loop.induct)
  case (1 slow io i s)
  obtain go s' where r: "scan_read slow (snd (io i)) s = (go, s')" by force
  show ?case
  proof (cases "scan_active io i s")
    case True
    then show ?thesis using 1 r scan_read_stops [of slow "snd (io i)" s]
      by (cases go) (auto simp: scan_loop.simps [of slow io i s] settled_scan_def)
  next
    case False
    then show ?thesis using 1(2) by (auto simp: scan_loop.simps scan_active_def settled_scan_def)
  qed
qed

lemma scan_run_fields [simp]:
  "ss_disk (scan_run slow io s) = ss_disk s" "ss_offset (scan_run slow io s) = ss_offset (scan_loop slow io 0 s)"
  "ss_errors (scan_run slow io s) = ss_errors (scan_loop slow io 0 s)"
  "ss_aborted (scan_run slow io s) = ss_aborted (scan_loop slow io 0 s)"
  "ss_done (scan_run slow io s) \<longleftrightarrow> ss_done s \<or> d_size (ss_disk s) \<le> ss_offset (scan_loop slow io 0 s) \<or> ss_aborted (scan_loop slow io 0 s)"
  by (auto simp: scan_run_def scan_close_def)

section \<open>Properties\<close>

text \<open>C14: a surface scan reads the surface: every byte between the offset where the scan starts (or
  resumes) and the offset it reports is covered by a read that returned it or by a failed read that
  is recorded as an error; a scan that is done without having been aborted by errors has covered
  every byte up to the size of the disk.\<close>

theorem scan_covers_surface:
  assumes "s' = scan_run slow io (new_scan d offset)" "offset \<le> b"
    and "b < ss_offset s' \<or> (ss_done s' \<and> \<not> ss_aborted s' \<and> b < d_size d)"
  shows "\<exists>call \<in> set (scan_calls slow io 0 (new_scan d offset)). covers (ss_errors s') call b"
  using loop_covers [of "new_scan d offset" b slow io 0] assms by (auto simp: new_scan_def)

text \<open>C15: whatever the device does, the loop of a surface scan ends, after at most one read per byte
  that is left; when it is not stopped, the scan is done or has recorded a read error.\<close>

theorem scan_terminates:
  "length (scan_calls slow io 0 (new_scan d offset)) \<le> nat (d_size d - offset) \<and>
   ((\<exists>k. fst (io k)) \<or> ss_done (scan_run slow io (new_scan d offset)) \<or> ss_errors (scan_run slow io (new_scan d offset)) \<noteq> [])"
  using calls_bounded [of slow io 0 "new_scan d offset"] loop_settles [of io slow 0 "new_scan d offset"]
  by (auto simp: new_scan_def left_to_read_def settled_scan_def)

text \<open>A scan records at most 64 read errors, and an aborted scan has recorded exactly 64.\<close>

theorem scan_errors_bounded:
  "(let s' = scan_run slow io (new_scan d offset) in
     length (ss_errors s') \<le> 64 \<and> (ss_aborted s' \<longrightarrow> length (ss_errors s') = 64))"
  using loop_errors_ok [of "new_scan d offset" slow io 0]
  by (auto simp: new_scan_def errors_ok_def MAX_READ_ERRORS_def split: if_splits)

section \<open>Witnesses\<close>

definition small_disk :: block_disk where
  "small_disk = \<lparr>d_name = ''sdb'', d_path = ''/dev/sdb'', d_size = 10, d_model = ''M'', d_serial = ''S1'', d_wwn = [],
     d_rotational = False, d_transport = ''sata''\<rparr>"

text \<open>The first read returns four bytes, every other one fails.\<close>

definition small_io :: "nat \<Rightarrow> bool \<times> read_result \<times> rat" where
  "small_io i = (False, if i = 0 then Read_bytes 4 else Read_failed ''EIO'', 0)"

lemma small_run:
  "scan_loop (Fin 5) small_io 0 (new_scan small_disk 0) =
     (new_scan small_disk 0)\<lparr>ss_offset := 10, ss_errors := [(4, ''EIO'')], ss_bytes_read := 4, ss_seconds := fl 0\<rparr>"
  by (simp add: scan_loop.simps scan_active_def small_io_def new_scan_def small_disk_def scan_read_def Let_def
      chunk_length_def CHUNK_def MAX_READ_ERRORS_def)

theorem scan_covers_surface_witness:
  "\<exists>call \<in> set (scan_calls (Fin 5) small_io 0 (new_scan small_disk 0)).
     covers (ss_errors (scan_run (Fin 5) small_io (new_scan small_disk 0))) call 7"
  by (rule scan_covers_surface [OF refl]) (simp_all add: small_run)

theorem scan_errors_bounded_witness:
  "length (ss_errors (scan_run (Fin 5) small_io (new_scan small_disk 0))) \<le> 64 \<and>
   \<not> ss_aborted (scan_run (Fin 5) small_io (new_scan small_disk 0))"
  using scan_errors_bounded [of "Fin 5" small_io small_disk 0] 
  by (simp add: small_run Let_def)

theorem scan_terminates_witness:
  "length (scan_calls (Fin 5) small_io 0 (new_scan small_disk 0)) \<le> 10 \<and> ss_done (scan_run (Fin 5) small_io (new_scan small_disk 0))"
proof -
  have "d_size small_disk = 10" by (simp add: small_disk_def)
  then show ?thesis using scan_terminates [of "Fin 5" small_io small_disk 0] by (simp add: small_run)
qed

end
