(* ===== verification/Disks.thy ===== *)
theory Disks
  imports SurfaceScan
begin

text \<open>
  Models \<open>DiskManager\<close> and \<open>WriteVerify\<close> of \<open>disks.py\<close>.  The manager is the component
  \<open>c_dm\<close> of the context; its tables \<open>disk_scans\<close> and \<open>selftests\<close> are the fields of the session
  state that they alias.  \<open>json\<close> is \<open>json.loads\<close>; a \<open>sys\<close> is what the operating system answers
  during a handler; \<open>procs\<close> gives, by disk name, the exit code of its fio process (\<open>None\<close>: still
  running) and the tail of its output.
\<close>

section \<open>The manager\<close>

definition parent_disk :: "sys \<Rightarrow> string \<Rightarrow> string" where
  "parent_disk sy dev = (if \<not> startswith dev ''/dev/'' then []
     else or_else (strip (out sy [''lsblk'', ''-ndo'', ''PKNAME'', dev])) (basename dev))"

definition new_manager :: "sys \<Rightarrow> string \<Rightarrow> string \<Rightarrow> disk_manager" where
  "new_manager sy boot_disk log_device = \<lparr>dm_exclude = filter (\<lambda>x. x \<noteq> []) [boot_disk, parent_disk sy log_device],
     dm_scans = [], dm_writers = [], dm_stop = False, dm_running = True\<rparr>"

definition dm_of :: "ctx \<Rightarrow> disk_manager" where
  "dm_of c = (case c_dm c of Some dm \<Rightarrow> dm | None \<Rightarrow> new_manager \<lparr>read_file = \<lambda>_. [], glob = \<lambda>_. [], path_exists = \<lambda>_. False,
     run_cmd = \<lambda>_. \<lparr>returncode = 127, stdout = [], stderr = []\<rparr>\<rparr> [] [])"

definition put_dm :: "(disk_manager \<Rightarrow> disk_manager) \<Rightarrow> ctx \<Rightarrow> ctx" where
  "put_dm f c = c\<lparr>c_dm := Some (f (dm_of c))\<rparr>"

definition the_state :: "ctx \<Rightarrow> state" where
  "the_state c = s_state (c_session c)"

definition put_state :: "(state \<Rightarrow> state) \<Rightarrow> ctx \<Rightarrow> ctx" where
  "put_state f c = ctx_session (upd_state f) c"

definition save_ctx :: "ctx \<Rightarrow> ctx" where
  "save_ctx c = ctx_session session_save c"

definition lift_ex :: "exn + 'a \<Rightarrow> ('a \<Rightarrow> ctx \<Rightarrow> outcome) \<Rightarrow> ctx \<Rightarrow> outcome" where
  "lift_ex v f c = (case v of Inl e \<Rightarrow> raise e c | Inr a \<Rightarrow> f a c)"

section \<open>SMART before the test\<close>

definition has_target :: "smart_dev list \<Rightarrow> block_disk \<Rightarrow> bool" where
  "has_target devices d \<longleftrightarrow> (\<exists>dev \<in> set devices. d_path d = sd_name dev \<or>
     (startswith (d_name d) ''nvme'' \<and> startswith (d_path d) (sd_name dev @ ''n'')))"

definition undiscovered_event :: "block_disk \<Rightarrow> event" where
  "undiscovered_event d = (event (''smart-undiscovered:'' @ disk_id d) WARN ''Storage''
     (''No SMART target discovered for '' @ d_name d @ '' '' @ d_model d))\<lparr>ev_incomplete := True\<rparr>"

definition unreadable_event :: "smart_dev \<Rightarrow> event" where
  "unreadable_event dev = (event (''smart-unreadable:'' @ sd_name dev @ '':'' @ sd_type dev) WARN ''Storage''
     (''SMART health data unavailable for '' @ sd_name dev @ '' ('' @ sd_type dev @ '')''))\<lparr>ev_incomplete := True\<rparr>"

definition dev_key :: "smart_dev \<Rightarrow> string" where
  "dev_key dev = sd_name dev @ ''|'' @ sd_type dev"

definition base_entry :: "pyval \<Rightarrow> string \<Rightarrow> exn + smart_base" where
  "base_entry data label = ebind (smart_metrics data) (\<lambda>m. ebind (is_solid_state data) (\<lambda>ssd.
     ebind (selftest_result data) (\<lambda>r. ebind (py_get data ''serial_number'' PNone) (\<lambda>serial.
       Inr \<lparr>sb_label = label, sb_metrics = m, sb_solid_state = ssd, sb_selftest_log = snd r, sb_serial = serial\<rparr>))))"

definition add_events :: "string \<Rightarrow> event list \<Rightarrow> ctx \<Rightarrow> ctx" where
  "add_events now es c = fold (ctx_add now) es c"

definition before_test :: "event \<Rightarrow> event" where
  "before_test e = e\<lparr>ev_title := ev_title e @ '' (before test)''\<rparr>"

definition health_data :: "pyval \<Rightarrow> exn + bool" where
  "health_data data = (if \<not> truthy data then Inr False
     else py_any_in data [''smart_status'', ''ata_smart_attributes'', ''nvme_smart_health_information_log'', ''scsi_error_counter_log''])"

definition baseline_device :: "(string \<Rightarrow> pyval option) \<Rightarrow> string \<times> sys \<Rightarrow> smart_dev \<Rightarrow> ctx \<Rightarrow> outcome" where
  "baseline_device json env dev c = (case env of (now, sy) \<Rightarrow> (let data = smart_read json sy dev in
     lift_ex (health_data data) (\<lambda>known c.
       if \<not> known then ok (ctx_add now (unreadable_event dev) c)
       else lift_ex (smart_label data dev) (\<lambda>label c.
         if map_of (st_smart (the_state c)) (dev_key dev) \<noteq> None then ok c
         else lift_ex (base_entry data label) (\<lambda>entry c.
           let c1 = put_state (\<lambda>st. st\<lparr>st_smart := AList.update (dev_key dev) entry (st_smart st)\<rparr>) c in
           lift_ex (evaluate_smart data label []) (\<lambda>es c. ok (add_events now (map before_test es) c)) c1) c) c) c))"

definition smart_baseline :: "(string \<Rightarrow> pyval option) \<Rightarrow> string \<times> sys \<Rightarrow> ctx \<Rightarrow> outcome" where
  "smart_baseline json env c = (case env of (now, sy) \<Rightarrow>
     lift_ex (smart_devices json sy (dm_exclude (dm_of c))) (\<lambda>devices c.
       lift_ex (block_disks json sy (dm_exclude (dm_of c))) (\<lambda>disks c.
         andthen (for_each (\<lambda>d c. ok (if has_target devices d then c else ctx_add now (undiscovered_event d) c)) disks c)
           (\<lambda>c. andthen (for_each (baseline_device json env) devices c) (\<lambda>c. ok (save_ctx c)))) c) c)"

section \<open>Self-tests\<close>

definition split_key :: "string \<Rightarrow> smart_dev" where
  "split_key key = (case split1 (CHR ''|'') key of (name, t) \<Rightarrow> \<lparr>sd_name = name, sd_type = the_default [] t\<rparr>)"

definition accepted :: "cmd_result \<Rightarrow> bool" where
  "accepted res \<longleftrightarrow> returncode res \<ge> 0 \<and> returncode res mod 8 = 0"

definition last_chars :: "nat \<Rightarrow> string \<Rightarrow> string" where
  "last_chars n s = drop (length s - n) s"

definition not_started_event :: "string \<Rightarrow> string \<Rightarrow> smart_base \<Rightarrow> cmd_result \<Rightarrow> event" where
  "not_started_event key kind info res = (event (''selftest-start:'' @ key) WARN ''Storage''
     (''SMART '' @ kind @ '' self-test could not start - '' @ sb_label info))
     \<lparr>ev_incomplete := True, ev_evidence := [last_chars 2000 (stdout res), last_chars 1000 (stderr res)]\<rparr>"

definition put_selftest :: "string \<Rightarrow> selftest \<Rightarrow> ctx \<Rightarrow> ctx" where
  "put_selftest key r c = put_state (\<lambda>st. st\<lparr>st_selftests := AList.update key r (st_selftests st)\<rparr>) c"

definition start_selftest :: "string \<times> sys \<Rightarrow> string \<Rightarrow> string \<times> smart_base \<Rightarrow> ctx \<Rightarrow> ctx" where
  "start_selftest env kind p c = (case (env, p) of ((now, sy), (key, info)) \<Rightarrow>
     (let dev = split_key key;
          res = run_cmd sy [''smartctl'', ''-d'', sd_type dev, ''-t'', kind, sd_name dev];
          started = accepted res;
          c1 = put_selftest key \<lparr>st_kind = kind, st_started = started, st_boot_id = c_boot_id c,
                 st_status = (if started then ''running'' else ''unavailable''), st_observed_running = False\<rparr> c
      in if started then c1 else ctx_add now (not_started_event key kind info res) c1))"

definition start_selftests :: "string \<times> sys \<Rightarrow> bool \<Rightarrow> ctx \<Rightarrow> ctx" where
  "start_selftests env long_test c = save_ctx (fold (start_selftest env (if long_test then ''long'' else ''short''))
     (st_smart (the_state c)) c)"

text \<open>\<open>selftests.setdefault(key, {})\<close>.\<close>

definition no_selftest :: selftest where
  "no_selftest = \<lparr>st_kind = [], st_started = False, st_boot_id = [], st_status = [], st_observed_running = False\<rparr>"

definition selftest_of :: "string \<Rightarrow> ctx \<Rightarrow> selftest" where
  "selftest_of key c = dict_get (st_selftests (the_state c)) key no_selftest"

text \<open>One round of waiting: the keys whose self-test is still in progress stay pending.\<close>

fun wait_round :: "(string \<Rightarrow> pyval option) \<Rightarrow> sys \<Rightarrow> string list \<Rightarrow> ctx \<Rightarrow> exn option \<times> string list \<times> ctx" where
  "wait_round json sy [] c = (None, [], c)"
| "wait_round json sy (k # ks) c = (case selftest_in_progress (smart_read json sy (split_key k)) of
     Inl e \<Rightarrow> (Some e, k # ks, c)
   | Inr True \<Rightarrow> (case wait_round json sy ks (put_selftest k (selftest_of k c\<lparr>st_observed_running := True\<rparr>) c) of
       (r, rest, c') \<Rightarrow> (r, k # rest, c'))
   | Inr False \<Rightarrow> wait_round json sy ks c)"

text \<open>The rounds that the deadline leaves time for; an abort ends the waiting.\<close>

fun wait_selftests :: "(string \<Rightarrow> pyval option) \<Rightarrow> sys list \<Rightarrow> string list \<Rightarrow> ctx \<Rightarrow> outcome" where
  "wait_selftests json [] pending c = ok c"
| "wait_selftests json (sy # rounds) pending c =
    (if pending = [] \<or> c_abort c then ok c
     else (case wait_round json sy pending c of
       (Some e, _, c1) \<Rightarrow> raise e c1
     | (None, rest, c1) \<Rightarrow> wait_selftests json rounds rest (if rest = [] then c1 else
         c1\<lparr>c_status_note := ''waiting for SMART self-tests: '' @ join '', '' (map (\<lambda>k. sd_name (split_key k)) rest)\<rparr>)))"

definition final_missing_event :: "string \<Rightarrow> smart_base \<Rightarrow> event" where
  "final_missing_event key info = (event (''smart-final-missing:'' @ key) WARN ''Storage''
     (''Final SMART data missing or device identity changed - '' @ sb_label info))\<lparr>ev_incomplete := True\<rparr>"

definition unfinished_event :: "string \<Rightarrow> smart_base \<Rightarrow> event" where
  "unfinished_event key info = (event (''smart-selftest-unfinished:'' @ key) WARN ''Storage''
     (''No completed successful self-test from this run - '' @ sb_label info))\<lparr>ev_incomplete := True\<rparr>"

text \<open>Whether the report shows a successful self-test of this run: its log differs from the one before
  the test, or the test was seen running on this boot.\<close>

definition completed_selftest :: "selftest \<Rightarrow> string \<Rightarrow> smart_base \<Rightarrow> pyval \<Rightarrow> pyval \<times> pyval \<Rightarrow> exn + bool" where
  "completed_selftest r boot info data res =
    (if \<not> st_started r \<or> fst res \<noteq> PBool True then Inr False
     else ebind (selftest_in_progress data) (\<lambda>busy. Inr (\<not> busy \<and>
       (\<not> py_equal (snd res) (sb_selftest_log info) \<or> (st_observed_running r \<and> st_boot_id r = boot)))))"

definition identity_changed :: "smart_base \<Rightarrow> pyval \<Rightarrow> exn + bool" where
  "identity_changed info data =
    (if \<not> truthy data then Inr True
     else if \<not> truthy (sb_serial info) then Inr False
     else ebind (py_get data ''serial_number'' PNone) (\<lambda>n. Inr (\<not> py_equal n (sb_serial info))))"

definition judge_selftest :: "string \<Rightarrow> string \<Rightarrow> smart_base \<Rightarrow> pyval \<Rightarrow> ctx \<Rightarrow> outcome" where
  "judge_selftest now key info data c =
     lift_ex (selftest_result data) (\<lambda>res c.
       lift_ex (completed_selftest (selftest_of key c) (c_boot_id c) info data res) (\<lambda>completed c.
         let c1 = put_selftest key (selftest_of key c\<lparr>st_status := if completed then ''complete'' else ''incomplete''\<rparr>) c
         in ok (if completed then c1 else ctx_add now (unfinished_event key info) c1)) c)
       (put_selftest key (selftest_of key c) c)"

definition final_device :: "(string \<Rightarrow> pyval option) \<Rightarrow> string \<times> sys \<Rightarrow> string \<times> smart_base \<Rightarrow> ctx \<Rightarrow> outcome" where
  "final_device json env p c = (case (env, p) of ((now, sy), (key, info)) \<Rightarrow>
     (let data = smart_read json sy (split_key key) in
     lift_ex (identity_changed info data) (\<lambda>changed c.
       let c1 = (if changed then ctx_add now (final_missing_event key info) c else c) in
       lift_ex (evaluate_smart data (sb_label info) (sb_metrics info)) (\<lambda>es c.
         judge_selftest now key info data (add_events now es c)) c1) c))"

text \<open>\<open>smart_final\<close>; \<open>rounds\<close> are the polls that the waiting time allows.\<close>

definition smart_final :: "(string \<Rightarrow> pyval option) \<Rightarrow> sys list \<Rightarrow> string \<times> sys \<Rightarrow> ctx \<Rightarrow> outcome" where
  "smart_final json rounds env c =
     andthen (wait_selftests json rounds (map fst (st_smart (the_state c))) c)
       (\<lambda>c. andthen (for_each (final_device json env) (st_smart (the_state c)) c) (\<lambda>c. ok (save_ctx c)))"

section \<open>Candidates for the destructive test\<close>

fun any_ex :: "('a \<Rightarrow> exn + bool) \<Rightarrow> 'a list \<Rightarrow> exn + bool" where
  "any_ex f [] = Inr False"
| "any_ex f (x # xs) = ebind (f x) (\<lambda>b. if b then Inr True else any_ex f xs)"

lemma any_ex_cong [fundef_cong]:
  "xs = ys \<Longrightarrow> (\<And>x. x \<in> set ys \<Longrightarrow> f x = g x) \<Longrightarrow> any_ex f xs = any_ex g ys"
proof (induction xs arbitrary: ys)
  case (Cons x xs)
  then show ?case by (cases "g x") auto
qed auto

text \<open>A node is a mount point, or has a holder, or has such a node below it.  Anything but a list of
  children has no \<open>get\<close> on its elements.\<close>

definition mounted :: "pyval \<Rightarrow> exn + bool" where
  "mounted node = ebind (py_or (py_get node ''mountpoints'' PNone) (Inr (PList []))) (\<lambda>m. ebind (py_iter m) (\<lambda>ms.
     Inr (\<exists>x \<in> set ms. truthy x)))"

definition held :: "sys \<Rightarrow> pyval \<Rightarrow> exn + bool" where
  "held sy node = ebind (py_item node ''name'') (\<lambda>n. Inr (glob sy (''/sys/class/block/'' @ py_str n @ ''/holders/*'') \<noteq> []))"

fun children_of :: "pyval \<Rightarrow> pyval list" where
  "children_of (PDict d) = (case map_of d ''children'' of Some (PList xs) \<Rightarrow> xs | _ \<Rightarrow> [])"
| "children_of _ = []"

definition bad_children :: "pyval \<Rightarrow> exn + bool" where
  "bad_children node = ebind (py_get node ''children'' (PList [])) (\<lambda>cs. ebind (py_iter cs) (\<lambda>xs.
     if xs \<noteq> [] \<and> children_of node = [] then Inl (AttributeError ''object has no attribute 'get' '') else Inr False))"

lemma child_size: "x \<in> set (children_of v) \<Longrightarrow> size x < size v"
proof (induction v rule: children_of.induct)
  case (1 d)
  then obtain v where v: "map_of d ''children'' = Some v" by (cases "map_of d ''children''") auto
  with 1 obtain xs where xs: "map_of d ''children'' = Some (PList xs)" "x \<in> set xs" by (cases v) auto
  have "size x < Suc (size_list size xs)" using xs(2) by (induction xs) auto
  also have "\<dots> = size (PList xs)" by simp
  also have "\<dots> < size (PDict d)" using dict_size [OF map_of_SomeD [OF xs(1)]] by simp
  finally show ?case .
qed auto

function busy :: "sys \<Rightarrow> pyval \<Rightarrow> exn + bool" where
  "busy sy node = ebind (mounted node) (\<lambda>m. if m then Inr True
     else ebind (held sy node) (\<lambda>h. if h then Inr True
     else ebind (bad_children node) (\<lambda>_. any_ex (busy sy) (children_of node))))"
  by pat_completeness auto
termination
  by (relation "measure (\<lambda>(sy, v). size v)") (auto intro: child_size)

declare busy.simps [simp del]

definition wipefs :: "sys \<Rightarrow> block_disk \<Rightarrow> cmd_result" where
  "wipefs sy d = run_cmd sy [''wipefs'', ''--no-act'', ''--noheadings'', d_path d]"

definition topology :: "sys \<Rightarrow> block_disk \<Rightarrow> cmd_result" where
  "topology sy d = run_cmd sy [''lsblk'', ''-J'', ''-o'', ''NAME,MOUNTPOINTS'', d_path d]"

definition topology_nodes :: "(string \<Rightarrow> pyval option) \<Rightarrow> sys \<Rightarrow> block_disk \<Rightarrow> exn + pyval" where
  "topology_nodes json sy d = (case json (stdout (topology sy d)) of
     None \<Rightarrow> Inl (ValueError ''invalid JSON'')
   | Some v \<Rightarrow> py_item v ''blockdevices'')"

definition node_use :: "sys \<Rightarrow> pyval \<Rightarrow> exn + bool \<times> bool" where
  "node_use sy nodes = ebind (if truthy nodes then ebind (py_iter nodes) (any_ex (busy sy)) else Inr True) (\<lambda>in_use.
     ebind (py_iter nodes) (\<lambda>ns. ebind (any_ex (\<lambda>n. ebind (py_get n ''children'' PNone) (\<lambda>v. Inr (truthy v))) ns) (\<lambda>kids.
       Inr (in_use, kids))))"

definition unreadable :: "exn \<Rightarrow> bool" where
  "unreadable e = (case e of ValueError _ \<Rightarrow> True | KeyError _ \<Rightarrow> True | TypeError _ \<Rightarrow> True | _ \<Rightarrow> False)"

text \<open>(in use, has children); unreadable answers count as both.\<close>

definition disk_use :: "(string \<Rightarrow> pyval option) \<Rightarrow> sys \<Rightarrow> block_disk \<Rightarrow> exn + bool \<times> bool" where
  "disk_use json sy d = (case ebind (topology_nodes json sy d) (node_use sy) of
     Inl e \<Rightarrow> if unreadable e then Inr (True, True) else Inl e
   | Inr r \<Rightarrow> Inr r)"

definition refused :: "ctx \<Rightarrow> sys \<Rightarrow> block_disk \<Rightarrow> bool \<times> bool \<Rightarrow> bool" where
  "refused c sy d = (\<lambda>(in_use, kids). c_boot_disk c = [] \<or> d_name d \<in> set (dm_exclude (dm_of c)) \<or> in_use \<or>
     returncode (wipefs sy d) \<noteq> 0 \<or> returncode (topology sy d) \<noteq> 0 \<or>
     ((strip (stdout (wipefs sy d)) \<noteq> [] \<or> kids) \<and> destructive (c_opts c) \<noteq> ''force''))"

definition candidate_step :: "(string \<Rightarrow> pyval option) \<Rightarrow> sys \<Rightarrow> ctx \<Rightarrow> block_disk \<Rightarrow>
    block_disk list \<times> block_disk list \<Rightarrow> exn + block_disk list \<times> block_disk list" where
  "candidate_step json sy c d = (\<lambda>(eligible, skipped). ebind (disk_use json sy d) (\<lambda>u.
     Inr (if refused c sy d u then (eligible, skipped @ [d]) else (eligible @ [d], skipped))))"

definition destructive_candidates :: "(string \<Rightarrow> pyval option) \<Rightarrow> sys \<Rightarrow> ctx \<Rightarrow> block_disk list \<Rightarrow>
    exn + block_disk list \<times> block_disk list" where
  "destructive_candidates json sy c disks = efold (candidate_step json sy c) disks ([], [])"

section \<open>Surface scans and write tests\<close>

definition writeverify_failed :: "block_disk \<Rightarrow> string \<Rightarrow> event" where
  "writeverify_failed d tail = (event (''writeverify:'' @ d_name d) FAIL ''Storage''
     (''Write/verify test failed on '' @ d_name d @ '' '' @ d_model d @ '' SN:'' @ d_serial d))
     \<lparr>ev_recommendation := REC_DISK, ev_evidence := last_lines 20 (splitlines tail)\<rparr>"

definition writeverify_ok :: "block_disk \<Rightarrow> event" where
  "writeverify_ok d = event (''writeverify-ok:'' @ d_name d) INFO ''Storage''
     (''Write/verify pass completed on '' @ d_name d @ '' '' @ d_model d)"

text \<open>\<open>WriteVerify.finished\<close>, on a writer whose process was started.\<close>

definition writer_finished :: "string \<Rightarrow> int option \<times> string \<Rightarrow> write_verify \<Rightarrow> ctx \<Rightarrow> bool \<times> write_verify \<times> ctx" where
  "writer_finished now poll w c =
    (if wv_done w then (True, w, c)
     else (case fst poll of
       None \<Rightarrow> (False, w, c)
     | Some rc \<Rightarrow> (True, w\<lparr>wv_done := True\<rparr>,
         ctx_add now (if rc \<noteq> 0 then writeverify_failed (wv_disk w) (snd poll) else writeverify_ok (wv_disk w)) c)))"

type_synonym procs = "string \<Rightarrow> int option \<times> string"

definition writer_poll :: "procs \<Rightarrow> write_verify \<Rightarrow> int option \<times> string" where
  "writer_poll procs w = procs (d_name (wv_disk w))"

definition put_scans :: "(string \<Rightarrow> scan_entry option \<Rightarrow> scan_entry option) \<Rightarrow> string \<Rightarrow> ctx \<Rightarrow> ctx" where
  "put_scans f k c = (case f k (map_of (st_disk_scans (the_state c)) k) of
     None \<Rightarrow> c | Some e \<Rightarrow> put_state (\<lambda>st. st\<lparr>st_disk_scans := AList.update k e (st_disk_scans st)\<rparr>) c)"

definition upd_entry :: "string \<Rightarrow> (scan_entry \<Rightarrow> scan_entry) \<Rightarrow> ctx \<Rightarrow> ctx" where
  "upd_entry k f c = put_scans (\<lambda>_. map_option f) k c"

fun all_finished :: "string \<Rightarrow> procs \<Rightarrow> write_verify list \<Rightarrow> ctx \<Rightarrow> bool \<times> write_verify list \<times> ctx" where
  "all_finished now procs [] c = (True, [], c)"
| "all_finished now procs (w # ws) c = (case writer_finished now (writer_poll procs w) w c of
     (False, w', c') \<Rightarrow> (False, w' # ws, c')
   | (True, w', c') \<Rightarrow> (case all_finished now procs ws c' of (b, ws', c'') \<Rightarrow> (b, w' # ws', c'')))"

definition all_done :: "string \<Rightarrow> procs \<Rightarrow> ctx \<Rightarrow> bool \<times> ctx" where
  "all_done now procs c =
    (if \<forall>s \<in> set (dm_scans (dm_of c)). ss_done s \<or> \<not> ss_alive s
     then (case all_finished now procs (dm_writers (dm_of c)) c of
       (b, ws, c') \<Rightarrow> (b, put_dm (\<lambda>dm. dm\<lparr>dm_writers := ws\<rparr>) c'))
     else (False, c))"

definition save_scan :: "surface_scan \<Rightarrow> ctx \<Rightarrow> ctx" where
  "save_scan s c = upd_entry (disk_id (ss_disk s)) (\<lambda>e. e\<lparr>sc_offset := ss_offset s, sc_done := ss_done s\<rparr>) c"

fun save_writers :: "string \<Rightarrow> procs \<Rightarrow> write_verify list \<Rightarrow> ctx \<Rightarrow> write_verify list \<times> ctx" where
  "save_writers now procs [] c = ([], c)"
| "save_writers now procs (w # ws) c =
    (let k = disk_id (wv_disk w) in
     if map_of (st_disk_scans (the_state c)) k = None then (case save_writers now procs ws c of (ws', c') \<Rightarrow> (w # ws', c'))
     else (case writer_finished now (writer_poll procs w) w c of (b, w', c1) \<Rightarrow>
       (case save_writers now procs ws (upd_entry k (\<lambda>e. e\<lparr>sc_done := b \<and> \<not> sc_incomplete e\<rparr>) c1) of (ws', c') \<Rightarrow> (w' # ws', c'))))"

definition save_progress :: "string \<Rightarrow> procs \<Rightarrow> ctx \<Rightarrow> ctx" where
  "save_progress now procs c =
    (case save_writers now procs (dm_writers (dm_of c)) (fold save_scan (dm_scans (dm_of c)) c) of
      (ws, c') \<Rightarrow> put_dm (\<lambda>dm. dm\<lparr>dm_writers := ws\<rparr>) c')"

text \<open>\<open>start_scans\<close>; \<open>spawn\<close> is the exception with which starting fio fails, if it does.\<close>

definition new_entry :: "string list \<Rightarrow> block_disk \<Rightarrow> scan_entry" where
  "new_entry names d = \<lparr>sc_name = d_name d, sc_model = d_model d, sc_size = d_size d, sc_offset = 0, sc_done = False,
     sc_mode = (if d_name d \<in> set names then M_write_verify else M_read), sc_incomplete = False\<rparr>"

definition unsafe_event :: "block_disk \<Rightarrow> event" where
  "unsafe_event d = (event (''writeverify-unsafe:'' @ disk_id d) WARN ''Storage''
     (''Write/verify safety checks refused '' @ d_name d))\<lparr>ev_incomplete := True\<rparr>"

definition write_refused :: "string list \<Rightarrow> block_disk \<Rightarrow> ctx \<Rightarrow> block_disk list \<times> block_disk list \<Rightarrow> bool" where
  "write_refused names d c r \<longleftrightarrow> fst r = [] \<or> d_name d \<notin> set names \<or>
     (s_resumed (c_session c) \<and> d_wwn d = [] \<and> d_serial d = [])"

definition start_disk :: "(string \<Rightarrow> pyval option) \<Rightarrow> (string \<Rightarrow> exn option) \<Rightarrow> string \<times> sys \<Rightarrow> string list \<Rightarrow> block_disk \<Rightarrow> ctx \<Rightarrow> outcome" where
  "start_disk json spawn env names d c = (case env of (now, sy) \<Rightarrow>
     (let c1 = put_scans (\<lambda>_ old. Some (the_default (new_entry names d) old)) (disk_id d) c;
          entry = the_default (new_entry names d) (map_of (st_disk_scans (the_state c)) (disk_id d))
      in if sc_done entry then ok c1
         else if sc_mode entry = M_write_verify then
           lift_ex (destructive_candidates json sy c1 [d]) (\<lambda>r c.
             if write_refused names d c r then ok (ctx_add now (unsafe_event d) c)
             else (case spawn (d_name d) of
               Some e \<Rightarrow> raise e c
             | None \<Rightarrow> ok (put_dm (\<lambda>dm. dm\<lparr>dm_writers := dm_writers dm @ [\<lparr>wv_disk = d, wv_done = False\<rparr>]\<rparr>) c))) c1
         else ok (put_dm (\<lambda>dm. dm\<lparr>dm_scans := dm_scans dm @ [new_scan d (sc_offset entry)]\<rparr>) c1)))"

definition start_scans :: "(string \<Rightarrow> pyval option) \<Rightarrow> (string \<Rightarrow> exn option) \<Rightarrow> string \<times> sys \<Rightarrow> block_disk list \<Rightarrow> ctx \<Rightarrow> outcome" where
  "start_scans json spawn env chosen c =
     lift_ex (block_disks json (snd env) (dm_exclude (dm_of c))) (\<lambda>disks c.
       andthen (for_each (start_disk json spawn env (map d_name chosen)) disks c) (\<lambda>c. ok (save_ctx c))) c"

text \<open>Pausing returns the disks whose fio process gets \<open>SIGSTOP\<close> or \<open>SIGCONT\<close>.\<close>

definition signalled :: "procs \<Rightarrow> ctx \<Rightarrow> string list" where
  "signalled procs c = map (\<lambda>w. d_name (wv_disk w)) (filter (\<lambda>w. fst (writer_poll procs w) = None) (dm_writers (dm_of c)))"

definition dm_pause :: "procs \<Rightarrow> ctx \<Rightarrow> string list \<times> ctx" where
  "dm_pause procs c = (signalled procs c, put_dm (\<lambda>dm. dm\<lparr>dm_running := False\<rparr>) c)"

definition dm_resume :: "procs \<Rightarrow> ctx \<Rightarrow> string list \<times> ctx" where
  "dm_resume procs c = (signalled procs c, put_dm (\<lambda>dm. dm\<lparr>dm_running := True\<rparr>) c)"

record scan_row =
  sr_name :: string
  sr_mode :: scan_mode
  sr_progress :: "rat option"
  sr_rate :: rat
  sr_done :: bool
  sr_errors :: nat

definition dm_summary :: "disk_manager \<Rightarrow> scan_row list" where
  "dm_summary dm =
     map (\<lambda>s. \<lparr>sr_name = d_name (ss_disk s), sr_mode = M_read, sr_progress = Some (scan_progress s), sr_rate = scan_rate s,
        sr_done = ss_done s, sr_errors = length (ss_errors s)\<rparr>) (dm_scans dm) @
     map (\<lambda>w. \<lparr>sr_name = d_name (wv_disk w), sr_mode = M_write_verify, sr_progress = (if wv_done w then Some 1 else None),
        sr_rate = 0, sr_done = wv_done w, sr_errors = 0\<rparr>) (dm_writers dm)"

section \<open>Reporting a scan\<close>

definition disk_label :: "block_disk \<Rightarrow> string" where
  "disk_label d = d_name d @ '' '' @ d_model d @ '' SN:'' @ d_serial d"

definition scan_errors_event :: "surface_scan \<Rightarrow> event" where
  "scan_errors_event s = (event (''scan-errors:'' @ disk_id (ss_disk s)) FAIL ''Storage''
     (''Unreadable sectors found on '' @ disk_label (ss_disk s) @ '' ('' @ nat_str (length (ss_errors s)) @ '' regions)''))
     \<lparr>ev_recommendation := REC_DISK, ev_evidence := map (\<lambda>(off, err). ''offset '' @ int_str off @ '' ('' @ fmt_int_bytes off @
        ''): '' @ err) (take 25 (ss_errors s))\<rparr>"

definition scan_slow_event :: "surface_scan \<Rightarrow> event" where
  "scan_slow_event s = (event (''scan-slow:'' @ disk_id (ss_disk s)) WARN ''Storage''
     (int_str (ss_slow_reads s) @ '' very slow reads on '' @ disk_label (ss_disk s) @ '' (weak sectors / retries)''))
     \<lparr>ev_recommendation := REC_DISK\<rparr>"

definition scan_ok_event :: "surface_scan \<Rightarrow> event" where
  "scan_ok_event s = event (''scan-ok:'' @ disk_id (ss_disk s)) INFO ''Storage''
     (''Full surface read completed on '' @ disk_label (ss_disk s) @ '' (avg '' @ fixed 0 (fl (scan_rate s / 2 ^ 20)) @
      '' MiB/s this boot)'')"

definition scan_events :: "surface_scan \<Rightarrow> event list" where
  "scan_events s = (if ss_errors s \<noteq> [] then [scan_errors_event s] else []) @
     (if ss_slow_reads s \<ge> 10 then [scan_slow_event s] else []) @
     (if ss_done s \<and> \<not> ss_aborted s then [scan_ok_event s] else [])"

definition report_scan :: "string \<Rightarrow> procs \<Rightarrow> surface_scan \<Rightarrow> ctx \<Rightarrow> ctx" where
  "report_scan now procs s c = save_progress now procs (add_events now (scan_events s) c)"

text \<open>The end of a scan thread: the device could not be opened, or the loop has run.\<close>

definition scan_open_event :: "block_disk \<Rightarrow> exn \<Rightarrow> event" where
  "scan_open_event d e = (event (''scan-open:'' @ d_name d) FAIL ''Storage'' (''Cannot open '' @ d_name d @ '' for reading''))
     \<lparr>ev_evidence := [exn_str e]\<rparr>"

definition scan_thread :: "exn option \<Rightarrow> string \<times> procs \<Rightarrow> (nat \<Rightarrow> bool \<times> read_result \<times> rat) \<Rightarrow> nat \<Rightarrow> ctx \<Rightarrow> ctx" where
  "scan_thread opened env io i c = (let s = dm_scans (dm_of c) ! i in (case opened of
     Some e \<Rightarrow> put_dm (\<lambda>dm. dm\<lparr>dm_scans := (dm_scans dm)[i := s\<lparr>ss_done := True, ss_alive := False\<rparr>]\<rparr>)
       (ctx_add (fst env) (scan_open_event (ss_disk s) e) c)
   | None \<Rightarrow> let s' = scan_run (slow_read_seconds (c_opts c)) io s in
       report_scan (fst env) (snd env) s' (put_dm (\<lambda>dm. dm\<lparr>dm_scans := (dm_scans dm)[i := s']\<rparr>) c)))"

section \<open>Stopping\<close>

definition writer_unfinished_event :: "block_disk \<Rightarrow> event" where
  "writer_unfinished_event d = (event (''writeverify-unfinished:'' @ d_name d) WARN ''Storage''
     (''Write/verify on '' @ d_name d @ '' did not finish within the test time''))\<lparr>ev_incomplete := True\<rparr>"

definition scan_partial_event :: "surface_scan \<Rightarrow> event" where
  "scan_partial_event s = (event (''scan-partial:'' @ disk_id (ss_disk s)) WARN ''Storage''
     (''Surface read of '' @ d_name (ss_disk s) @ '' covered '' @ fixed 0 (fl (scan_progress s * 100)) @
      ''% within the test time''))\<lparr>ev_incomplete := True\<rparr>"

fun stop_writers :: "string \<Rightarrow> procs \<Rightarrow> write_verify list \<Rightarrow> ctx \<Rightarrow> write_verify list \<times> ctx" where
  "stop_writers now procs [] c = ([], c)"
| "stop_writers now procs (w # ws) c = (case writer_finished now (writer_poll procs w) w c of (b, w', c1) \<Rightarrow>
     (case stop_writers now procs ws (if b then c1
          else ctx_add now (writer_unfinished_event (wv_disk w)) (upd_entry (disk_id (wv_disk w)) (\<lambda>e. e\<lparr>sc_incomplete := True\<rparr>) c1)) of
        (ws', c') \<Rightarrow> ((if b then w' else w'\<lparr>wv_done := True\<rparr>) # ws', c')))"

text \<open>\<open>stop\<close>, after the scan threads were joined: \<open>dm_scans\<close> are the scans as the join left them.\<close>

definition dm_stop_all :: "string \<Rightarrow> procs \<Rightarrow> ctx \<Rightarrow> ctx" where
  "dm_stop_all now procs c =
    (let c1 = put_dm (\<lambda>dm. dm\<lparr>dm_stop := True, dm_running := True\<rparr>) c in
     case stop_writers now procs (dm_writers (dm_of c1)) c1 of (ws, c2) \<Rightarrow>
       let c3 = put_dm (\<lambda>dm. dm\<lparr>dm_writers := ws\<rparr>) c2;
           c4 = fold (\<lambda>s c. if ss_done s then c else ctx_add now (scan_partial_event s) c) (dm_scans (dm_of c3)) c3
       in save_progress now procs c4)"

section \<open>Frames\<close>

lemma put_frame [simp]:
  "c_findings (put_dm f c) = c_findings c" "c_opts (put_dm f c) = c_opts c" "c_session (put_dm f c) = c_session c"
  "c_boot_disk (put_dm f c) = c_boot_disk c" "c_boot_id (put_dm f c) = c_boot_id c" "dm_of (put_dm f c) = f (dm_of c)"
  "c_abort (put_dm f c) = c_abort c" "the_state (put_dm f c) = the_state c"
  "c_findings (put_state g c) = c_findings c" "c_opts (put_state g c) = c_opts c"
  "c_boot_disk (put_state g c) = c_boot_disk c" "c_boot_id (put_state g c) = c_boot_id c" "dm_of (put_state g c) = dm_of c"
  "c_abort (put_state g c) = c_abort c" "the_state (put_state g c) = g (the_state c)" "c_dm (put_state g c) = c_dm c"
  "c_findings (save_ctx c) = c_findings c" "c_opts (save_ctx c) = c_opts c" "c_boot_disk (save_ctx c) = c_boot_disk c"
  "c_boot_id (save_ctx c) = c_boot_id c" "dm_of (save_ctx c) = dm_of c" "c_abort (save_ctx c) = c_abort c"
  "the_state (ctx_add now e c) = the_state c" "dm_of (ctx_add now e c) = dm_of c"
  "s_resumed (c_session (put_state g c)) = s_resumed (c_session c)"
  by (simp_all add: put_dm_def put_state_def save_ctx_def the_state_def dm_of_def upd_state_def)

lemma save_state [simp]: "the_state (save_ctx c) = the_state c"
  by (simp add: save_ctx_def the_state_def session_save_def Let_def split: sum.split)

lemma grows_put [simp]: "grows c (put_dm f c)" "grows c (put_state g c)" "grows c (save_ctx c)"
  by (simp_all add: grows_same)

lemma add_events_grows: "\<forall>e \<in> set es. legal e \<Longrightarrow> grows c (add_events now es c)"
  unfolding add_events_def by (rule grows_fold) simp

lemma add_events_simps [simp]:
  "add_events now [] c = c" "add_events now (e # es) c = add_events now es (ctx_add now e c)"
  by (simp_all add: add_events_def)

lemma add_events_frame [simp]:
  "the_state (add_events now es c) = the_state c" "dm_of (add_events now es c) = dm_of c"
  "c_opts (add_events now es c) = c_opts c" "c_boot_id (add_events now es c) = c_boot_id c"
  "c_session (add_events now es c) = c_session c" "c_boot_disk (add_events now es c) = c_boot_disk c"
  by (induction es arbitrary: c) simp_all

lemma lift_ex_simps [simp]: "lift_ex (Inl e) f c = raise e c" "lift_ex (Inr a) f c = f a c"
  by (simp_all add: lift_ex_def)

lemma grows_lift: "(\<And>a. v = Inr a \<Longrightarrow> grows c (snd (f a c'))) \<Longrightarrow> grows c c' \<Longrightarrow> grows c (snd (lift_ex v f c'))"
  by (cases v) simp_all

lemma lift_ok: "fst (lift_ex v f c) = None \<longleftrightarrow> (\<exists>a. v = Inr a \<and> fst (f a c) = None)"
  by (cases v) simp_all

text \<open>An event that is added and survives.\<close>

lemma FAIL_survives:
  assumes g: "grows (ctx_add now e c) d" and e: "ev_severity e = FAIL"
  shows "verdict (c_findings d) inc = FAILED"
proof -
  obtain f where f: "findings_get (findings_add now e (c_findings c)) (ev_key e) = Some f" "f_severity f = FAIL"
    using e by (simp add: get_add max_absorb2 split: option.split)
  then obtain h where "findings_get (c_findings d) (ev_key e) = Some h" "finding_le f h"
    using g by (fastforce simp: grows_def findings_le_def)
  moreover from \<open>finding_le f h\<close> f(2) have "f_severity h = FAIL"
    by (cases "f_severity h") (auto simp: finding_le_def less_eq_severity_def)
  ultimately show ?thesis using get_FAIL_verdict by blast
qed

lemma get_incomplete_survives:
  assumes "grows c d" "findings_get (c_findings c) k = Some f" "f_incomplete f"
  shows "badness (verdict (c_findings d) inc) \<ge> 2"
proof -
  from assms have "\<exists>g. findings_get (c_findings d) k = Some g \<and> f_incomplete g"
    by (fastforce simp: grows_def findings_le_def finding_le_def)
  then show ?thesis using get_incomplete_verdict by blast
qed

lemma incomplete_survives: "grows (ctx_add now e c) d \<Longrightarrow> ev_incomplete e \<Longrightarrow> badness (verdict (c_findings d) inc) \<ge> 2"
proof -
  assume g: "grows (ctx_add now e c) d" and e: "ev_incomplete e"
  have "\<exists>f. findings_get (findings_add now e (c_findings c)) (ev_key e) = Some f \<and> f_incomplete f"
    using e by (simp add: get_add split: option.split)
  then show ?thesis using get_incomplete_survives [OF g] by auto
qed

lemma for_each_keeps:
  assumes step: "\<And>x c. x \<in> set xs \<Longrightarrow> I c \<Longrightarrow> I (snd (f x c)) \<and> grows c (snd (f x c))" and "I c"
  shows "I (snd (for_each f xs c)) \<and> grows c (snd (for_each f xs c))"
  by (rule for_each_invariant [where P = "\<lambda>d. I d \<and> grows c d"]) (use assms in \<open>blast intro: grows_trans grows_refl\<close>)+

lemma for_each_visit:
  assumes step: "\<And>x c. x \<in> set xs \<Longrightarrow> I c \<Longrightarrow> I (snd (f x c)) \<and> grows c (snd (f x c))"
    and "I c" "x \<in> set xs" "fst (for_each f xs c) = None"
  shows "\<exists>c1. I c1 \<and> fst (f x c1) = None \<and> grows (snd (f x c1)) (snd (for_each f xs c))"
  using assms
proof (induction xs arbitrary: c)
  case (Cons y ys)
  obtain c1 where y: "f y c = (None, c1)" using Cons.prems(4) by (auto simp: andthen_def split: prod.splits option.splits)
  have r: "for_each f (y # ys) c = for_each f ys c1" by (simp add: y andthen_def)
  have I1: "I c1" using Cons.prems(1) [of y c] Cons.prems(2) y by simp
  show ?case
  proof (cases "x = y")
    case True
    then show ?thesis using Cons.prems(1,2) y r for_each_keeps [of ys I f c1] I1 by auto
  next
    case False
    then show ?thesis using Cons.IH [of c1] Cons.prems r I1 by simp
  qed
qed simp

section \<open>The final SMART evaluation\<close>

lemma legal_disk_events [simp]:
  "legal (undiscovered_event d)" "legal (unreadable_event dev)" "legal (not_started_event k kind info res)"
  "legal (final_missing_event k info)" "legal (unfinished_event k info)" "legal (writeverify_failed d t)"
  "legal (writeverify_ok d)" "legal (unsafe_event d)" "legal (scan_errors_event s)" "legal (scan_slow_event s)"
  "legal (scan_ok_event s)" "legal (scan_open_event d e)" "legal (writer_unfinished_event d)" "legal (scan_partial_event s)"
  by (simp_all add: legal_def undiscovered_event_def unreadable_event_def not_started_event_def final_missing_event_def
      unfinished_event_def writeverify_failed_def writeverify_ok_def unsafe_event_def scan_errors_event_def
      scan_slow_event_def scan_ok_event_def scan_open_event_def writer_unfinished_event_def scan_partial_event_def)

lemma incomplete_disk_events [simp]:
  "ev_incomplete (unfinished_event k info)" "ev_incomplete (final_missing_event k info)" "ev_incomplete (unsafe_event d)"
  "ev_incomplete (writer_unfinished_event d)" "ev_incomplete (scan_partial_event s)"
  by (simp_all add: unfinished_event_def final_missing_event_def unsafe_event_def writer_unfinished_event_def scan_partial_event_def)

lemma grows_put_selftest [simp]: "grows c (put_selftest k r c)"
  by (simp add: put_selftest_def)

lemma grows_add_same: "c_findings c' = c_findings c \<Longrightarrow> legal e \<Longrightarrow> grows c (ctx_add now e c')"
  using grows_trans [OF grows_same grows_add] by blast

lemma put_selftest_frame [simp]: "c_findings (put_selftest k r c) = c_findings c"
  "c_boot_id (put_selftest k r c) = c_boot_id c" "st_smart (the_state (put_selftest k r c)) = st_smart (the_state c)"
  "selftest_of k' (put_selftest k r c) = (if k' = k then r else selftest_of k' c)"
  by (simp_all add: put_selftest_def selftest_of_def dict_simps)

lemma selftest_of_add [simp]: "selftest_of k (ctx_add now e c) = selftest_of k c"
  "selftest_of k (add_events now es c) = selftest_of k c"
  by (simp_all add: selftest_of_def)

text \<open>What the evaluation of other devices leaves alone.\<close>

definition test_frame :: "string \<Rightarrow> ctx \<Rightarrow> ctx \<Rightarrow> bool" where
  "test_frame key c c' \<longleftrightarrow> st_smart (the_state c') = st_smart (the_state c) \<and> c_boot_id c' = c_boot_id c \<and>
     st_started (selftest_of key c') = st_started (selftest_of key c) \<and>
     st_boot_id (selftest_of key c') = st_boot_id (selftest_of key c) \<and>
     st_observed_running (selftest_of key c') = st_observed_running (selftest_of key c)"

lemma test_frame_refl [simp]: "test_frame key c c"
  by (simp add: test_frame_def)

lemma test_frame_trans: "test_frame key a b \<Longrightarrow> test_frame key b c \<Longrightarrow> test_frame key a c"
  by (simp add: test_frame_def)

lemma judge_selftest_frame:
  "test_frame key c (snd (judge_selftest now k info data c)) \<and> grows c (snd (judge_selftest now k info data c))"
  by (auto simp: judge_selftest_def lift_ex_def Let_def test_frame_def grows_add_same split: sum.split)
    (simp_all add: grows_same)

lemma final_device_frame:
  "test_frame key c (snd (final_device json env p c)) \<and> grows c (snd (final_device json env p c))"
proof -
  obtain now sy k info where e: "env = (now, sy)" "p = (k, info)" by (cases env; cases p) auto
  let ?data = "smart_read json sy (split_key k)"
  have j: "test_frame key c (snd (judge_selftest now k info ?data (add_events now es d))) \<and>
      grows c (snd (judge_selftest now k info ?data (add_events now es d)))"
    if "test_frame key c d" "grows c d" "evaluate_smart ?data (sb_label info) (sb_metrics info) = Inr es" for es d
  proof -
    have "test_frame key c (add_events now es d)" using that(1) by (simp add: test_frame_def)
    moreover have "grows c (add_events now es d)"
      using that(2) add_events_grows evaluate_legal [OF that(3)] grows_trans by blast
    ultimately show ?thesis
      using judge_selftest_frame [of key "add_events now es d" now k info ?data] test_frame_trans grows_trans by blast
  qed
  have m: "test_frame key c (ctx_add now ev c)" for ev by (simp add: test_frame_def)
  show ?thesis unfolding e final_device_def
    by (auto simp: lift_ex_def Let_def j m split: sum.split)
qed

lemma wait_round_frame:
  "wait_round json sy ks c = (r, rest, c') \<Longrightarrow> selftest_in_progress (smart_read json sy (split_key key)) = Inr False \<Longrightarrow>
   test_frame key c c' \<and> grows c c'"
proof (induction ks arbitrary: c r rest c')
  case (Cons k ks)
  show ?case
  proof (cases "selftest_in_progress (smart_read json sy (split_key k))")
    case (Inl e)
    then show ?thesis using Cons.prems by auto
  next
    case (Inr b)
    show ?thesis
    proof (cases b)
      case True
      then have k: "k \<noteq> key" using Inr Cons.prems(2) by auto
      let ?c1 = "put_selftest k (selftest_of k c\<lparr>st_observed_running := True\<rparr>) c"
      obtain r1 rest1 c1 where w: "wait_round json sy ks ?c1 = (r1, rest1, c1)" by (cases "wait_round json sy ks ?c1") auto
      have "test_frame key c ?c1" using k by (simp add: test_frame_def)
      moreover have "c' = c1" using Cons.prems(1) Inr True w by simp
      ultimately show ?thesis using Cons.IH [OF w Cons.prems(2)] test_frame_trans grows_trans [OF grows_put_selftest] by blast
    next
      case False
      then show ?thesis using Cons Inr by simp
    qed
  qed
qed simp

lemma wait_frame:
  "\<forall>sy \<in> set rounds. selftest_in_progress (smart_read json sy (split_key key)) = Inr False \<Longrightarrow>
   test_frame key c (snd (wait_selftests json rounds pending c)) \<and> grows c (snd (wait_selftests json rounds pending c))"
proof (induction rounds arbitrary: pending c)
  case (Cons sy rounds)
  obtain r rest c1 where w: "wait_round json sy pending c = (r, rest, c1)" by (cases "wait_round json sy pending c") auto
  have f: "test_frame key c c1 \<and> grows c c1" using wait_round_frame [OF w, of key] Cons.prems by simp
  have n: "test_frame key c (c1\<lparr>c_status_note := t\<rparr>) \<and> grows c (c1\<lparr>c_status_note := t\<rparr>)" for t
    using f grows_trans [OF _ grows_same] by (auto simp: test_frame_def the_state_def selftest_of_def)
  have k: "test_frame key c (snd (wait_selftests json rounds q d)) \<and> grows c (snd (wait_selftests json rounds q d))"
    if "test_frame key c d \<and> grows c d" for q d
    using that Cons.IH [of d q] Cons.prems test_frame_trans grows_trans by (meson list.set_intros(2))
  show ?case using w f k [OF f] k [OF n] by (auto split: option.split)
qed simp

lemma wait_round_smart:
  "wait_round json sy ks c = (r, rest, c') \<Longrightarrow> st_smart (the_state c') = st_smart (the_state c)"
proof (induction ks arbitrary: c r rest c')
  case (Cons k ks)
  show ?case
  proof (cases "selftest_in_progress (smart_read json sy (split_key k)) = Inr True")
    case True
    then show ?thesis using Cons
      by (cases "wait_round json sy ks (put_selftest k (selftest_of k c\<lparr>st_observed_running := True\<rparr>) c)") fastforce
  next
    case False
    then show ?thesis using Cons by (auto split: sum.splits bool.splits)
  qed
qed simp

lemma wait_smart: "st_smart (the_state (snd (wait_selftests json rounds pending c))) = st_smart (the_state c)"
proof (induction rounds arbitrary: pending c)
  case (Cons sy rounds)
  obtain r rest c1 where w: "wait_round json sy pending c = (r, rest, c1)" by (cases "wait_round json sy pending c") auto
  have "st_smart (the_state (c1\<lparr>c_status_note := t\<rparr>)) = st_smart (the_state c)" for t
    using wait_round_smart [OF w] by (simp add: the_state_def)
  then show ?case using w Cons.IH wait_round_smart [OF w] by (auto split: option.split)
qed simp

text \<open>Every device of the baseline is evaluated, in a context that satisfies any invariant \<open>I\<close> of the waiting
  and the evaluation.\<close>

lemma smart_final_visit:
  assumes ok: "smart_final json rounds env c = ok c'" and p: "p \<in> set (st_smart (the_state c))"
    and wait: "I (snd (wait_selftests json rounds (map fst (st_smart (the_state c))) c))"
    and step: "\<And>q d. I d \<Longrightarrow> I (snd (final_device json env q d))"
  shows "\<exists>c1. I c1 \<and> fst (final_device json env p c1) = None \<and> grows (snd (final_device json env p c1)) c'"
proof -
  let ?w = "wait_selftests json rounds (map fst (st_smart (the_state c))) c"
  have w: "fst ?w = None" using ok by (cases ?w) (auto simp: smart_final_def andthen_def ok_def split: option.splits)
  obtain c2 where c2: "?w = (None, c2)" using w by (cases ?w) simp
  have p2: "p \<in> set (st_smart (the_state c2))" using p c2 wait_smart [of json rounds _ c] by (metis snd_conv)
  have I2: "I c2" using wait c2 by simp
  let ?l = "for_each (final_device json env) (st_smart (the_state c2)) c2"
  have l: "fst ?l = None" "c' = save_ctx (snd ?l)"
    using ok c2 by (cases ?l; auto simp: smart_final_def andthen_def ok_def split: option.splits)+
  have "\<exists>c1. I c1 \<and> fst (final_device json env p c1) = None \<and> grows (snd (final_device json env p c1)) (snd ?l)"
    by (rule for_each_visit [where I = I, OF _ I2 p2 l(1)]) (use final_device_frame step in blast)
  then show ?thesis using l(2) grows_trans [OF _ grows_put(3)] by blast
qed

lemma stale_selftest:
  assumes "fst (judge_selftest now key info data c) = None" "selftest_result data = Inr (p, fp)"
    and "py_equal fp (sb_selftest_log info)"
    and "\<not> (st_observed_running (selftest_of key c) \<and> st_boot_id (selftest_of key c) = c_boot_id c)"
  shows "\<exists>d. snd (judge_selftest now key info data c) = ctx_add now (unfinished_event key info) d"
proof -
  have "completed_selftest (selftest_of key c) (c_boot_id c) info data (p, fp) \<noteq> Inr True"
    using assms(3,4) by (cases "selftest_in_progress data") (auto simp: completed_selftest_def)
  then show ?thesis using assms(1,2) by (auto simp: judge_selftest_def lift_ok Let_def)
qed

lemma final_device_judges:
  assumes "fst (final_device json (now, sy) (key, info) c) = None"
  defines "data \<equiv> smart_read json sy (split_key key)"
  shows "\<exists>es d. evaluate_smart data (sb_label info) (sb_metrics info) = Inr es \<and> test_frame key c d \<and>
    fst (judge_selftest now key info data (add_events now es d)) = None \<and>
    snd (final_device json (now, sy) (key, info) c) = snd (judge_selftest now key info data (add_events now es d))"
proof -
  obtain changed es where "identity_changed info data = Inr changed" and es: "evaluate_smart data (sb_label info) (sb_metrics info) = Inr es"
    using assms by (auto simp: final_device_def lift_ok Let_def)
  moreover have "test_frame key c (if changed then ctx_add now (final_missing_event key info) c else c)"
    by (simp add: test_frame_def)
  ultimately show ?thesis using assms by (fastforce simp: final_device_def lift_ok Let_def)
qed

text \<open>A self-test that did not run in this session never counts: when the self-test log of the
  final report equals the one before the test and the test was not seen running on this boot, the
  verdict cannot be PASS, whatever the report says about the latest result.\<close>

theorem stale_selftest_incomplete:
  assumes "smart_final json rounds (now, sy) c = ok c'" "(key, info) \<in> set (st_smart (the_state c))"
    and "selftest_result (smart_read json sy (split_key key)) = Inr (p, fp)" "py_equal fp (sb_selftest_log info)"
    and "\<forall>sy \<in> set rounds. selftest_in_progress (smart_read json sy (split_key key)) = Inr False"
    and "\<not> (st_observed_running (selftest_of key c) \<and> st_boot_id (selftest_of key c) = c_boot_id c)"
  shows "badness (verdict (c_findings c') inc) \<ge> 2"
proof -
  let ?data = "smart_read json sy (split_key key)"
  have "\<exists>c1. test_frame key c c1 \<and> fst (final_device json (now, sy) (key, info) c1) = None \<and>
      grows (snd (final_device json (now, sy) (key, info) c1)) c'"
    by (rule smart_final_visit [OF assms(1,2)]) (use wait_frame [OF assms(5)] final_device_frame test_frame_trans in blast)+
  then obtain c1 where c1: "test_frame key c c1"
    "fst (final_device json (now, sy) (key, info) c1) = None" "grows (snd (final_device json (now, sy) (key, info) c1)) c'" by blast
  from final_device_judges [OF c1(2)] obtain es d where d: "test_frame key c1 d"
    "fst (judge_selftest now key info ?data (add_events now es d)) = None"
    "snd (final_device json (now, sy) (key, info) c1) = snd (judge_selftest now key info ?data (add_events now es d))" by blast
  have "\<not> (st_observed_running (selftest_of key (add_events now es d)) \<and>
      st_boot_id (selftest_of key (add_events now es d)) = c_boot_id (add_events now es d))"
    using assms(6) c1(1) d(1) by (simp add: test_frame_def)
  from stale_selftest [OF d(2) assms(3,4) this] c1(3) d(3) show ?thesis
    using incomplete_survives by fastforce
qed

text \<open>C17: when a defect counter of a disk (any SMART metric but the endurance values, the error log
  length and the interface CRC count) is higher after the burn-in than before it, the verdict is
  FAILED.\<close>

theorem smart_growth_fails:
  assumes "smart_final json rounds (now, sy) c = ok c'" "(key, info) \<in> set (st_smart (the_state c))"
    and "truthy (smart_read json sy (split_key key))" "smart_metrics (smart_read json sy (split_key key)) = Inr m"
    and "(name, after) \<in> set m" "map_of (sb_metrics info) name = Some before" "before < after"
    and "name \<notin> set NOT_COUNTERS" "name \<noteq> ''udma_crc''"
  shows "verdict (c_findings c') inc = FAILED"
proof -
  let ?data = "smart_read json sy (split_key key)"
  from smart_final_visit [OF assms(1,2), of "\<lambda>_. True"] obtain c1 where c1:
    "fst (final_device json (now, sy) (key, info) c1) = None" "grows (snd (final_device json (now, sy) (key, info) c1)) c'" by blast
  from final_device_judges [OF c1(1)] obtain es d where d: "evaluate_smart ?data (sb_label info) (sb_metrics info) = Inr es"
    "snd (final_device json (now, sy) (key, info) c1) = snd (judge_selftest now key info ?data (add_events now es d))" by blast
  obtain e where e: "e \<in> set es" "ev_severity e = FAIL"
    using growth_reported [OF d(1) assms(4,3,5-9)] by blast
  then obtain xs ys where es: "es = xs @ e # ys" by (auto dest: split_list)
  have "grows (ctx_add now e (add_events now xs d)) (add_events now es d)"
    using add_events_grows [of ys] evaluate_legal [OF d(1)] es by (simp add: add_events_def)
  also have "grows (add_events now es d) (snd (judge_selftest now key info ?data (add_events now es d)))"
    using judge_selftest_frame by blast
  also have "grows (snd (judge_selftest now key info ?data (add_events now es d))) c'" using c1(2) d(2) by simp
  finally show ?thesis using FAIL_survives e(2) by blast
qed

section \<open>The destructive test only touches unused disks\<close>

text \<open>\<open>below x v\<close>: the node \<open>x\<close> is \<open>v\<close> or a node of the tree below it.\<close>

inductive below :: "pyval \<Rightarrow> pyval \<Rightarrow> bool" where
  self: "below v v"
| child: "w \<in> set (children_of v) \<Longrightarrow> below x w \<Longrightarrow> below x v"

lemma any_ex_False: "any_ex f xs = Inr False \<longleftrightarrow> (\<forall>x \<in> set xs. f x = Inr False)"
  by (induction xs) auto

lemma ebind_or_False: "ebind m (\<lambda>b. if b then Inr True else X) = Inr False \<longleftrightarrow> m = Inr False \<and> X = Inr False"
  by (cases m) auto

lemma bad_children_then: "ebind (bad_children v) (\<lambda>_. X) = Inr False \<longleftrightarrow> bad_children v = Inr False \<and> X = Inr False"
proof -
  have "bad_children v \<noteq> Inr True" by (auto simp: bad_children_def split: if_splits)
  then show ?thesis by (cases "bad_children v") auto
qed

lemma busy_False: "busy sy v = Inr False \<longleftrightarrow> mounted v = Inr False \<and> held sy v = Inr False \<and>
    bad_children v = Inr False \<and> (\<forall>w \<in> set (children_of v). busy sy w = Inr False)"
  unfolding busy.simps [of sy v] ebind_or_False bad_children_then any_ex_False ..

lemma idle_below: "below x v \<Longrightarrow> busy sy v = Inr False \<Longrightarrow> mounted x = Inr False \<and> held sy x = Inr False"
proof (induction rule: below.induct)
  case (self v)
  then show ?case using busy_False [of sy v] by blast
next
  case (child w v x)
  then have "busy sy w = Inr False" using busy_False [of sy v] by blast
  then show ?case by (rule child.IH)
qed

text \<open>A disk that is not in use: its block device tree is known, and no node of it is mounted or held.\<close>

definition unused :: "(string \<Rightarrow> pyval option) \<Rightarrow> sys \<Rightarrow> block_disk \<Rightarrow> bool" where
  "unused json sy d \<longleftrightarrow> (\<exists>nodes ns. topology_nodes json sy d = Inr nodes \<and> py_iter nodes = Inr ns \<and> ns \<noteq> [] \<and>
     (\<forall>n \<in> set ns. \<forall>x. below x n \<longrightarrow> mounted x = Inr False \<and> held sy x = Inr False))"

lemma disk_use_unused: "disk_use json sy d = Inr (False, kids) \<Longrightarrow> unused json sy d"
proof -
  assume u: "disk_use json sy d = Inr (False, kids)"
  then obtain nodes ns where n: "topology_nodes json sy d = Inr nodes" "truthy nodes" "py_iter nodes = Inr ns"
      "any_ex (busy sy) ns = Inr False"
    by (auto simp: disk_use_def node_use_def split: sum.splits if_splits)
  have "ns \<noteq> []" using n(2,3) by (cases nodes) auto
  then show ?thesis using n idle_below unfolding unused_def any_ex_False by blast
qed

definition safe_target :: "(string \<Rightarrow> pyval option) \<Rightarrow> sys \<Rightarrow> ctx \<Rightarrow> block_disk \<Rightarrow> bool" where
  "safe_target json sy c d \<longleftrightarrow> c_boot_disk c \<noteq> [] \<and> d_name d \<notin> set (dm_exclude (dm_of c)) \<and> unused json sy d \<and>
     returncode (wipefs sy d) = 0 \<and> returncode (topology sy d) = 0 \<and>
     (destructive (c_opts c) = ''force'' \<or> strip (stdout (wipefs sy d)) = [])"

lemma candidates_safe:
  "efold (candidate_step json sy c) ds (el0, sk0) = Inr (el, sk) \<Longrightarrow> d \<in> set el - set el0 \<Longrightarrow>
   d \<in> set ds \<and> safe_target json sy c d"
proof (induction ds arbitrary: el0 sk0)
  case (Cons x ds)
  then obtain s where s: "candidate_step json sy c x (el0, sk0) = Inr s" "efold (candidate_step json sy c) ds s = Inr (el, sk)"
    by auto
  then obtain u where u: "disk_use json sy x = Inr u"
    and r: "efold (candidate_step json sy c) ds (if refused c sy x u then (el0, sk0 @ [x]) else (el0 @ [x], sk0)) = Inr (el, sk)"
    unfolding candidate_step_def [of json sy c x] by auto
  show ?case
  proof (cases "d = x \<and> \<not> refused c sy x u")
    case True
    then have "safe_target json sy c d" using u disk_use_unused [of json sy x "snd u"]
      by (cases u) (auto simp: safe_target_def refused_def)
    then show ?thesis using True by simp
  next
    case False
    then show ?thesis using Cons.IH r Cons.prems(2) by (auto split: if_splits)
  qed
qed simp

text \<open>C12: the destructive write test is only offered for disks that are known to be unused.  With the
  exclusion list that the manager was made with, no offered disk is the boot disk, which must have been
  identified, nor the disk of the log device; both discovery commands succeeded on it, the device tree
  they show has a node, no node of it is mounted or held, and a disk that carries a signature is offered
  only under force.\<close>

theorem destructive_only_unused:
  assumes "destructive_candidates json sy c disks = Inr (eligible, skipped)" "d \<in> set eligible"
    and "dm_exclude (dm_of c) = dm_exclude (new_manager sy0 (c_boot_disk c) log_device)"
  shows "d \<in> set disks \<and> c_boot_disk c \<noteq> [] \<and> d_name d \<noteq> c_boot_disk c \<and>
    (parent_disk sy0 log_device \<noteq> [] \<longrightarrow> d_name d \<noteq> parent_disk sy0 log_device) \<and>
    returncode (wipefs sy d) = 0 \<and> returncode (topology sy d) = 0 \<and>
    (\<exists>nodes ns. topology_nodes json sy d = Inr nodes \<and> py_iter nodes = Inr ns \<and> ns \<noteq> [] \<and>
      (\<forall>n \<in> set ns. \<forall>x. below x n \<longrightarrow> mounted x = Inr False \<and> held sy x = Inr False)) \<and>
    (destructive (c_opts c) \<noteq> ''force'' \<longrightarrow> strip (stdout (wipefs sy d)) = [])"
proof -
  have "d \<in> set disks \<and> safe_target json sy c d"
    using candidates_safe [of json sy c disks "[]" "[]" eligible skipped d] assms(1,2) by (simp add: destructive_candidates_def)
  then show ?thesis unfolding safe_target_def unused_def using assms(3) by (auto simp: new_manager_def)
qed

section \<open>Starting the scans\<close>

lemma put_scans_frame [simp]:
  "dm_of (put_scans f k c) = dm_of c" "c_opts (put_scans f k c) = c_opts c" "c_boot_disk (put_scans f k c) = c_boot_disk c"
  "c_findings (put_scans f k c) = c_findings c" "s_resumed (c_session (put_scans f k c)) = s_resumed (c_session c)"
  by (simp_all add: put_scans_def split: option.split)

lemma start_frame: "let c' = snd (start_disk json spawn env names d c) in
    c_boot_disk c' = c_boot_disk c \<and> c_opts c' = c_opts c \<and> dm_exclude (dm_of c') = dm_exclude (dm_of c) \<and>
    s_resumed (c_session c') = s_resumed (c_session c)"
  by (auto simp: start_disk_def Let_def lift_ex_def split: prod.split sum.split option.split)

definition write_ok :: "(string \<Rightarrow> pyval option) \<Rightarrow> sys \<Rightarrow> string list \<Rightarrow> ctx \<Rightarrow> block_disk \<Rightarrow> bool" where
  "write_ok json sy names c d \<longleftrightarrow> d_name d \<in> set names \<and> safe_target json sy c d \<and>
     (s_resumed (c_session c) \<longrightarrow> d_wwn d \<noteq> [] \<or> d_serial d \<noteq> [])"

lemma candidates_single: "destructive_candidates json sy c [d] = Inr (el, sk) \<Longrightarrow> el \<noteq> [] \<Longrightarrow> safe_target json sy c d"
proof -
  assume a: "destructive_candidates json sy c [d] = Inr (el, sk)" "el \<noteq> []"
  then obtain x where "x \<in> set el" by (cases el) auto
  with a(1) show ?thesis using candidates_safe [of json sy c "[d]" "[]" "[]" el sk x]
    by (auto simp: destructive_candidates_def simp del: efold.simps)
qed

lemma start_disk_writers:
  assumes "w \<in> set (dm_writers (dm_of (snd (start_disk json spawn (now, sy) names d c))))" "w \<notin> set (dm_writers (dm_of c))"
  shows "write_ok json sy names c (wv_disk w)"
proof -
  let ?c1 = "put_scans (\<lambda>_ old. Some (the_default (new_entry names d) old)) (disk_id d) c"
  from assms obtain r where r: "destructive_candidates json sy ?c1 [d] = Inr r" "\<not> write_refused names d ?c1 r" "wv_disk w = d"
    by (auto simp: start_disk_def Let_def lift_ex_def split: if_splits sum.splits option.splits)
  then have "safe_target json sy ?c1 d" using candidates_single [of json sy ?c1 d "fst r" "snd r"] by (simp add: write_refused_def)
  then have "safe_target json sy c d" by (simp add: safe_target_def)
  then show ?thesis using r(2,3) by (auto simp: write_ok_def write_refused_def)
qed

lemma start_disks_writers:
  "w \<in> set (dm_writers (dm_of (snd (for_each (start_disk json spawn (now, sy) names) ds c)))) \<Longrightarrow>
   w \<notin> set (dm_writers (dm_of c)) \<Longrightarrow> write_ok json sy names c (wv_disk w)"
proof (induction ds arbitrary: c)
  case (Cons d ds)
  let ?r = "start_disk json spawn (now, sy) names d c"
  have k: "write_ok json sy names (snd ?r) x = write_ok json sy names c x" for x
    using start_frame [of json spawn "(now, sy)" names d c] by (simp add: write_ok_def safe_target_def Let_def)
  show ?case
  proof (cases "w \<in> set (dm_writers (dm_of (snd ?r)))")
    case True
    then show ?thesis using start_disk_writers Cons.prems(2) by blast
  next
    case False
    then show ?thesis using Cons k by (auto simp: snd_andthen split: option.splits)
  qed
qed simp

text \<open>C13: a write test is only started on a disk that the operator confirmed, that passes the safety
  checks at the moment of the start, and that, in a resumed session, is identified by a serial number
  or WWN rather than by its kernel name.\<close>

theorem write_tests_confirmed:
  assumes "w \<in> set (dm_writers (dm_of (snd (start_scans json spawn (now, sy) chosen c))))" "w \<notin> set (dm_writers (dm_of c))"
  shows "d_name (wv_disk w) \<in> d_name ` set chosen \<and> safe_target json sy c (wv_disk w) \<and>
    (s_resumed (c_session c) \<longrightarrow> d_wwn (wv_disk w) \<noteq> [] \<or> d_serial (wv_disk w) \<noteq> [])"
  using start_disks_writers [of w json spawn now sy "map d_name chosen" _ c] assms
  by (auto simp: start_scans_def lift_ex_def snd_andthen write_ok_def split: sum.splits option.splits)

section \<open>Coverage that is missing is reported\<close>

lemma upd_entry_frame [simp]:
  "dm_of (upd_entry k f c) = dm_of c" "c_findings (upd_entry k f c) = c_findings c"
  "st_disk_scans (the_state (upd_entry k f c)) =
     (case map_of (st_disk_scans (the_state c)) k of None \<Rightarrow> st_disk_scans (the_state c)
      | Some e \<Rightarrow> AList.update k (f e) (st_disk_scans (the_state c)))"
  by (simp_all add: upd_entry_def put_scans_def split: option.split)

lemma writer_finished_grows: "writer_finished now poll w c = (b, w', c') \<Longrightarrow> grows c c' \<and> dm_of c' = dm_of c \<and> the_state c' = the_state c"
  by (auto simp: writer_finished_def split: if_splits option.splits)

lemma save_writers_grows:
  "save_writers now procs ws c = (ws', c') \<Longrightarrow> grows c c' \<and> dm_of c' = dm_of c"
proof (induction ws arbitrary: c ws' c')
  case (Cons w ws)
  obtain b w1 c1 where f: "writer_finished now (writer_poll procs w) w c = (b, w1, c1)"
    by (cases "writer_finished now (writer_poll procs w) w c") auto
  let ?k = "disk_id (wv_disk w)"
  let ?c2 = "upd_entry ?k (\<lambda>e. e\<lparr>sc_done := b \<and> \<not> sc_incomplete e\<rparr>) c1"
  obtain r1 d1 where r1: "save_writers now procs ws c = (r1, d1)" by (cases "save_writers now procs ws c") auto
  obtain r2 d2 where r2: "save_writers now procs ws ?c2 = (r2, d2)" by (cases "save_writers now procs ws ?c2") auto
  have c2: "grows c ?c2" "dm_of ?c2 = dm_of c" using writer_finished_grows [OF f] grows_trans [OF _ grows_same] by auto
  show ?case
  proof (cases "map_of (st_disk_scans (the_state c)) ?k = None")
    case True
    then have "c' = d1" using Cons.prems r1 by (simp add: Let_def)
    then show ?thesis using Cons.IH [OF r1] by simp
  next
    case False
    then have "c' = d2" using Cons.prems f r2 by (simp add: Let_def del: not_None_eq)
    then show ?thesis using Cons.IH [OF r2] c2 grows_trans [OF c2(1)] by simp
  qed
qed simp

lemma save_scans_frame: "c_findings (fold save_scan ss c) = c_findings c \<and> dm_of (fold save_scan ss c) = dm_of c"
  by (induction ss arbitrary: c) (simp_all add: save_scan_def)

lemma save_progress_grows: "grows c (save_progress now procs c)"
proof -
  let ?c1 = "fold save_scan (dm_scans (dm_of c)) c"
  obtain ws c2 where w: "save_writers now procs (dm_writers (dm_of c)) ?c1 = (ws, c2)" by (cases "save_writers now procs (dm_writers (dm_of c)) ?c1") auto
  have "grows c ?c1" using save_scans_frame by (simp add: grows_same)
  also have "grows ?c1 c2" using save_writers_grows [OF w] by simp
  also have "grows c2 (save_progress now procs c)" using w by (simp add: save_progress_def)
  finally show ?thesis .
qed

lemma stop_writers_grows:
  "stop_writers now procs ws c = (ws', c') \<Longrightarrow> grows c c' \<and> dm_of c' = dm_of c"
proof (induction ws arbitrary: c ws' c')
  case (Cons w ws)
  obtain b w1 c1 where f: "writer_finished now (writer_poll procs w) w c = (b, w1, c1)"
    by (cases "writer_finished now (writer_poll procs w) w c") auto
  let ?c2 = "if b then c1 else ctx_add now (writer_unfinished_event (wv_disk w)) (upd_entry (disk_id (wv_disk w)) (\<lambda>e. e\<lparr>sc_incomplete := True\<rparr>) c1)"
  obtain r2 d2 where r2: "stop_writers now procs ws ?c2 = (r2, d2)" by (cases "stop_writers now procs ws ?c2") auto
  have c1: "grows c c1" "dm_of c1 = dm_of c" using writer_finished_grows [OF f] by auto
  have "grows c1 ?c2" "dm_of ?c2 = dm_of c1" by (simp_all add: grows_add_same)
  moreover have "c' = d2" using Cons.prems f r2 by simp
  ultimately show ?case using Cons.IH [OF r2] c1 by (metis grows_trans)
qed simp

lemma stop_writers_incomplete:
  "stop_writers now procs ws c = (ws', c') \<Longrightarrow> w \<in> set ws \<Longrightarrow> \<not> wv_done w \<Longrightarrow> fst (writer_poll procs w) = None \<Longrightarrow>
   \<exists>d. grows (ctx_add now (writer_unfinished_event (wv_disk w)) d) c'"
proof (induction ws arbitrary: c ws' c')
  case (Cons x ws)
  obtain b w1 c1 where f: "writer_finished now (writer_poll procs x) x c = (b, w1, c1)"
    by (cases "writer_finished now (writer_poll procs x) x c") auto
  let ?c2 = "if b then c1 else ctx_add now (writer_unfinished_event (wv_disk x)) (upd_entry (disk_id (wv_disk x)) (\<lambda>e. e\<lparr>sc_incomplete := True\<rparr>) c1)"
  obtain r2 d2 where r2: "stop_writers now procs ws ?c2 = (r2, d2)" by (cases "stop_writers now procs ws ?c2") auto
  have c': "c' = d2" using Cons.prems(1) f r2 by simp
  show ?case
  proof (cases "w = x")
    case True
    then have "\<not> b" using f Cons.prems(3,4) by (auto simp: writer_finished_def)
    then show ?thesis using stop_writers_grows [OF r2] c' True by auto
  next
    case False
    then show ?thesis using Cons.IH [OF r2] Cons.prems c' by simp
  qed
qed simp

lemma fold_partial:
  "s \<in> set ss \<Longrightarrow> \<not> ss_done s \<Longrightarrow>
   \<exists>d. grows (ctx_add now (scan_partial_event s) d) (fold (\<lambda>s c. if ss_done s then c else ctx_add now (scan_partial_event s) c) ss c)"
proof -
  let ?f = "\<lambda>s c. if ss_done s then c else ctx_add now (scan_partial_event s) c"
  assume s: "s \<in> set ss" "\<not> ss_done s"
  then obtain xs ys where "ss = xs @ s # ys" by (auto dest: split_list)
  then have e: "fold ?f ss c = fold ?f ys (ctx_add now (scan_partial_event s) (fold ?f xs c))" using s by simp
  have "grows (ctx_add now (scan_partial_event s) (fold ?f xs c)) (fold ?f ss c)" unfolding e by (rule grows_fold) simp
  then show ?thesis by (rule exI)
qed

text \<open>C16: when the disk tests are stopped, every surface scan that is not done and every write test whose
  process is still running leaves an incomplete finding: the verdict cannot be PASS, with or without
  warnings.\<close>

theorem unfinished_disk_test_incomplete:
  assumes "(\<exists>s \<in> set (dm_scans (dm_of c)). \<not> ss_done s) \<or>
    (\<exists>w \<in> set (dm_writers (dm_of c)). \<not> wv_done w \<and> fst (writer_poll procs w) = None)"
  shows "badness (verdict (c_findings (dm_stop_all now procs c)) inc) \<ge> 2"
proof -
  let ?c1 = "put_dm (\<lambda>dm. dm\<lparr>dm_stop := True, dm_running := True\<rparr>) c"
  let ?f = "\<lambda>s c. if ss_done s then c else ctx_add now (scan_partial_event s) c"
  obtain ws c2 where w: "stop_writers now procs (dm_writers (dm_of ?c1)) ?c1 = (ws, c2)"
    by (cases "stop_writers now procs (dm_writers (dm_of ?c1)) ?c1") auto
  let ?c3 = "put_dm (\<lambda>dm. dm\<lparr>dm_writers := ws\<rparr>) c2"
  let ?c4 = "fold ?f (dm_scans (dm_of ?c3)) ?c3"
  have r: "dm_stop_all now procs c = save_progress now procs ?c4" using w by (simp add: dm_stop_all_def Let_def)
  have d: "dm_scans (dm_of ?c3) = dm_scans (dm_of c)" using stop_writers_grows [OF w] by simp
  have g4: "grows ?c3 ?c4" by (rule grows_fold) simp
  from assms show ?thesis
  proof (elim disjE bexE)
    fix s assume "s \<in> set (dm_scans (dm_of c))" "\<not> ss_done s"
    then obtain d' where "grows (ctx_add now (scan_partial_event s) d') ?c4" using fold_partial [of s "dm_scans (dm_of ?c3)" now ?c3] d by auto
    from grows_trans [OF this save_progress_grows] show ?thesis unfolding r by (rule incomplete_survives) simp
  next
    fix x assume "x \<in> set (dm_writers (dm_of c))" "\<not> wv_done x \<and> fst (writer_poll procs x) = None"
    then obtain d' where "grows (ctx_add now (writer_unfinished_event (wv_disk x)) d') c2"
      using stop_writers_incomplete [OF w, of x] by auto
    from grows_trans [OF grows_trans [OF grows_trans [OF this grows_put(1)] g4] save_progress_grows]
    show ?thesis unfolding r by (rule incomplete_survives) simp
  qed
qed

lemma scan_events_legal: "\<forall>e \<in> set (scan_events s). legal e"
  by (auto simp: scan_events_def)

text \<open>A surface scan that met an unreadable region fails the machine, also when it was aborted.\<close>

theorem unreadable_sector_fails:
  assumes "ss_errors s \<noteq> []"
  shows "verdict (c_findings (report_scan now procs s c)) inc = FAILED"
proof -
  have "scan_events s = scan_errors_event s # tl (scan_events s)" using assms by (simp add: scan_events_def)
  then have e: "add_events now (scan_events s) c = add_events now (tl (scan_events s)) (ctx_add now (scan_errors_event s) c)"
    by (metis add_events_simps(2))
  have "\<forall>e \<in> set (tl (scan_events s)). legal e" using scan_events_legal by (metis list.sel(2) list.set_sel(2))
  from grows_trans [OF add_events_grows [OF this] save_progress_grows] show ?thesis
    unfolding report_scan_def e by (rule FAIL_survives) (simp add: scan_errors_event_def)
qed

section \<open>A scan resumes where it stopped\<close>

lemma save_scan_entry: "map_of (st_disk_scans (the_state (save_scan x c))) k =
    (if k = disk_id (ss_disk x) then map_option (\<lambda>e. e\<lparr>sc_offset := ss_offset x, sc_done := ss_done x\<rparr>) (map_of (st_disk_scans (the_state c)) k)
     else map_of (st_disk_scans (the_state c)) k)"
  by (simp add: save_scan_def dict_simps split: option.split)

lemma save_scans_entry:
  "\<forall>x \<in> set ss. disk_id (ss_disk x) = disk_id (ss_disk s) \<longrightarrow> x = s \<Longrightarrow>
   map_of (st_disk_scans (the_state c)) (disk_id (ss_disk s)) = Some e \<Longrightarrow>
   map_of (st_disk_scans (the_state (fold save_scan ss c))) (disk_id (ss_disk s)) =
     Some (if s \<in> set ss then e\<lparr>sc_offset := ss_offset s, sc_done := ss_done s\<rparr> else e)"
proof (induction ss arbitrary: c e)
  case (Cons x ss)
  then show ?case
    by (cases "x = s") (auto simp: save_scan_entry)
qed simp

lemma writer_finished_state: "writer_finished now poll w c = (b, w', c1) \<Longrightarrow> the_state c1 = the_state c"
  by (auto simp: writer_finished_def split: if_splits option.splits)

lemma upd_entry_other: "j \<noteq> k \<Longrightarrow> map_of (st_disk_scans (the_state (upd_entry j f c))) k = map_of (st_disk_scans (the_state c)) k"
  by (simp add: upd_entry_def dict_simps put_scans_def split: option.split)

lemma save_writers_other: "\<forall>w \<in> set ws. disk_id (wv_disk w) \<noteq> k \<Longrightarrow>
    map_of (st_disk_scans (the_state (snd (save_writers now procs ws c)))) k = map_of (st_disk_scans (the_state c)) k"
proof (induction ws arbitrary: c)
  case (Cons w ws)
  obtain b w' c1 where f: "writer_finished now (writer_poll procs w) w c = (b, w', c1)" by (metis prod.collapse)
  have st: "the_state c1 = the_state c" by (rule writer_finished_state [OF f])
  let ?c2 = "upd_entry (disk_id (wv_disk w)) (\<lambda>e. e\<lparr>sc_done := b \<and> \<not> sc_incomplete e\<rparr>) c1"
  have u: "map_of (st_disk_scans (the_state ?c2)) k = map_of (st_disk_scans (the_state c)) k"
    using upd_entry_other [of "disk_id (wv_disk w)" k _ c1] Cons.prems st by simp
  show ?case
  proof (cases "map_of (st_disk_scans (the_state c)) (disk_id (wv_disk w)) = None")
    case True
    then have "snd (save_writers now procs (w # ws) c) = snd (save_writers now procs ws c)"
      by (simp add: Let_def split: prod.split)
    then show ?thesis using Cons.IH [of c] Cons.prems by simp
  next
    case False
    then have "snd (save_writers now procs (w # ws) c) = snd (save_writers now procs ws ?c2)"
      by (auto simp: Let_def f split: prod.split)
    then show ?thesis using Cons.IH [of ?c2] Cons.prems u by simp
  qed
qed simp

lemma writer_finished_dm: "writer_finished now poll w c = (b, w', c1) \<Longrightarrow> dm_of c1 = dm_of c"
  by (auto simp: writer_finished_def split: if_splits option.splits)

lemma save_writers_dm: "save_writers now procs ws c = (ws', c') \<Longrightarrow> dm_of c' = dm_of c"
proof (induction ws arbitrary: c ws' c')
  case (Cons w ws)
  obtain b w' c1 where f: "writer_finished now (writer_poll procs w) w c = (b, w', c1)" by (metis prod.collapse)
  show ?case using Cons writer_finished_dm [OF f] by (auto simp: Let_def f upd_entry_def split: if_splits prod.splits)
qed simp

text \<open>The exclusion list of the manager stays what it was made with: starting, pausing and saving keep it.\<close>

lemma exclude_kept: "dm_exclude (dm_of (snd (start_disk json spawn env names d c))) = dm_exclude (dm_of c)"
  "dm_exclude (dm_of (save_progress now procs c)) = dm_exclude (dm_of c)"
  "dm_exclude (dm_of (snd (dm_pause procs c))) = dm_exclude (dm_of c)"
  "dm_exclude (dm_of (snd (dm_resume procs c))) = dm_exclude (dm_of c)"
  using start_frame [of json spawn env names d c] save_writers_dm save_scans_frame
  by (auto simp: Let_def save_progress_def dm_pause_def dm_resume_def split: prod.split)

text \<open>C35: the progress that is saved is the progress that is resumed.  A disk with its own identity (no other
  scan and no write test is registered under its serial number or WWN) that is read, not written, is
  continued after \<open>save_progress\<close> at the very offset its scan had reached, by every manager that starts
  from the saved table, whatever the name of the disk is by then and whatever write tests run on
  other disks; a scan that was done is not started again.\<close>

theorem scan_resumes_where_it_stopped:
  assumes "s \<in> set (dm_scans (dm_of c))"
    and "\<forall>x \<in> set (dm_scans (dm_of c)). disk_id (ss_disk x) = disk_id (ss_disk s) \<longrightarrow> x = s"
    and "\<forall>w \<in> set (dm_writers (dm_of c)). disk_id (wv_disk w) \<noteq> disk_id (ss_disk s)"
    and "map_of (st_disk_scans (the_state c)) (disk_id (ss_disk s)) = Some e" "sc_mode e = M_read"
    and "st_disk_scans (the_state d) = st_disk_scans (the_state (save_progress now procs c))" "disk_id x = disk_id (ss_disk s)"
  shows "dm_scans (dm_of (snd (start_disk json spawn env names x d))) =
    dm_scans (dm_of d) @ (if ss_done s then [] else [new_scan x (ss_offset s)])"
proof -
  let ?c = "fold save_scan (dm_scans (dm_of c)) c"
  have "map_of (st_disk_scans (the_state ?c)) (disk_id x) = Some (e\<lparr>sc_offset := ss_offset s, sc_done := ss_done s\<rparr>)"
    using save_scans_entry [OF assms(2,4)] assms(1,7) by simp
  then have "map_of (st_disk_scans (the_state d)) (disk_id x) = Some (e\<lparr>sc_offset := ss_offset s, sc_done := ss_done s\<rparr>)"
    using save_writers_other [of "dm_writers (dm_of c)" "disk_id x" now procs ?c] assms(3,6,7)
    by (simp add: save_progress_def split: prod.splits)
  then show ?thesis using assms(5) by (simp add: start_disk_def Let_def split: prod.split)
qed

section \<open>Witnesses\<close>

definition quiet_sys :: sys where
  "quiet_sys = \<lparr>read_file = \<lambda>_. [], glob = \<lambda>_. [], path_exists = \<lambda>_. False,
     run_cmd = \<lambda>_. \<lparr>returncode = 0, stdout = [], stderr = []\<rparr>\<rparr>"

text \<open>A report with one passed self-test and one pending sector.\<close>

definition sample_log :: pyval where
  "sample_log = PList [PDict [(''status'', PDict [(''passed'', PBool True)])]]"

definition sample_report :: pyval where
  "sample_report = PDict [(''ata_smart_self_test_log'', PDict [(''extended'', PDict [(''table'', sample_log)])]),
     (''ata_smart_attributes'', PDict [(''table'', PList [PDict [(''id'', PInt 197), (''raw'', PDict [(''value'', PInt 1)])]])])]"

definition sample_base :: smart_base where
  "sample_base = \<lparr>sb_label = ''d'', sb_metrics = [(''pending'', 0)], sb_solid_state = False, sb_selftest_log = sample_log,
     sb_serial = PNone\<rparr>"

definition smart_ctx :: ctx where
  "smart_ctx = put_state (\<lambda>st. st\<lparr>st_smart := [(''d|sat'', sample_base)]\<rparr>) blank_ctx"

lemma blank_state [simp]:
  "st_selftests (the_state blank_ctx) = []" "st_smart (the_state blank_ctx) = []" "st_disk_scans (the_state blank_ctx) = []"
  by (simp_all add: the_state_def first_session_def make_session_def new_state_def)

lemma smart_ctx [simp]:
  "st_smart (the_state smart_ctx) = [(''d|sat'', sample_base)]" "selftest_of k smart_ctx = no_selftest"
  by (simp_all add: smart_ctx_def selftest_of_def dict_get_def)

lemma sample_base [simp]: "sb_label sample_base = ''d''" "sb_metrics sample_base = [(''pending'', 0)]"
  "sb_selftest_log sample_base = sample_log" "sb_serial sample_base = PNone"
  by (simp_all add: sample_base_def)

lemma sample_reads [simp]: "smart_read (\<lambda>_. Some sample_report) sy dev = sample_report"
  by (simp add: smart_read_def)

lemma sample_metrics: "smart_metrics sample_report = Inr [(''pending'', 1)]" by code_simp

lemma sample_evaluates: "\<exists>es. evaluate_smart sample_report ''d'' [(''pending'', 0)] = Inr es"
proof -
  have "case evaluate_smart sample_report ''d'' [(''pending'', 0)] of Inr es \<Rightarrow> True | Inl _ \<Rightarrow> False" by code_simp
  then show ?thesis by (auto split: sum.splits)
qed

lemma sample_result: "selftest_result sample_report = Inr (PBool True, sample_log)"
  "selftest_in_progress sample_report = Inr False" "truthy sample_report" "py_equal sample_log sample_log"
  by code_simp+

lemma sample_final: "\<exists>c'. smart_final (\<lambda>_. Some sample_report) [] (''t'', quiet_sys) smart_ctx = ok c'"
proof -
  obtain es where es: "evaluate_smart sample_report ''d'' [(''pending'', 0)] = Inr es" using sample_evaluates by blast
  have "identity_changed sample_base sample_report = Inr False" by (simp add: identity_changed_def sample_result)
  then have "fst (smart_final (\<lambda>_. Some sample_report) [] (''t'', quiet_sys) smart_ctx) = None" using es
    by (simp add: smart_final_def final_device_def judge_selftest_def sample_result completed_selftest_def Let_def no_selftest_def)
  then show ?thesis by (metis ok_def prod.collapse)
qed

theorem stale_selftest_incomplete_witness:
  "\<exists>c'. smart_final (\<lambda>_. Some sample_report) [] (''t'', quiet_sys) smart_ctx = ok c' \<and> badness (verdict (c_findings c') False) \<ge> 2"
proof -
  obtain c' where c': "smart_final (\<lambda>_. Some sample_report) [] (''t'', quiet_sys) smart_ctx = ok c'" using sample_final by blast
  have "badness (verdict (c_findings c') False) \<ge> 2"
    by (rule stale_selftest_incomplete [OF c', of "''d|sat''" sample_base "PBool True" sample_log])
      (simp_all add: sample_result no_selftest_def)
  with c' show ?thesis by blast
qed

theorem smart_growth_fails_witness:
  "\<exists>c'. smart_final (\<lambda>_. Some sample_report) [] (''t'', quiet_sys) smart_ctx = ok c' \<and> verdict (c_findings c') False = FAILED"
proof -
  obtain c' where c': "smart_final (\<lambda>_. Some sample_report) [] (''t'', quiet_sys) smart_ctx = ok c'" using sample_final by blast
  have "verdict (c_findings c') False = FAILED"
    by (rule smart_growth_fails [OF c', of "''d|sat''" sample_base "[(''pending'', 1)]" "''pending''" 1 0])
      (simp_all add: sample_result sample_metrics NOT_COUNTERS_def)
  with c' show ?thesis by blast
qed

text \<open>A disk with one node that is neither mounted nor held.\<close>

definition idle_tree :: pyval where
  "idle_tree = PDict [(''blockdevices'', PList [PDict [(''name'', PStr ''sdb'')]])]"

definition storage_ctx :: ctx where
  "storage_ctx = put_dm (\<lambda>_. new_manager quiet_sys ''sda'' []) blank_ctx"

lemma idle_use: "disk_use (\<lambda>_. Some idle_tree) quiet_sys small_disk = Inr (False, False)"
  by (simp add: disk_use_def topology_nodes_def idle_tree_def node_use_def busy.simps mounted_def held_def bad_children_def
      py_or_def dict_get_def quiet_sys_def)

lemma storage_ctx [simp]:
  "dm_of storage_ctx = \<lparr>dm_exclude = [''sda''], dm_scans = [], dm_writers = [], dm_stop = False, dm_running = True\<rparr>"
  "c_boot_disk storage_ctx = ''sda''" "the_state storage_ctx = the_state blank_ctx"
  "s_resumed (c_session storage_ctx) = s_resumed first_session"
  by (simp_all add: storage_ctx_def new_manager_def parent_disk_def)

lemma idle_candidate: "destructive_candidates (\<lambda>_. Some idle_tree) quiet_sys storage_ctx [small_disk] = Inr ([small_disk], [])"
proof -
  have "\<not> refused storage_ctx quiet_sys small_disk (False, False)"
    by (simp add: refused_def wipefs_def topology_def quiet_sys_def small_disk_def strip_def rstrip_def lstrip_def)
  then show ?thesis by (simp add: destructive_candidates_def candidate_step_def idle_use)
qed

theorem destructive_only_unused_witness:
  "destructive_candidates (\<lambda>_. Some idle_tree) quiet_sys storage_ctx [small_disk] = Inr ([small_disk], []) \<and>
   d_name small_disk \<noteq> c_boot_disk storage_ctx"
proof -
  have "dm_exclude (dm_of storage_ctx) = dm_exclude (new_manager quiet_sys (c_boot_disk storage_ctx) [])"
    by (simp add: new_manager_def parent_disk_def)
  from destructive_only_unused [OF idle_candidate _ this, of small_disk] idle_candidate show ?thesis by simp
qed

text \<open>The listing of block devices names the disk; every other answer is the idle tree.\<close>

definition write_sys :: sys where
  "write_sys = quiet_sys\<lparr>run_cmd := \<lambda>cmd. \<lparr>returncode = 0, stdout = (if cmd = LSBLK then ''list'' else []), stderr = []\<rparr>\<rparr>"

definition write_json :: "string \<Rightarrow> pyval option" where
  "write_json s = Some (if s = ''list'' then PDict [(''blockdevices'', PList [PDict [(''name'', PStr ''sdb''), (''type'', PStr ''disk''),
     (''size'', PInt 10), (''model'', PStr ''M''), (''serial'', PStr ''S1''), (''tran'', PStr ''sata'')]])] else idle_tree)"

lemma write_disks: "block_disks write_json write_sys [''sda''] = Inr [small_disk]"
  by code_simp

lemma write_candidate: "\<not> refused c write_sys small_disk (False, False) \<longleftrightarrow> c_boot_disk c \<noteq> [] \<and> ''sdb'' \<notin> set (dm_exclude (dm_of c))"
proof -
  have "wipefs write_sys small_disk = \<lparr>returncode = 0, stdout = [], stderr = []\<rparr>"
    "topology write_sys small_disk = \<lparr>returncode = 0, stdout = [], stderr = []\<rparr>" by code_simp+
  then show ?thesis by (auto simp: refused_def small_disk_def strip_def rstrip_def lstrip_def)
qed

lemma write_use: "disk_use write_json write_sys small_disk = Inr (False, False)"
proof -
  have "topology write_sys small_disk = \<lparr>returncode = 0, stdout = [], stderr = []\<rparr>" by code_simp
  then show ?thesis
    by (simp add: disk_use_def topology_nodes_def write_json_def idle_tree_def node_use_def busy.simps mounted_def held_def
        bad_children_def py_or_def dict_get_def write_sys_def quiet_sys_def)
qed

theorem write_tests_confirmed_witness:
  "\<exists>w \<in> set (dm_writers (dm_of (snd (start_scans write_json (\<lambda>_. None) (''t'', write_sys) [small_disk] storage_ctx)))).
     d_name (wv_disk w) \<in> d_name ` set [small_disk] \<and> safe_target write_json write_sys storage_ctx (wv_disk w)"
proof -
  let ?c = "snd (start_scans write_json (\<lambda>_. None) (''t'', write_sys) [small_disk] storage_ctx)"
  let ?w = "\<lparr>wv_disk = small_disk, wv_done = False\<rparr>"
  have "\<not> s_resumed first_session" by (simp add: first_session_def session_save_def Let_def make_session_def split: sum.split)
  then have "dm_writers (dm_of ?c) = [?w]"
    using write_candidate [of "put_scans f k storage_ctx" for f k] write_use
    by (simp add: start_scans_def write_disks start_disk_def Let_def new_entry_def destructive_candidates_def candidate_step_def
        write_refused_def)
  then have w: "?w \<in> set (dm_writers (dm_of ?c))" by simp
  show ?thesis by (rule bexI [OF _ w]) (use write_tests_confirmed [OF w] \<open>dm_writers (dm_of ?c) = [?w]\<close> in simp)
qed

definition scanning_ctx :: ctx where
  "scanning_ctx = put_dm (\<lambda>dm. dm\<lparr>dm_scans := [(new_scan small_disk 0)\<lparr>ss_offset := 4\<rparr>]\<rparr>)
     (put_state (\<lambda>st. st\<lparr>st_disk_scans := [(''S1'', new_entry [] small_disk)]\<rparr>) storage_ctx)"

lemma scanning_ctx [simp]:
  "dm_scans (dm_of scanning_ctx) = [(new_scan small_disk 0)\<lparr>ss_offset := 4\<rparr>]" "dm_writers (dm_of scanning_ctx) = []"
  "st_disk_scans (the_state scanning_ctx) = [(''S1'', new_entry [] small_disk)]"
  by (simp_all add: scanning_ctx_def)

theorem unfinished_disk_test_incomplete_witness:
  "badness (verdict (c_findings (dm_stop_all ''t'' (\<lambda>_. (None, [])) scanning_ctx)) False) \<ge> 2"
  by (rule unfinished_disk_test_incomplete) simp

theorem unreadable_sector_fails_witness:
  "verdict (c_findings (report_scan ''t'' (\<lambda>_. (None, [])) ((new_scan small_disk 0)\<lparr>ss_errors := [(4, ''EIO'')]\<rparr>) scanning_ctx)) False = FAILED"
  by (rule unreadable_sector_fails) simp

theorem scan_resumes_where_it_stopped_witness:
  "dm_scans (dm_of (snd (start_disk write_json (\<lambda>_. None) (''t'', write_sys) [] small_disk
     (save_progress ''t'' (\<lambda>_. (None, [])) scanning_ctx)))) =
   [(new_scan small_disk 0)\<lparr>ss_offset := 4\<rparr>, new_scan small_disk 4]"
  using scan_resumes_where_it_stopped [of "(new_scan small_disk 0)\<lparr>ss_offset := 4\<rparr>" scanning_ctx "new_entry [] small_disk"
      "save_progress ''t'' (\<lambda>_. (None, [])) scanning_ctx" "''t''" "\<lambda>_. (None, [])"]
  by (simp add: disk_id_def small_disk_def new_entry_def save_progress_def save_scan_def upd_entry_def)

end
