(* ===== verification/DiskFrame.thy ===== *)
theory DiskFrame
  imports Disks
begin

text \<open>
  The operations of the disk manager and of the session that the disk manager and the phases use
  keep the frame of \<open>Frame\<close>.
\<close>

section \<open>Session and events\<close>

lemma orchestration_eq: "orchestration c = (st_plan (the_state c), st_phases (the_state c), st_unexpected_reboots (the_state c), c_opts c)"
  by (simp add: orchestration_def the_state_def Let_def)

lemma put_request_frame [simp]:
  "c_reboot_request (put_dm f c) = c_reboot_request c" "c_reboot_request (put_state g c) = c_reboot_request c"
  "c_reboot_request (save_ctx c) = c_reboot_request c"
  by (simp_all add: put_dm_def put_state_def save_ctx_def)

lemma storable_put [simp]: "storable (put_dm f c) = storable c" "storable (put_state g c) = storable c"
  by (simp_all add: storable_def put_dm_def put_state_def)

lemma the_state_simps [simp]:
  "the_state (ctx_escalate_at t k c) = the_state c" 
  "the_state (put_seen g k v c) = (the_state c)\<lparr>st_counters :=
     AList.update (counter_key (c_boot_id c) g) (AList.update k v (counters_of (c_boot_id c) g (c_session c))) (st_counters (the_state c))\<rparr>"
  by (simp_all add: the_state_def put_seen_def put_counter_def ctx_session_def upd_state_def)

lemma keeps_dm [simp]: "keeps c (put_dm f c)"
  by (simp add: keeps_def keeps_evidence_def orchestration_eq)

lemma keeps_save [simp]: "keeps c (save_ctx c)"
  unfolding save_ctx_def by (rule keeps_session)

lemma keeps_state: "orchestration (put_state f c) = orchestration c \<Longrightarrow> keeps c (put_state f c)"
  by (simp add: keeps_def keeps_evidence_def)

lemma abort_state [simp]: "the_state (request_abort r c) =
    (if c_abort c then the_state c else (the_state c)\<lparr>st_abort_reason := Some r\<rparr>)"
  by (simp add: request_abort_def the_state_def session_update_def session_save_def upd_state_def Let_def split: sum.split)

lemma keeps_events: "\<forall>e \<in> set es. legal e \<Longrightarrow> keeps c (add_events now es c)"
proof (induction es arbitrary: c)
  case (Cons e es)
  then show ?case using keeps_trans [OF keeps_add [of e c now]] by simp
qed simp

lemma keeps_lift: "(\<And>a. v = Inr a \<Longrightarrow> keeps c (snd (f a c'))) \<Longrightarrow> keeps c c' \<Longrightarrow> keeps c (snd (lift_ex v f c'))"
  by (cases v) simp_all

lemma reboot_state [simp]: "the_state (request_reboot clk m c) =
    (the_state c)\<lparr>st_planned_reboot := Some \<lparr>pr_cycle = m, pr_requested_epoch = epoch clk, pr_requested_at = now_iso clk\<rparr>\<rparr>"
  by (simp add: request_reboot_def the_state_def session_update_def session_save_def upd_state_def Let_def split: sum.split)

section \<open>The disk manager\<close>

lemma keeps_put_selftest [simp]: "keeps c (put_selftest k r c)"
  unfolding put_selftest_def by (rule keeps_state) (simp add: orchestration_eq)

lemma keeps_put_scans [simp]: "keeps c (put_scans f k c)" "keeps c (upd_entry k g c)"
  by (auto simp: put_scans_def upd_entry_def orchestration_eq intro!: keeps_state split: option.split)

lemma baseline_device_keeps: "keeps c (snd (baseline_device json env dev c))"
proof -
  have "keeps c (add_events now (map before_test es) (put_state (\<lambda>st. st\<lparr>st_smart := f st\<rparr>) c))"
    if "evaluate_smart data label [] = Inr es" for now es f data label
  proof (rule keeps_trans [OF keeps_state keeps_events])
    show "\<forall>e \<in> set (map before_test es). legal e" using evaluate_legal [OF that] by (auto simp: before_test_def legal_def)
  qed (simp add: orchestration_eq)
  then show ?thesis unfolding baseline_device_def Let_def case_prod_beta
    by (auto intro!: keeps_lift keeps_state simp: orchestration_eq unreadable_event_def legal_def)
qed

lemma smart_baseline_keeps: "keeps c (snd (smart_baseline json env c))"
proof -
  have 1: "keeps c' (snd (for_each (\<lambda>d c. ok (if has_target devices d then c else ctx_add now (undiscovered_event d) c)) disks c'))"
    for c' devices now disks by (rule keeps_for_each) (simp add: undiscovered_event_def legal_def)
  have 2: "keeps c' (snd (andthen (for_each (baseline_device json env) devices c') (\<lambda>c. ok (save_ctx c))))" for c' devices
    by (rule keeps_andthen [OF keeps_for_each [OF baseline_device_keeps]]) (simp add: keeps_trans [OF _ keeps_save])
  show ?thesis unfolding smart_baseline_def case_prod_beta
    by (rule keeps_lift, rule keeps_lift, rule keeps_andthen [OF 1], rule keeps_trans [OF _ 2]) simp_all
qed

lemma start_selftests_keeps: "keeps c (start_selftests env b c)"
proof -
  have "keeps c' (start_selftest env kind p c')" for c' kind p
    by (auto simp: start_selftest_def Let_def not_started_event_def legal_def keeps_trans [OF keeps_put_selftest keeps_add] split: prod.split)
  from keeps_trans [OF keeps_fold [OF this] keeps_save] show ?thesis unfolding start_selftests_def .
qed

lemma wait_round_keeps: "wait_round json sy ks c = (r, rest, c') \<Longrightarrow> keeps c c'"
proof (induction json sy ks c arbitrary: r rest c' rule: wait_round.induct)
  case (2 json sy k ks c)
  then show ?case
    by (auto split: sum.splits bool.splits prod.splits intro: keeps_trans [OF keeps_put_selftest])
qed simp

lemma wait_selftests_keeps: "keeps c (snd (wait_selftests json rounds pending c))"
proof (induction rounds arbitrary: pending c)
  case (Cons sy rounds)
  obtain r rest c1 where w: "wait_round json sy pending c = (r, rest, c1)" by (cases "wait_round json sy pending c")
  have "keeps c (snd (wait_selftests json rounds rest (if rest = [] then c1 else c1\<lparr>c_status_note := t\<rparr>)))" for t
    using keeps_trans [OF keeps_trans [OF wait_round_keeps [OF w] keeps_same] Cons.IH] by simp
  with wait_round_keeps [OF w] show ?case by (cases r) (simp_all add: w)
qed simp

lemma judge_selftest_keeps: "keeps c (snd (judge_selftest now key info data c))"
proof -
  have "keeps c' (ctx_add now (unfinished_event key info) (put_selftest key r c'))" for r c'
    using keeps_trans [OF keeps_put_selftest keeps_add] by (simp add: unfinished_event_def legal_def)
  then show ?thesis unfolding judge_selftest_def Let_def
    by (intro keeps_lift) (auto intro: keeps_trans [OF keeps_put_selftest] keeps_put_selftest keeps_trans [OF keeps_put_selftest keeps_put_selftest])
qed

lemma final_device_keeps: "keeps c (snd (final_device json env p c))"
proof -
  let ?c1 = "\<lambda>b now k info. if b then ctx_add now (final_missing_event k info) c else c"
  have 1: "keeps c (?c1 b now k info)" for b now k info by (simp add: final_missing_event_def legal_def)
  have k: "keeps c (snd (lift_ex (evaluate_smart data l m) (\<lambda>es c. judge_selftest now k info data (add_events now es c)) (?c1 b now k info)))"
    for data l m now k info b
  proof (rule keeps_lift [OF _ 1])
    fix es assume "evaluate_smart data l m = Inr es"
    then show "keeps c (snd (judge_selftest now k info data (add_events now es (?c1 b now k info))))"
      using evaluate_legal by (intro keeps_trans [OF keeps_trans [OF 1 keeps_events] judge_selftest_keeps]) blast
  qed
  show ?thesis unfolding final_device_def Let_def case_prod_beta by (rule keeps_lift, rule k, rule keeps_refl)
qed

lemma smart_final_keeps: "keeps c (snd (smart_final json rounds env c))"
  unfolding smart_final_def
proof (rule keeps_andthen [OF wait_selftests_keeps])
  fix c' assume "keeps c c'"
  then show "keeps c (snd (andthen (for_each (final_device json env) (st_smart (the_state c')) c') (\<lambda>c. ok (save_ctx c))))"
    by (rule keeps_trans, intro keeps_andthen keeps_for_each final_device_keeps) (simp add: keeps_trans [OF _ keeps_save])
qed

lemma keeps_dm_after: "keeps c c' \<Longrightarrow> keeps c (put_dm f c')"
  by (rule keeps_trans [OF _ keeps_dm])

lemma writer_finished_keeps: "writer_finished now poll w c = (b, w', c') \<Longrightarrow> keeps c c'"
  by (auto simp: writer_finished_def split: if_splits option.splits)

lemma all_finished_keeps: "all_finished now procs ws c = (b, ws', c') \<Longrightarrow> keeps c c'"
proof (induction ws arbitrary: c b ws' c')
  case (Cons w ws)
  then show ?case using writer_finished_keeps [of now "writer_poll procs w" w c]
    by (fastforce split: prod.splits bool.splits intro: keeps_trans)
qed simp

lemma all_done_keeps: "keeps c (snd (all_done now procs c))"
  using all_finished_keeps by (auto simp: all_done_def intro: keeps_dm_after split: prod.split)

lemma save_writers_keeps: "save_writers now procs ws c = (ws', c') \<Longrightarrow> keeps c c'"
proof (induction ws arbitrary: c ws' c')
  case (Cons w ws)
  obtain b w' c1 where f: "writer_finished now (writer_poll procs w) w c = (b, w', c1)" by (cases "writer_finished now (writer_poll procs w) w c")
  have "keeps c (upd_entry k g c1)" for k g by (rule keeps_trans [OF writer_finished_keeps [OF f] keeps_put_scans(2)])
  from Cons.IH [of c] Cons.IH keeps_trans [OF this] Cons.prems show ?case
    by (fastforce simp: f Let_def split: prod.splits if_splits)
qed simp

lemma save_progress_keeps [simp]: "keeps c (save_progress now procs c)"
proof -
  have "keeps c (fold save_scan ss c)" for ss by (rule keeps_fold) (simp add: save_scan_def)
  from keeps_trans [OF this save_writers_keeps] show ?thesis unfolding save_progress_def
    by (auto split: prod.split intro: keeps_dm_after)
qed

lemma stop_writers_keeps: "stop_writers now procs ws c = (ws', c') \<Longrightarrow> keeps c c'"
proof (induction ws arbitrary: c ws' c')
  case (Cons w ws)
  obtain b w' c1 where f: "writer_finished now (writer_poll procs w) w c = (b, w', c1)" by (cases "writer_finished now (writer_poll procs w) w c")
  let ?c2 = "if b then c1 else ctx_add now (writer_unfinished_event (wv_disk w)) (upd_entry (disk_id (wv_disk w)) (\<lambda>e. e\<lparr>sc_incomplete := True\<rparr>) c1)"
  obtain ws2 c3 where r: "stop_writers now procs ws ?c2 = (ws2, c3)" by (cases "stop_writers now procs ws ?c2")
  have "keeps c1 ?c2" using keeps_trans [OF keeps_put_scans(2) keeps_add] by simp
  with writer_finished_keeps [OF f] Cons.IH [OF r] have "keeps c c3" by (blast intro: keeps_trans)
  with Cons.prems r show ?case by (simp add: f)
qed simp

lemma dm_stop_all_keeps: "keeps c (dm_stop_all now procs c)"
proof -
  let ?c1 = "put_dm (\<lambda>dm. dm\<lparr>dm_stop := True, dm_running := True\<rparr>) c"
  obtain ws c2 where w: "stop_writers now procs (dm_writers (dm_of ?c1)) ?c1 = (ws, c2)"
    by (cases "stop_writers now procs (dm_writers (dm_of ?c1)) ?c1")
  let ?c3 = "put_dm (\<lambda>dm. dm\<lparr>dm_writers := ws\<rparr>) c2"
  have "keeps c ?c3" by (rule keeps_trans [OF keeps_trans [OF keeps_dm stop_writers_keeps [OF w]] keeps_dm])
  moreover have "keeps ?c3 (fold (\<lambda>s c. if ss_done s then c else ctx_add now (scan_partial_event s) c) (dm_scans (dm_of ?c3)) ?c3)"
    by (rule keeps_fold) simp
  ultimately show ?thesis unfolding dm_stop_all_def Let_def w case_prod_conv by (meson keeps_trans save_progress_keeps)
qed

lemma start_disk_keeps: "keeps c (snd (start_disk json spawn env names d c))"
proof -
  have 1: "keeps c (put_scans f k c)" "keeps c (put_dm g (put_scans f k c))" "keeps c (ctx_add now (unsafe_event d) (put_scans f k c))" for f g k now
    using keeps_trans [OF keeps_put_scans(1) keeps_dm] keeps_trans [OF keeps_put_scans(1) keeps_add] by simp_all
  then show ?thesis unfolding start_disk_def Let_def case_prod_beta
    by (auto intro!: keeps_lift split: option.split)
qed

lemma start_scans_keeps: "keeps c (snd (start_scans json spawn env chosen c))"
  unfolding start_scans_def
  by (rule keeps_lift [OF keeps_andthen [OF keeps_for_each [OF start_disk_keeps]] keeps_refl]) (simp add: keeps_trans [OF _ keeps_save])

end
