(* ===== verification/Inventory.thy ===== *)
theory Inventory
  imports Kmsg DiskFrame
begin

text \<open>
  Models \<open>inventory.py\<close>: the parsers for dmidecode and lspci output, the static checks of
  memory, processors, PCIe links, the clock and the kernel's taint flags, and the crash logs.  A
  check that only reads and reports is the list of events it reports, in order.  Of the summary
  for the report only the two lists that decide on findings are modelled.
\<close>

section \<open>Collecting raw data\<close>

definition RAW_COMMANDS :: "(string \<times> string list) list" where
  "RAW_COMMANDS = [(''dmidecode.txt'', [''dmidecode'']), (''lscpu.txt'', [''lscpu'']),
     (''lscpu-extended.txt'', [''lscpu'', ''-e'']), (''cpuinfo.txt'', [''cat'', ''/proc/cpuinfo'']),
     (''lspci-vvv.txt'', [''lspci'', ''-vvv'', ''-nn'']), (''lspci-tree.txt'', [''lspci'', ''-tv'']),
     (''lsblk.json'', [''lsblk'', ''-O'', ''-J'']), (''lsusb.txt'', [''lsusb'', ''-t'']),
     (''lshw.json'', [''lshw'', ''-json'', ''-quiet'']), (''numa.txt'', [''numactl'', ''-H'']),
     (''sensors.txt'', [''sensors'']), (''ip-link.txt'', [''ip'', ''-d'', ''-s'', ''link'']),
     (''ip-addr.txt'', [''ip'', ''addr'']), (''nvme-list.txt'', [''nvme'', ''list'']),
     (''smart-scan.txt'', [''smartctl'', ''--scan-open'']), (''edac.txt'', [''edac-util'', ''-v'', ''--report=full'']),
     (''ras-layout.txt'', [''ras-mc-ctl'', ''--layout'']), (''cpuidle.txt'', [''cpupower'', ''idle-info'']),
     (''cpufreq.txt'', [''cpupower'', ''frequency-info'']), (''efibootmgr.txt'', [''efibootmgr'', ''-v'']),
     (''cmdline.txt'', [''cat'', ''/proc/cmdline'']), (''uname.txt'', [''uname'', ''-a'']),
     (''modules.txt'', [''lsmod'']), (''ipmi-mc-info.txt'', [''ipmitool'', ''mc'', ''info'']),
     (''ipmi-fru.txt'', [''ipmitool'', ''fru'', ''print'']), (''ipmi-sdr.txt'', [''ipmitool'', ''sdr'', ''elist'']),
     (''ipmi-sel.txt'', [''ipmitool'', ''sel'', ''elist'']), (''ipmi-lan.txt'', [''ipmitool'', ''lan'', ''print'']),
     (''dmesg-boot.txt'', [''dmesg'', ''-T''])]"

text \<open>\<open>have\<close> is \<open>shutil.which\<close>; the files of the inventory directory are a dictionary.\<close>

definition raw_text :: "cmd_result \<Rightarrow> string" where
  "raw_text res = stdout res @ (if returncode res \<noteq> 0 \<and> stderr res \<noteq> []
     then newline @ ''# exit '' @ int_str (returncode res) @ '': '' @ stderr res else [])"

definition ethtool_text :: "sys \<Rightarrow> string \<Rightarrow> string" where
  "ethtool_text sy nic = concat (map (\<lambda>args. ''$ '' @ join '' '' args @ newline @ stdout (run_cmd sy args) @ newline)
     [[''ethtool'', nic], [''ethtool'', ''-i'', nic], [''ethtool'', ''-m'', nic], [''ethtool'', ''-S'', nic]])"

definition collect_raw :: "sys \<Rightarrow> (string \<Rightarrow> bool) \<Rightarrow> (string, string) dict \<Rightarrow> (string, string) dict" where
  "collect_raw sy have old =
    (let have_ipmi = glob sy ''/dev/ipmi*'' \<noteq> [];
         wanted = filter (\<lambda>(f, cmd). \<not> (hd cmd = ''ipmitool'' \<and> \<not> have_ipmi) \<and> have (hd cmd)) RAW_COMMANDS;
         nics = sort (map (\<lambda>p. basename (dirname p)) (glob sy ''/sys/class/net/*/device''))
     in fold (\<lambda>nic. AList.update (''ethtool-'' @ nic @ ''.txt'') (ethtool_text sy nic)) nics
       (fold (\<lambda>(f, cmd). AList.update f (raw_text (run_cmd sy cmd))) wanted old))"

section \<open>Parsing dmidecode\<close>

type_synonym fields = "(string, string) dict"

definition tab :: string where
  "tab = [CHR 0x09]"

definition BLOCK_RE :: regex where
  "BLOCK_RE = re_compile no_flags (raw ''`n`s*`n'')"

definition dmi_field :: "string \<Rightarrow> fields \<Rightarrow> fields" where
  "dmi_field line d = (if CHR '':'' \<in> set line \<and> startswith line tab \<and> \<not> startswith line (tab @ tab)
     then (case split1 (CHR '':'') (strip line) of (k, v) \<Rightarrow> AList.update (strip k) (strip (the_default [] v)) d)
     else d)"

definition dmi_block :: "string \<Rightarrow> (string \<times> fields) list" where
  "dmi_block block = (case splitlines (strip_char (CHR 0x0A) block) of
     handle # name # rest \<Rightarrow> if startswith handle ''Handle'' then [(strip name, fold dmi_field rest [])] else []
   | _ \<Rightarrow> [])"

definition parse_dmidecode :: "string \<Rightarrow> (string \<times> fields) list" where
  "parse_dmidecode text = concat (map dmi_block (re_split BLOCK_RE text))"

definition SIZE_RE :: regex where
  "SIZE_RE = re_compile no_flags (raw ''(`d+)`s*(KB|MB|GB|TB|kB)'')"

definition unit_bytes :: "string \<Rightarrow> int" where
  "unit_bytes u = dict_get [(''KB'', 2 ^ 10), (''kB'', 2 ^ 10), (''MB'', 2 ^ 20), (''GB'', 2 ^ 30), (''TB'', 2 ^ 40)] u 0"

definition parse_size :: "string \<Rightarrow> int" where
  "parse_size text = (case re_match_start SIZE_RE text of None \<Rightarrow> 0
     | Some m \<Rightarrow> digits_value (the_default [] (m_group m 1)) * unit_bytes (the_default [] (m_group m 2)))"

definition SPEED_RE :: regex where
  "SPEED_RE = re_compile no_flags (raw ''(`d+)'')"

definition parse_speed :: "string \<Rightarrow> int" where
  "parse_speed text = (case re_match_start SPEED_RE text of None \<Rightarrow> 0
     | Some m \<Rightarrow> digits_value (the_default [] (m_group m 1)))"

record dimm =
  di_locator :: string
  di_bank :: string
  di_size :: int
  di_type :: string
  di_speed :: int
  di_configured_speed :: int
  di_manufacturer :: string
  di_part :: string
  di_serial :: string
  di_rank :: string

definition dimm_of :: "fields \<Rightarrow> dimm" where
  "dimm_of f = (let g = (\<lambda>k. dict_get f k []) in
     \<lparr>di_locator = g ''Locator'', di_bank = g ''Bank Locator'', di_size = parse_size (g ''Size''),
      di_type = g ''Type'', di_speed = parse_speed (g ''Speed''),
      di_configured_speed = parse_speed (dict_get f ''Configured Memory Speed'' (g ''Configured Clock Speed'')),
      di_manufacturer = g ''Manufacturer'', di_part = strip (g ''Part Number''),
      di_serial = g ''Serial Number'', di_rank = g ''Rank''\<rparr>)"

definition dimms_from_dmi :: "(string \<times> fields) list \<Rightarrow> dimm list" where
  "dimms_from_dmi records = filter (\<lambda>d. di_size d \<noteq> 0)
     (map (\<lambda>r. dimm_of (snd r)) (filter (\<lambda>r. fst r = ''Memory Device'') records))"

section \<open>Memory\<close>

definition no_dimms_event :: event where
  "no_dimms_event = event ''dmi-no-dimms'' INFO ''Memory'' ''Firmware (SMBIOS) does not list memory modules''"

definition memory_missing_event :: "int \<Rightarrow> int \<Rightarrow> event" where
  "memory_missing_event total_mem installed = (event ''memory-missing'' FAIL ''Memory''
     (''Only '' @ fmt_int_bytes total_mem @ '' usable of '' @ fmt_int_bytes installed @ '' installed memory''))
     \<lparr>ev_detail := ''The OS sees much less memory than the modules listed by firmware. A DIMM or a memory channel was probably disabled during POST (training failure), or memory is mapped out.'',
      ev_recommendation := ''Check BIOS/BMC POST messages, reseat or swap DIMMs to find the failing module/slot.''\<rparr>"

definition memory_missing :: "int \<Rightarrow> int \<Rightarrow> bool" where
  "memory_missing total_mem installed \<longleftrightarrow> total_mem \<noteq> 0 \<and> installed \<noteq> 0 \<and>
     of_int total_mem < fl (fl (of_int installed) * fl (85 / 100))"

definition part_numbers :: "dimm list \<Rightarrow> string list" where
  "part_numbers dimms = sort (remdups (filter (\<lambda>p. p \<noteq> [] \<and> py_lower p \<notin> {''unknown'', ''not specified''}) (map di_part dimms)))"

definition memory_mixed_event :: "string list \<Rightarrow> event" where
  "memory_mixed_event parts = (event ''memory-mixed'' WARN ''Memory''
     (''Mixed memory module part numbers ('' @ nat_str (length parts) @ '' different)''))
     \<lparr>ev_detail := ''Mixed DIMMs are a common source of marginal memory stability.'',
      ev_recommendation := ''Use identical, vendor-qualified DIMMs (same part number) in a system.'',
      ev_evidence := parts\<rparr>"

definition memory_sizes_event :: "dimm list \<Rightarrow> event" where
  "memory_sizes_event dimms = (event ''memory-mixed-size'' WARN ''Memory'' ''Memory modules of different sizes installed'')
     \<lparr>ev_evidence := map (\<lambda>d. di_locator d @ '': '' @ fmt_int_bytes (di_size d)) dimms\<rparr>"

definition slow_dimms :: "dimm list \<Rightarrow> dimm list" where
  "slow_dimms dimms = filter (\<lambda>d. di_speed d \<noteq> 0 \<and> di_configured_speed d \<noteq> 0 \<and> di_configured_speed d < di_speed d) dimms"

definition memory_speed_event :: "dimm list \<Rightarrow> event" where
  "memory_speed_event slow = (event ''memory-speed'' INFO ''Memory'' ''Memory runs below its rated speed'')
     \<lparr>ev_detail := ''Normal for some population rules/CPUs; confirm it matches the platform's expected speed.'',
      ev_evidence := map (\<lambda>d. di_locator d @ '': rated '' @ int_str (di_speed d) @ '' MT/s, configured '' @
        int_str (di_configured_speed d) @ '' MT/s'') (take 16 slow)\<rparr>"

definition ecc_types :: "(string \<times> fields) list \<Rightarrow> string list" where
  "ecc_types records = map (\<lambda>r. dict_get (snd r) ''Error Correction Type'' [])
     (filter (\<lambda>r. fst r = ''Physical Memory Array'') records)"

definition non_ecc_event :: event where
  "non_ecc_event = (event ''memory-non-ecc'' INFO ''Memory'' ''Memory is not ECC'')
     \<lparr>ev_detail := ''Without ECC, memory errors cannot be observed directly; detection relies on the stress tests' data verification. ECC memory is strongly recommended for production servers.''\<rparr>"

definition edac_missing_event :: event where
  "edac_missing_event = (event ''edac-missing'' WARN ''Memory'' ''ECC memory present but no EDAC driver is active'')
     \<lparr>ev_detail := ''Corrected memory errors will only be visible through machine checks or the BMC event log (firmware-first platforms). Per-DIMM error counts are unavailable.'',
      ev_recommendation := ''Check the BMC SEL after the test; enable OS error reporting in BIOS if available.''\<rparr>"

definition ecc_events :: "sys \<Rightarrow> string list \<Rightarrow> event list" where
  "ecc_events sy ecc = (if ecc \<noteq> [] \<and> (\<forall>e \<in> set ecc. e \<in> {''None'', []}) then [non_ecc_event]
     else if ecc \<noteq> [] \<and> glob sy ''/sys/devices/system/edac/mc/mc[0-9]*'' = [] then [edac_missing_event] else [])"

definition memory_events :: "sys \<Rightarrow> (string \<times> fields) list \<Rightarrow> event list" where
  "memory_events sy records = (let dimms = dimms_from_dmi records in
     if dimms = [] then [no_dimms_event]
     else let installed = sum_list (map di_size dimms); total_mem = dict_get (meminfo sy) ''MemTotal'' 0;
              parts = part_numbers dimms; slow = slow_dimms dimms
       in (if memory_missing total_mem installed then [memory_missing_event total_mem installed] else []) @
          (if length parts > 1 then [memory_mixed_event parts] else []) @
          (if length (remdups (map di_size dimms)) > 1 then [memory_sizes_event dimms] else []) @
          (if slow \<noteq> [] then [memory_speed_event slow] else []) @
          ecc_events sy (ecc_types records))"

definition check_memory :: "string \<times> sys \<Rightarrow> (string \<times> fields) list \<Rightarrow> ctx \<Rightarrow> dimm list \<times> ctx" where
  "check_memory env records c = (dimms_from_dmi records, add_events (fst env) (memory_events (snd env) records) c)"

section \<open>Processors\<close>

text \<open>\<open>int(f.get("Thread Count", "0") or 0)\<close>.\<close>

definition thread_count :: "fields \<Rightarrow> exn + int" where
  "thread_count f = (let t = dict_get f ''Thread Count'' ''0'' in if t = [] then Inr 0 else
     (case py_int t of Some n \<Rightarrow> Inr n | None \<Rightarrow> Inl (ValueError (''invalid literal for int() with base 10: '' @ t))))"

definition socket_event :: "string \<Rightarrow> string \<Rightarrow> event" where
  "socket_event designation status = (event (''cpu-socket:'' @ designation)
     (if str_in ''POST Error'' status then FAIL else WARN) ''CPU''
     (''CPU in '' @ designation @ '' is not enabled ('' @ status @ '')''))
     \<lparr>ev_recommendation := ''Check BIOS settings and POST log; reseat or replace the CPU.''\<rparr>"

definition socket_status :: "fields \<Rightarrow> string" where
  "socket_status f = dict_get f ''Status'' []"

text \<open>One round of the loop over the sockets; the counter of expected threads is the state.\<close>

fun cpu_sockets :: "string \<Rightarrow> fields list \<Rightarrow> int \<Rightarrow> ctx \<Rightarrow> (exn + int) \<times> ctx" where
  "cpu_sockets now [] threads c = (Inr threads, c)"
| "cpu_sockets now (f # fs) threads c =
    (let c1 = (if str_in ''Populated'' (socket_status f) \<and> \<not> str_in ''Enabled'' (socket_status f)
               then ctx_add now (socket_event (dict_get f ''Socket Designation'' ''?'') (socket_status f)) c else c)
     in if str_in ''Enabled'' (socket_status f)
        then (case thread_count f of Inl e \<Rightarrow> (Inl e, c1) | Inr n \<Rightarrow> cpu_sockets now fs (threads + n) c1)
        else cpu_sockets now fs threads c1)"

definition offline_event :: "string \<Rightarrow> event" where
  "offline_event offline = event ''cpu-offline'' WARN ''CPU'' (''Some logical CPUs are offline: '' @ offline)"

definition cpu_count_event :: "int \<Rightarrow> int \<Rightarrow> event" where
  "cpu_count_event online expected = (event ''cpu-count'' WARN ''CPU''
     (''OS sees '' @ int_str online @ '' logical CPUs but firmware reports '' @ int_str expected @ '' threads''))
     \<lparr>ev_detail := ''Cores or SMT may be disabled in BIOS, or a CPU/core failed to initialize.'',
      ev_recommendation := ''Verify BIOS core/SMT settings match the production configuration.''\<rparr>"

definition check_cpus :: "string \<times> sys \<Rightarrow> (string \<times> fields) list \<Rightarrow> ctx \<Rightarrow> outcome" where
  "check_cpus env records c = (case env of (now, sy) \<Rightarrow>
     (case cpu_sockets now (map snd (filter (\<lambda>r. fst r = ''Processor Information'') records)) 0 c of
       (Inl e, c1) \<Rightarrow> raise e c1
     | (Inr expected, c1) \<Rightarrow>
         (let online = int (length (glob sy ''/sys/devices/system/cpu/cpu[0-9]*''));
              offline = strip (read_file sy ''/sys/devices/system/cpu/offline'')
          in ok (add_events now ((if offline \<noteq> [] then [offline_event offline] else []) @
               (if expected \<noteq> 0 \<and> online < expected then [cpu_count_event online expected] else [])) c1))))"

section \<open>PCIe links\<close>

definition LNK :: string where
  "LNK = raw ''Speed ([`d.]+)GT/s[^,]*, Width x(`d+)''"

definition LINK_SPLIT_RE :: regex where
  "LINK_SPLIT_RE = re_compile no_flags
     (raw ''`n(?=[0-9a-f]{2,4}:[0-9a-f]{2}:[0-9a-f]{2}`.[0-7] |[0-9a-f]{2}:[0-9a-f]{2}`.[0-7] )'')"

definition LINK_HEADER_RE :: regex where
  "LINK_HEADER_RE = re_compile no_flags (raw ''((?:[0-9a-f]{4}:)?[0-9a-f]{2}:[0-9a-f]{2}`.[0-7]) (.*)'')"

definition LNKCAP_PORT_RE :: regex where
  "LNKCAP_PORT_RE = re_compile no_flags (raw ''LnkCap:`s+Port #`d+, '' @ LNK)"

definition LNKCAP_RE :: regex where
  "LNKCAP_RE = re_compile no_flags (''LnkCap:.*?'' @ LNK)"

definition LNKSTA_RE :: regex where
  "LNKSTA_RE = re_compile no_flags (raw ''LnkSta:`s+'' @ LNK)"

definition BRIDGE_RE :: regex where
  "BRIDGE_RE = re_compile no_flags ''PCI bridge|Root Port|Upstream|Downstream|Switch''"

definition link_speed :: "re_match \<Rightarrow> exn + pyfloat" where
  "link_speed m = (let t = the_default [] (m_group m 1) in case py_float t of Some x \<Rightarrow> Inr x
     | None \<Rightarrow> Inl (ValueError (''could not convert string to float: '' @ t)))"

definition link_width :: "re_match \<Rightarrow> int" where
  "link_width m = digits_value (the_default [] (m_group m 2))"

definition link_block :: "string \<Rightarrow> (string, pcie_link) dict \<Rightarrow> exn + (string, pcie_link) dict" where
  "link_block block links = (let header = fst (split1 (CHR 0x0A) block) in
     case re_match_start LINK_HEADER_RE header of None \<Rightarrow> Inr links
     | Some m \<Rightarrow>
       (case (case re_search LNKCAP_PORT_RE block of Some x \<Rightarrow> Some x | None \<Rightarrow> re_search LNKCAP_RE block,
              re_search LNKSTA_RE block) of
         (Some cap, Some sta) \<Rightarrow> ebind (link_speed cap) (\<lambda>cs. ebind (link_speed sta) (\<lambda>ss.
           Inr (AList.update (the_default [] (m_group m 1))
             \<lparr>ln_name = the_default [] (m_group m 2), ln_cap_speed = cs, ln_cap_width = link_width cap,
              ln_sta_speed = ss, ln_sta_width = link_width sta, ln_bridge = re_found BRIDGE_RE header\<rparr> links)))
       | _ \<Rightarrow> Inr links))"

definition parse_pcie_links :: "string \<Rightarrow> exn + (string, pcie_link) dict" where
  "parse_pcie_links text = efold link_block (re_split LINK_SPLIT_RE text) []"

definition pcie_missing_event :: "string \<Rightarrow> pcie_link \<Rightarrow> event" where
  "pcie_missing_event bdf l = (event (''pcie-missing:'' @ bdf) FAIL ''PCIe''
     (''PCIe device disappeared during the test: '' @ bdf @ '' '' @ ln_name l))\<lparr>ev_recommendation := REC_PCIE\<rparr>"

definition width_drop_event :: "string \<Rightarrow> pcie_link \<Rightarrow> pcie_link \<Rightarrow> event" where
  "width_drop_event bdf b l = (event (''pcie-width-drop:'' @ bdf) FAIL ''PCIe''
     (''PCIe link width dropped during the test on '' @ bdf @ '' '' @ ln_name l))
     \<lparr>ev_recommendation := REC_PCIE,
      ev_evidence := [''x'' @ int_str (ln_sta_width b) @ '' -> x'' @ int_str (ln_sta_width l)]\<rparr>"

definition speed_drop_event :: "string \<Rightarrow> pcie_link \<Rightarrow> pcie_link \<Rightarrow> event" where
  "speed_drop_event bdf b l = (event (''pcie-speed-drop:'' @ bdf) WARN ''PCIe''
     (''PCIe link speed dropped during the test on '' @ bdf @ '' '' @ ln_name l))
     \<lparr>ev_detail := ''Some devices (GPUs) lower link speed when idle; storage/network devices should not.'',
      ev_recommendation := REC_PCIE,
      ev_evidence := [float_repr (ln_sta_speed b) @ ''GT/s -> '' @ float_repr (ln_sta_speed l) @ ''GT/s'']\<rparr>"

definition narrow_event :: "string \<Rightarrow> pcie_link \<Rightarrow> event" where
  "narrow_event bdf l = (event (''pcie-width:'' @ bdf) WARN ''PCIe''
     (''PCIe link degraded: '' @ bdf @ '' '' @ ln_name l @ '' runs x'' @ int_str (ln_sta_width l) @
      '' (capable x'' @ int_str (ln_cap_width l) @ '')''))
     \<lparr>ev_detail := ''Expected if the slot is electrically narrower than the card; otherwise a bad seat, riser or slot.'',
      ev_recommendation := REC_PCIE\<rparr>"

definition slow_link_event :: "string \<Rightarrow> pcie_link \<Rightarrow> event" where
  "slow_link_event bdf l = (event (''pcie-speed:'' @ bdf) INFO ''PCIe''
     (''PCIe link below max speed: '' @ bdf @ '' '' @ ln_name l @ '' at '' @ float_repr (ln_sta_speed l) @
      ''GT/s (capable '' @ float_repr (ln_cap_speed l) @ ''GT/s)''))
     \<lparr>ev_detail := ''Can be power management or platform limits; a consistent downgrade under load indicates signal integrity problems.''\<rparr>"

text \<open>The loop over the baseline, then the loop over the links; no baseline is the empty one.\<close>

definition missing_link :: "(string, pcie_link) dict \<Rightarrow> string \<times> pcie_link \<Rightarrow> event list" where
  "missing_link links = (\<lambda>(bdf, l). if map_of links bdf = None \<and> \<not> ln_bridge l then [pcie_missing_event bdf l] else [])"

definition link_events :: "(string, pcie_link) dict \<Rightarrow> string \<times> pcie_link \<Rightarrow> event list" where
  "link_events baseline = (\<lambda>(bdf, l).
     if ln_bridge l \<or> ln_sta_width l = 0 then []
     else (case map_of baseline bdf of
       Some b \<Rightarrow> if ln_sta_width l < ln_sta_width b then [width_drop_event bdf b l]
                 else if pf_less (ln_sta_speed l) (ln_sta_speed b) then [speed_drop_event bdf b l] else []
     | None \<Rightarrow> if ln_sta_width l < ln_cap_width l then [narrow_event bdf l]
               else if pf_less (ln_sta_speed l) (ln_cap_speed l) then [slow_link_event bdf l] else []))"

definition pcie_events :: "(string, pcie_link) dict \<Rightarrow> (string, pcie_link) dict \<Rightarrow> event list" where
  "pcie_events links baseline = concat (map (missing_link links) baseline) @ concat (map (link_events baseline) links)"

definition check_pcie_links :: "string \<Rightarrow> (string, pcie_link) dict \<Rightarrow> (string, pcie_link) dict \<Rightarrow> ctx \<Rightarrow> ctx" where
  "check_pcie_links now links baseline c = add_events now (pcie_events links baseline) c"

section \<open>Clock and taint flags\<close>

definition BUILD_PREFIX :: string where
  "BUILD_PREFIX = ''PCCHECK_BUILD_EPOCH=''"

definition build_line :: "string \<Rightarrow> int \<Rightarrow> exn + int" where
  "build_line line build = (if \<not> startswith line BUILD_PREFIX then Inr build
     else (let v = the_default [] (snd (split1 (CHR ''='') line)) in if v = [] then Inr 0
       else (case py_int v of Some n \<Rightarrow> Inr n | None \<Rightarrow> Inl (ValueError (''invalid literal for int() with base 10: '' @ v)))))"

definition rtc_event :: event where
  "rtc_event = (event ''rtc-clock'' WARN ''Board'' ''Hardware clock (RTC) is earlier than the PC-Check build date'')
     \<lparr>ev_detail := ''The CMOS battery may be depleted or the clock was never set.'',
      ev_recommendation := ''Replace the CMOS battery if the time is lost after power removal; set the clock.''\<rparr>"

definition check_rtc :: "string \<times> sys \<Rightarrow> ctx \<Rightarrow> outcome" where
  "check_rtc env c = (case env of (now, sy) \<Rightarrow>
     (let rtc = read_int sy ''/sys/class/rtc/rtc0/since_epoch'' 0 in
      lift_ex (efold build_line (splitlines (read_file sy ''/etc/pccheck-release'')) 0) (\<lambda>build c.
        ok (if rtc \<noteq> 0 \<and> build \<noteq> 0 \<and> rtc < build - 86400 then ctx_add now rtc_event c else c)) c))"

definition TAINT_FLAGS :: "(nat \<times> string \<times> string \<times> string) list" where
  "TAINT_FLAGS = [(4, ''mce'', ''CPU/Memory'', ''a machine check exception''), (5, ''badpage'', ''Memory'', ''a bad memory page'')]"

definition taint_boot_event :: "string \<Rightarrow> string \<Rightarrow> string \<Rightarrow> event" where
  "taint_boot_event key compo text' = event (''taint-'' @ key @ ''-boot'') WARN compo
     (''Kernel flagged '' @ text' @ '' before the test started'')"

definition taint_event :: "string \<Rightarrow> string \<Rightarrow> string \<Rightarrow> event" where
  "taint_event key compo text' = event (''taint-'' @ key) FAIL compo (''Kernel flagged '' @ text' @ '' during the test'')"

definition taint_flag :: "int \<Rightarrow> int option \<Rightarrow> nat \<times> string \<times> string \<times> string \<Rightarrow> event list" where
  "taint_flag taint start = (\<lambda>(b, key, compo, text').
     if \<not> bit taint b then []
     else (case start of
       None \<Rightarrow> [taint_boot_event key compo text']
     | Some s \<Rightarrow> if \<not> bit s b then [taint_event key compo text'] else []))"

definition taint_value :: "sys \<Rightarrow> int" where
  "taint_value sy = read_int sy ''/proc/sys/kernel/tainted'' 0"

definition check_taint :: "string \<times> sys \<Rightarrow> int option \<Rightarrow> ctx \<Rightarrow> int \<times> ctx" where
  "check_taint env start c = (case env of (now, sy) \<Rightarrow>
     (taint_value sy, add_events now (concat (map (taint_flag (taint_value sy) start) TAINT_FLAGS)) c))"

section \<open>Crash logs\<close>

definition PSTORE_RE :: regex where
  "PSTORE_RE = re_compile no_flags (raw ''(Kernel panic - not syncing: [^`n]*|Machine check[^`n]*|BUG: [^`n]*|watchdog: [^`n]*|general protection fault[^`n]*)'')"

definition crash_reasons :: "string \<Rightarrow> string list" where
  "crash_reasons text' = sort (remdups (map (\<lambda>m. the_default [] (m_group m 1)) (re_findall PSTORE_RE text')))"

definition crash_evidence :: "string list \<Rightarrow> string list \<Rightarrow> string list" where
  "crash_evidence reasons kept = take 10 reasons @ map (\<lambda>p. ''saved: '' @ basename p) (take 10 kept)"

definition crash_event :: "string list \<Rightarrow> event" where
  "crash_event ev = (event ''pstore-crash'' FAIL ''System'' ''Kernel crash log recovered from the reset (pstore)'')
     \<lparr>ev_detail := ''The kernel saved its last messages before the machine reset.'', ev_evidence := ev\<rparr>"

definition historic_crash_event :: "string list \<Rightarrow> event" where
  "historic_crash_event ev = (event ''pstore-historic'' WARN ''System''
     ''Kernel crash logs from before this test were found in firmware storage (pstore)'')
     \<lparr>ev_detail := ''This machine crashed at some point before PC-Check started.'', ev_evidence := ev\<rparr>"

text \<open>
  \<open>copied path\<close>: whether \<open>shutil.copyfile\<close> succeeds for the crash record.  The result is the
  copies and the records that are then removed from the firmware (a failing \<open>os.unlink\<close> is only
  logged).
\<close>

record pstore_result =
  ps_saved :: "string list"
  ps_removed :: "string list"

definition collect_pstore :: "string \<times> sys \<Rightarrow> (string \<Rightarrow> bool) \<Rightarrow> string \<Rightarrow> bool \<Rightarrow> ctx \<Rightarrow> pstore_result \<times> ctx" where
  "collect_pstore env copied dest persistent c = (case env of (now, sy) \<Rightarrow>
     (let entries = sort (glob sy ''/sys/fs/pstore/*'') in
      if entries = [] then (\<lparr>ps_saved = [], ps_removed = []\<rparr>, c)
      else let sources = filter copied entries;
               kept = map (\<lambda>p. path_join dest (basename p)) sources;
               text' = join newline (map (\<lambda>p. last_chars 4000 (read_file sy p)) (filter (str_in ''dmesg'') kept));
               ev = crash_evidence (crash_reasons text') kept
           in (\<lparr>ps_saved = kept, ps_removed = if persistent then sources else []\<rparr>,
               ctx_add now (if s_unexpected_reboot (c_session c) then crash_event ev else historic_crash_event ev) c)))"

section \<open>The inventory phase\<close>

definition GPU_RE :: regex where
  "GPU_RE = re_compile no_flags ''VGA|3D controller|Display''"

definition gpus_of :: "(string, pcie_link) dict \<Rightarrow> string list" where
  "gpus_of links = map (\<lambda>(bdf, l). bdf @ '' '' @ ln_name l) (filter (\<lambda>(bdf, l). re_found GPU_RE (ln_name l)) links)"

text \<open>The names of the disks in the summary: an unreadable answer ends the list, an attribute of the
  wrong type raises.\<close>

definition SUMMARY_LSBLK :: "string list" where
  "SUMMARY_LSBLK = [''lsblk'', ''-J'', ''-b'', ''-d'', ''-o'', ''NAME,TYPE,SIZE,MODEL,SERIAL,TRAN,ROTA'']"

definition summary_disk :: "pyval \<Rightarrow> exn + string list" where
  "summary_disk d = ebind (py_get d ''type'' PNone) (\<lambda>t. if t \<noteq> PStr ''disk'' then Inr []
     else ebind (ebind (py_item d ''name'') py_as_str) (\<lambda>name.
     if \<exists>p \<in> set [''loop'', ''zram'', ''ram'', ''sr'']. startswith name p then Inr []
     else ebind (str_or d ''model'') (\<lambda>_. ebind (dev_size d) (\<lambda>_. Inr [name]))))"

fun summary_loop :: "pyval list \<Rightarrow> exn + string list" where
  "summary_loop [] = Inr []"
| "summary_loop (d # ds) = (case summary_disk d of
     Inl e \<Rightarrow> if unreadable e then Inr [] else Inl e
   | Inr names \<Rightarrow> ebind (summary_loop ds) (\<lambda>rest. Inr (names @ rest)))"

definition summary_disks :: "(string \<Rightarrow> pyval option) \<Rightarrow> sys \<Rightarrow> exn + string list" where
  "summary_disks json sy = (case json (out sy SUMMARY_LSBLK) of None \<Rightarrow> Inr []
     | Some v \<Rightarrow> (case ebind (py_item v ''blockdevices'') py_iter of
         Inl e \<Rightarrow> if unreadable e then Inr [] else Inl e
       | Inr ds \<Rightarrow> summary_loop ds))"

definition inventory_missing_event :: event where
  "inventory_missing_event = (event ''inventory-missing'' WARN ''Test''
     ''SMBIOS inventory could not be read; installed components cannot be verified'')\<lparr>ev_incomplete := True\<rparr>"

definition gpu_event :: event where
  "gpu_event = (event ''gpu-not-tested'' WARN ''GPU'' ''No dedicated GPU compute or VRAM verification was performed'')
     \<lparr>ev_recommendation := ''Run the GPU vendor's diagnostics for any production accelerators.''\<rparr>"

definition watchdog_event :: event where
  "watchdog_event = (event ''watchdog-missing'' WARN ''System'' ''No hardware watchdog exposed; a hard hang may require an external reset'')
     \<lparr>ev_recommendation := ''Enable the platform watchdog or supervise through the BMC during qualification.''\<rparr>"

definition pre_os_event :: event where
  "pre_os_event = (event ''pre-os-memory'' INFO ''Memory'' ''Linux workloads cannot test RAM reserved by the kernel or firmware'')
     \<lparr>ev_recommendation := ''Supplement with standalone Memtest86+ and vendor diagnostics.''\<rparr>"

definition read_only_event :: event where
  "read_only_event = (event ''storage-read-only'' INFO ''Storage'' ''Storage write integrity was not tested; disk tests are read-only'')
     \<lparr>ev_recommendation := ''On disposable disks, explicitly enable destructive write/verify before acceptance.''\<rparr>"

definition closing_events :: "sys \<Rightarrow> (string, pcie_link) dict \<Rightarrow> string list \<Rightarrow> options \<Rightarrow> event list" where
  "closing_events sy links disks opts =
     (if gpus_of links \<noteq> [] then [gpu_event] else []) @
     (if glob sy ''/sys/class/watchdog/watchdog*'' = [] then [watchdog_event] else []) @ [pre_os_event] @
     (if disks \<noteq> [] \<and> \<not> is_destructive opts then [read_only_event] else [])"

definition run_inventory :: "(string \<Rightarrow> pyval option) \<Rightarrow> (string \<Rightarrow> bool) \<Rightarrow> (string, string) dict \<Rightarrow> string \<times> sys \<Rightarrow> ctx \<Rightarrow> outcome" where
  "run_inventory json have old env c = (case env of (now, sy) \<Rightarrow>
     (let raw_files = collect_raw sy have old;
          records = parse_dmidecode (dict_get raw_files ''dmidecode.txt'' []);
          c0 = c\<lparr>c_status_note := ''checking memory, CPUs and PCIe links''\<rparr>;
          c1 = (if records = [] then ctx_add now inventory_missing_event c0 else c0);
          (dimms, c2) = check_memory env records c1
      in andthen (check_cpus env records c2) (\<lambda>c.
         lift_ex (parse_pcie_links (dict_get raw_files ''lspci-vvv.txt'' [])) (\<lambda>links c.
         andthen (check_rtc env (check_pcie_links now links [] c)) (\<lambda>c.
           (case check_taint env None c of (taint, c3) \<Rightarrow>
             lift_ex (summary_disks json sy) (\<lambda>disks c.
               ok (save_ctx (put_state (\<lambda>st. st\<lparr>st_pcie_links := links\<rparr>)
                 (add_events now (closing_events sy links disks (c_opts c)) c))))
             (put_state (\<lambda>st. st\<lparr>st_taint := Some taint\<rparr>) c3)))) c)))"

section \<open>What the checks report\<close>

lemma add_events_member:
  assumes "e \<in> set es" "\<forall>e \<in> set es. legal e"
  shows "\<exists>c1. grows (ctx_add now e c1) (add_events now es c)"
  using assms
proof (induction es arbitrary: c)
  case (Cons x es)
  show ?case
  proof (cases "x = e")
    case True
    then show ?thesis using Cons.prems add_events_grows [of es "ctx_add now e c" now] by auto
  next
    case False
    then show ?thesis using Cons.IH [of "ctx_add now x c"] Cons.prems by simp
  qed
qed simp

lemma add_events_FAIL:
  assumes "e \<in> set es" "\<forall>e \<in> set es. legal e" "ev_severity e = FAIL" "grows (add_events now es c) d"
  shows "verdict (c_findings d) inc = FAILED"
proof -
  obtain c1 where "grows (ctx_add now e c1) (add_events now es c)" using add_events_member [OF assms(1,2)] by blast
  then show ?thesis using FAIL_survives [OF grows_trans] assms(3,4) by blast
qed

lemma legal_with [simp]:
  "legal (e\<lparr>ev_detail := t\<rparr>) = legal e" "legal (e\<lparr>ev_recommendation := t\<rparr>) = legal e"
  "legal (e\<lparr>ev_evidence := ts\<rparr>) = legal e" "legal (e\<lparr>ev_incomplete := b\<rparr>) = legal e"
  by (simp_all add: legal_def)

lemma legal_inventory_events [simp]:
  "legal no_dimms_event" "legal (memory_missing_event t i)" "legal (memory_mixed_event ps)" "legal (memory_sizes_event ds)"
  "legal (memory_speed_event ds)" "legal non_ecc_event" "legal edac_missing_event" "legal (socket_event d s)"
  "legal (offline_event s)" "legal (cpu_count_event a b)" "legal (pcie_missing_event bdf l)" "legal (width_drop_event bdf b' l)"
  "legal (speed_drop_event bdf b' l)" "legal (narrow_event bdf l)" "legal (slow_link_event bdf l)" "legal rtc_event"
  "legal (taint_boot_event k cp t')" "legal (taint_event k cp t')" "legal (crash_event ev)" "legal (historic_crash_event ev)"
  "legal inventory_missing_event" "legal gpu_event" "legal watchdog_event" "legal pre_os_event" "legal read_only_event"
  by (simp_all add: no_dimms_event_def memory_missing_event_def memory_mixed_event_def memory_sizes_event_def memory_speed_event_def
      non_ecc_event_def edac_missing_event_def socket_event_def offline_event_def cpu_count_event_def pcie_missing_event_def
      width_drop_event_def speed_drop_event_def narrow_event_def slow_link_event_def rtc_event_def taint_boot_event_def
      taint_event_def crash_event_def historic_crash_event_def inventory_missing_event_def gpu_event_def watchdog_event_def
      pre_os_event_def read_only_event_def)

lemma ecc_events_legal: "\<forall>e \<in> set (ecc_events sy ecc). legal e"
  by (auto simp: ecc_events_def)

lemma memory_events_legal: "\<forall>e \<in> set (memory_events sy records). legal e"
  using ecc_events_legal by (auto simp: memory_events_def Let_def)

lemma link_events_legal: "\<forall>e \<in> set (link_events baseline x). legal e"
  by (cases x) (auto simp: link_events_def split: option.splits if_splits)

lemma pcie_events_legal: "\<forall>e \<in> set (pcie_events links baseline). legal e"
  using link_events_legal by (auto simp: pcie_events_def missing_link_def split: if_splits)

lemma taint_flag_legal: "\<forall>e \<in> set (taint_flag t s x). legal e"
  by (cases x) (auto simp: taint_flag_def split: option.splits if_splits)

lemma taint_events_legal: "\<forall>e \<in> set (concat (map (taint_flag t s) TAINT_FLAGS)). legal e"
  using taint_flag_legal by auto

lemma closing_events_legal: "\<forall>e \<in> set (closing_events sy links disks opts). legal e"
  by (auto simp: closing_events_def)

lemma check_memory_keeps: "keeps c (snd (check_memory env records c))"
  by (simp add: check_memory_def keeps_events memory_events_legal)

lemma cpu_sockets_keeps: "keeps c (snd (cpu_sockets now fs n c))"
proof (induction fs arbitrary: n c)
  case (Cons f fs)
  let ?c1 = "if str_in ''Populated'' (socket_status f) \<and> \<not> str_in ''Enabled'' (socket_status f)
    then ctx_add now (socket_event (dict_get f ''Socket Designation'' ''?'') (socket_status f)) c else c"
  have "keeps c ?c1" by simp
  moreover have "keeps ?c1 (snd (cpu_sockets now (f # fs) n c))"
    using Cons.IH by (cases "thread_count f") (simp_all only: cpu_sockets.simps Let_def if_distrib [where f = snd] sum.case snd_conv keeps_refl split: if_split, simp_all)
  ultimately show ?case by (rule keeps_trans)
qed simp

lemma check_cpus_keeps: "keeps c (snd (check_cpus env records c))"
proof -
  obtain now sy where e: "env = (now, sy)" by (cases env)
  obtain r c1 where s: "cpu_sockets now (map snd (filter (\<lambda>r. fst r = ''Processor Information'') records)) 0 c = (r, c1)" by force
  have g: "keeps c c1" using cpu_sockets_keeps [of c now "map snd (filter (\<lambda>r. fst r = ''Processor Information'') records)" 0] s by simp
  have "keeps c1 (add_events now ((if a \<noteq> [] then [offline_event a] else []) @ (if b then [cpu_count_event x y] else [])) c1)" for a b x y
    by (rule keeps_events) auto
  then show ?thesis using g keeps_trans unfolding e check_cpus_def by (auto simp: s Let_def split: sum.split)
qed

lemma check_pcie_keeps: "keeps c (check_pcie_links now links baseline c)"
  unfolding check_pcie_links_def by (rule keeps_events [OF pcie_events_legal])

lemma check_rtc_keeps: "keeps c (snd (check_rtc env c))"
  by (cases env) (auto simp: check_rtc_def Let_def intro: keeps_lift)

lemma check_taint_keeps: "keeps c (snd (check_taint env s c))"
  by (cases env) (simp add: check_taint_def keeps_events taint_events_legal del: concat.simps)

lemma collect_pstore_keeps: "keeps c (snd (collect_pstore env copied dest p c))"
  by (cases env) (simp add: collect_pstore_def Let_def)

lemma taint_during_test_fails:
  assumes b: "(b, key, compo, t') \<in> set TAINT_FLAGS" "bit (taint_value sy) b" "\<not> bit s b"
    and g: "grows (snd (check_taint (now, sy) (Some s) c)) d"
  shows "verdict (c_findings d) inc = FAILED"
proof (rule add_events_FAIL)
  show "taint_event key compo t' \<in> set (concat (map (taint_flag (taint_value sy) (Some s)) TAINT_FLAGS))"
    using b by (auto simp: taint_flag_def intro!: bexI [OF _ b(1)])
  show "grows (add_events now (concat (map (taint_flag (taint_value sy) (Some s)) TAINT_FLAGS)) c) d"
    using g by (simp add: check_taint_def)
  show "ev_severity (taint_event key compo t') = FAIL" by (simp add: taint_event_def)
qed (rule taint_events_legal)

text \<open>A device of the baseline that is gone, or whose link is up but narrower than in the baseline.\<close>

definition device_lost :: "(string, pcie_link) dict \<Rightarrow> (string, pcie_link) dict \<Rightarrow> string \<Rightarrow> pcie_link \<Rightarrow> bool" where
  "device_lost links baseline bdf b \<longleftrightarrow> (bdf, b) \<in> set baseline \<and> \<not> ln_bridge b \<and> map_of links bdf = None"

definition link_narrowed :: "(string, pcie_link) dict \<Rightarrow> (string, pcie_link) dict \<Rightarrow> string \<Rightarrow> pcie_link \<Rightarrow> bool" where
  "link_narrowed links baseline bdf b \<longleftrightarrow> map_of baseline bdf = Some b \<and> (\<exists>l. map_of links bdf = Some l \<and> \<not> ln_bridge l \<and>
     0 < ln_sta_width l \<and> ln_sta_width l < ln_sta_width b)"

lemma pcie_change_reported:
  assumes "device_lost links baseline bdf b \<or> link_narrowed links baseline bdf b"
  shows "\<exists>e \<in> set (pcie_events links baseline). ev_severity e = FAIL"
proof (cases "device_lost links baseline bdf b")
  case True
  then have "pcie_missing_event bdf b \<in> set (pcie_events links baseline)"
    unfolding pcie_events_def device_lost_def by (force simp: missing_link_def)
  moreover have "ev_severity (pcie_missing_event bdf b) = FAIL" by (simp add: pcie_missing_event_def)
  ultimately show ?thesis by blast
next
  case False
  then obtain l where l: "map_of links bdf = Some l" "\<not> ln_bridge l" "0 < ln_sta_width l" "ln_sta_width l < ln_sta_width b"
    "map_of baseline bdf = Some b" using assms by (auto simp: link_narrowed_def)
  have "(bdf, l) \<in> set links" using l(1) by (rule map_of_SomeD)
  then have "width_drop_event bdf b l \<in> set (pcie_events links baseline)"
    using l unfolding pcie_events_def by (force simp: link_events_def)
  moreover have "ev_severity (width_drop_event bdf b l) = FAIL" by (simp add: width_drop_event_def)
  ultimately show ?thesis by blast
qed

text \<open>A PCIe device that was there at the start of the test and is gone at its end, or runs on fewer
  lanes, fails the machine, whatever else is reported afterwards.\<close>

theorem pcie_change_fails:
  assumes "device_lost links baseline bdf b \<or> link_narrowed links baseline bdf b"
    and "grows (check_pcie_links now links baseline c) d"
  shows "verdict (c_findings d) inc = FAILED"
  using pcie_change_reported [OF assms(1)] add_events_FAIL [OF _ pcie_events_legal] assms(2)
  unfolding check_pcie_links_def by blast

definition sample_link :: "int \<Rightarrow> pcie_link" where
  "sample_link w = \<lparr>ln_name = ''Ethernet controller'', ln_cap_speed = Fin 8, ln_cap_width = 8, ln_sta_speed = Fin 8,
     ln_sta_width = w, ln_bridge = False\<rparr>"

lemma pcie_change_fails_witness:
  "verdict (c_findings (check_pcie_links ''t'' [(''03:00.0'', sample_link 4)] [(''03:00.0'', sample_link 8)] blank_ctx)) False = FAILED"
  by (rule pcie_change_fails [where bdf = "''03:00.0''" and b = "sample_link 8", OF _ grows_refl])
    (simp add: link_narrowed_def sample_link_def)

lemma links_keeps [simp]: "keeps c (put_state (\<lambda>st. st\<lparr>st_pcie_links := links\<rparr>) c)" "keeps c (put_state (\<lambda>st. st\<lparr>st_taint := t\<rparr>) c)"
  by (rule keeps_state, simp add: orchestration_eq)+

lemma closing_keeps: "keeps c (snd (ok (save_ctx (put_state (\<lambda>st. st\<lparr>st_pcie_links := links\<rparr>)
    (add_events now (closing_events sy links disks opts) c)))))"
  using keeps_trans [OF keeps_events [OF closing_events_legal] keeps_trans [OF links_keeps(1) keeps_save]] by simp

lemma run_inventory_keeps: "keeps c (snd (run_inventory json have old env c))"
proof -
  let ?now = "fst env" and ?sy = "snd env"
  let ?raw = "collect_raw ?sy have old" and ?note = "c\<lparr>c_status_note := ''checking memory, CPUs and PCIe links''\<rparr>"
  let ?records = "parse_dmidecode (dict_get ?raw ''dmidecode.txt'' [])"
  let ?c1 = "if ?records = [] then ctx_add ?now inventory_missing_event ?note else ?note"
  have "keeps c ?note" by (rule keeps_same) simp_all
  then have g1: "keeps c ?c1" using keeps_trans [OF _ keeps_add] by simp
  have g2: "keeps c (snd (check_memory env ?records ?c1))" by (rule keeps_trans [OF g1 check_memory_keeps])
  have tail: "keeps c' (snd (lift_ex v (\<lambda>disks c. ok (save_ctx (put_state (\<lambda>st. st\<lparr>st_pcie_links := links\<rparr>)
        (add_events ?now (closing_events ?sy links disks (c_opts c)) c))))
      (put_state (\<lambda>st. st\<lparr>st_taint := t\<rparr>) (snd (check_taint env None c')))))" for v t links and c' :: ctx
    by (rule keeps_lift, rule keeps_trans [OF keeps_trans [OF check_taint_keeps links_keeps(2)] closing_keeps])
      (rule keeps_trans [OF check_taint_keeps links_keeps(2)])
  have links: "keeps c' (snd (andthen (check_rtc env (check_pcie_links ?now links [] c')) (\<lambda>c.
      (case check_taint env None c of (taint, c3) \<Rightarrow> lift_ex (summary_disks json ?sy) (\<lambda>disks c.
         ok (save_ctx (put_state (\<lambda>st. st\<lparr>st_pcie_links := links\<rparr>) (add_events ?now (closing_events ?sy links disks (c_opts c)) c))))
       (put_state (\<lambda>st. st\<lparr>st_taint := Some taint\<rparr>) c3)))))" for links and c' :: ctx
    by (rule keeps_seq [OF keeps_trans [OF check_pcie_keeps check_rtc_keeps]]) (use tail in \<open>simp add: case_prod_beta\<close>)
  show ?thesis unfolding run_inventory_def Let_def case_prod_beta
    by (rule keeps_seq [OF keeps_trans [OF g2 check_cpus_keeps]], rule keeps_lift, rule links [unfolded case_prod_beta], rule keeps_refl)
qed

end
