(* ===== verification/Summary.thy ===== *)
theory Summary
  imports Inventory
begin

text \<open>
  The hardware summary of \<open>inventory.py\<close> that the reports print: \<open>summarize\<close> with its records.
  The answers of the operating system that \<open>sys\<close> does not hold (\<open>os.path.realpath\<close>,
  \<open>os.path.isdir\<close>, \<open>os.cpu_count\<close> and \<open>os.uname\<close>) are the fields of \<open>summary_env\<close>.
\<close>

section \<open>Records\<close>

record cpu_summary =
  cp_socket :: string
  cp_model :: string
  cp_cores :: string
  cp_threads :: string

record disk_summary =
  ds_name :: string
  ds_model :: string
  ds_serial :: pyval
  ds_size :: string
  ds_transport :: pyval
  ds_rotational :: pyval

record nic_summary =
  nc_name :: string
  nc_driver :: string
  nc_firmware :: string
  nc_mac :: string
  nc_link :: string
  nc_speed :: string

record inventory =
  inv_system :: "string \<times> string \<times> string \<times> string"   \<comment> \<open>manufacturer, product, serial, uuid\<close>
  inv_board :: "string \<times> string \<times> string"
  inv_bios :: "string \<times> string \<times> string"               \<comment> \<open>vendor, version, date\<close>
  inv_bmc_firmware :: string
  inv_cpus :: "cpu_summary list"
  inv_logical_cpus :: "int option"
  inv_microcode :: string
  inv_memory_total :: string
  inv_dimms :: "dimm list"
  inv_disks :: "disk_summary list"
  inv_nics :: "nic_summary list"
  inv_gpus :: "string list"
  inv_boot_mode :: string
  inv_kernel :: string

record summary_env =
  sm_sys :: sys
  sm_realpath :: "string \<Rightarrow> string"
  sm_isdir :: "string \<Rightarrow> bool"
  sm_cpus :: "int option"
  sm_release :: string

section \<open>The parts of the summary\<close>

text \<open>The fields of the first record of a type; no such record gives no fields.\<close>

fun first_record :: "(string \<times> fields) list \<Rightarrow> string \<Rightarrow> fields" where
  "first_record [] ty = []"
| "first_record ((n, f) # rs) ty = (if n = ty then f else first_record rs ty)"

definition cpu_of :: "fields \<Rightarrow> cpu_summary" where
  "cpu_of f = \<lparr>cp_socket = dict_get f ''Socket Designation'' [], cp_model = dict_get f ''Version'' [],
     cp_cores = dict_get f ''Core Count'' [], cp_threads = dict_get f ''Thread Count'' []\<rparr>"

definition populated :: "string \<times> fields \<Rightarrow> bool" where
  "populated r \<longleftrightarrow> fst r = ''Processor Information'' \<and> str_in ''Populated'' (dict_get (snd r) ''Status'' [])"

definition cpus_of :: "(string \<times> fields) list \<Rightarrow> cpu_summary list" where
  "cpus_of records = map (\<lambda>r. cpu_of (snd r)) (filter populated records)"

definition MICROCODE_RE :: regex where
  "MICROCODE_RE = re_compile re_M (raw ''^microcode`s*:`s*(`S+)'')"

definition FIRMWARE_RE :: regex where
  "FIRMWARE_RE = re_compile no_flags ''firmware-version: (.*)''"

definition BMC_RE :: regex where
  "BMC_RE = re_compile no_flags (raw ''Firmware Revision`s*:`s*(.*)'')"

text \<open>\<open>m.group(1)\<close> of a search, or the empty string.\<close>

definition found_group :: "regex \<Rightarrow> string \<Rightarrow> string" where
  "found_group r text = (case re_search r text of None \<Rightarrow> [] | Some m \<Rightarrow> the_default [] (m_group m 1))"

definition disk_entry :: "pyval \<Rightarrow> string \<Rightarrow> exn + disk_summary" where
  "disk_entry d name =
     ebind (str_or d ''model'') (\<lambda>model. ebind (py_or (py_get d ''serial'' PNone) (Inr (PStr []))) (\<lambda>serial.
     ebind (dev_size d) (\<lambda>n. ebind (py_or (py_get d ''tran'' PNone) (Inr (PStr []))) (\<lambda>tran.
     ebind (py_get d ''rota'' PNone) (\<lambda>rota.
       Inr \<lparr>ds_name = name, ds_model = strip model, ds_serial = serial, ds_size = fmt_int_bytes n,
            ds_transport = tran, ds_rotational = rota\<rparr>)))))"

definition disk_row :: "pyval \<Rightarrow> exn + disk_summary list" where
  "disk_row d = ebind (py_get d ''type'' PNone) (\<lambda>t. if t \<noteq> PStr ''disk'' then Inr []
     else ebind (ebind (py_item d ''name'') py_as_str) (\<lambda>name.
     if \<exists>p \<in> set [''loop'', ''zram'', ''ram'', ''sr'']. startswith name p then Inr []
     else ebind (disk_entry d name) (\<lambda>e. Inr [e])))"

fun disk_rows :: "pyval list \<Rightarrow> exn + disk_summary list" where
  "disk_rows [] = Inr []"
| "disk_rows (d # ds) = (case disk_row d of
     Inl e \<Rightarrow> if unreadable e then Inr [] else Inl e
   | Inr new \<Rightarrow> ebind (disk_rows ds) (\<lambda>rest. Inr (new @ rest)))"

definition disks_of :: "(string \<Rightarrow> pyval option) \<Rightarrow> sys \<Rightarrow> exn + disk_summary list" where
  "disks_of json sy = (case json (out sy SUMMARY_LSBLK) of None \<Rightarrow> Inr []
     | Some v \<Rightarrow> (case ebind (py_item v ''blockdevices'') py_iter of
         Inl e \<Rightarrow> if unreadable e then Inr [] else Inl e
       | Inr ds \<Rightarrow> disk_rows ds))"

definition nic_path :: "string \<Rightarrow> string \<Rightarrow> string" where
  "nic_path nic leaf = ''/sys/class/net/'' @ nic @ ''/'' @ leaf"

definition nic_of :: "summary_env \<Rightarrow> string \<Rightarrow> nic_summary" where
  "nic_of env p = (let sy = sm_sys env; nic = basename (dirname p); speed = strip (read_file sy (nic_path nic ''speed''))
     in \<lparr>nc_name = nic, nc_driver = basename (sm_realpath env (nic_path nic ''device/driver'')),
         nc_firmware = strip (found_group FIRMWARE_RE (out sy [''ethtool'', ''-i'', nic])),
         nc_mac = strip (read_file sy (nic_path nic ''address'')), nc_link = strip (read_file sy (nic_path nic ''operstate'')),
         nc_speed = (if speed \<noteq> [] \<and> \<not> startswith speed ''-'' then speed @ '' Mb/s'' else [])\<rparr>)"

definition bmc_info :: "sys \<Rightarrow> string" where
  "bmc_info sy = (if glob sy ''/dev/ipmi*'' \<noteq> [] then out sy [''ipmitool'', ''mc'', ''info''] else [])"

definition summarize :: "(string \<Rightarrow> pyval option) \<Rightarrow> summary_env \<Rightarrow> (string \<times> fields) list \<Rightarrow> dimm list \<Rightarrow>
    (string, pcie_link) dict \<Rightarrow> exn + inventory" where
  "summarize json env records dimms links = (let sy = sm_sys env;
       system = first_record records ''System Information''; board = first_record records ''Base Board Information'';
       bios = first_record records ''BIOS Information''
     in ebind (disks_of json sy) (\<lambda>disks. Inr
       \<lparr>inv_system = (dict_get system ''Manufacturer'' [], dict_get system ''Product Name'' [],
          dict_get system ''Serial Number'' [], dict_get system ''UUID'' []),
        inv_board = (dict_get board ''Manufacturer'' [], dict_get board ''Product Name'' [], dict_get board ''Serial Number'' []),
        inv_bios = (dict_get bios ''Vendor'' [], dict_get bios ''Version'' [], dict_get bios ''Release Date'' []),
        inv_bmc_firmware = strip (found_group BMC_RE (bmc_info sy)), inv_cpus = cpus_of records, inv_logical_cpus = sm_cpus env,
        inv_microcode = found_group MICROCODE_RE (read_file sy ''/proc/cpuinfo''),
        inv_memory_total = fmt_int_bytes (dict_get (meminfo sy) ''MemTotal'' 0),
        inv_dimms = dimms, inv_disks = disks,
        inv_nics = map (nic_of env) (sort (glob sy ''/sys/class/net/*/device'')),
        inv_gpus = gpus_of links,
        inv_boot_mode = (if sm_isdir env ''/sys/firmware/efi'' then ''UEFI'' else ''Legacy BIOS''),
        inv_kernel = sm_release env\<rparr>))"

section \<open>The inventory phase sees the same disks\<close>

text \<open>Whether the inventory phase finds disks to note is decided on the names of the summary.\<close>

lemma py_get_total: "py_get d k v = Inr w \<Longrightarrow> \<exists>u. py_get d k' v' = Inr u"
  by (cases d) simp_all

lemma py_or_total: "py_get d k v = Inr w \<Longrightarrow> \<exists>u. py_or (py_get d k' v') (Inr x) = Inr u"
  by (cases d) (simp_all add: py_or_def)

lemma disk_entry_names:
  "py_get d ''type'' PNone = Inr t \<Longrightarrow> ebind (disk_entry d name) (\<lambda>e. Inr [ds_name e]) =
     ebind (str_or d ''model'') (\<lambda>_. ebind (dev_size d) (\<lambda>_. Inr [name]))"
  using py_or_total [of d "''type''" PNone t "''serial''" PNone "PStr []"]
    py_or_total [of d "''type''" PNone t "''tran''" PNone "PStr []"] py_get_total [of d "''type''" PNone t "''rota''" PNone]
  by (cases "str_or d ''model''"; cases "dev_size d") (auto simp: disk_entry_def)

lemma disk_row_names: "summary_disk d = ebind (disk_row d) (\<lambda>r. Inr (map ds_name r))"
proof (cases "py_get d ''type'' PNone")
  case (Inr t)
  have c: "ebind (ebind m f) h = ebind m (\<lambda>x. ebind (f x) h)" for m :: "exn + disk_summary" and f and h :: "disk_summary list \<Rightarrow> exn + string list"
    by (cases m) simp_all
  show ?thesis
    by (cases "ebind (py_item d ''name'') py_as_str") (simp_all add: summary_disk_def disk_row_def Inr disk_entry_names [OF Inr, symmetric] c
        del: ebind_eq_Inr)
qed (simp add: summary_disk_def disk_row_def)

lemma disk_rows_names: "summary_loop ds = ebind (disk_rows ds) (\<lambda>r. Inr (map ds_name r))"
proof (induction ds)
  case (Cons d ds)
  then show ?case by (cases "disk_row d"; cases "disk_rows ds") (simp_all add: disk_row_names)
qed simp

lemma disks_of_names: "summary_disks json sy = ebind (disks_of json sy) (\<lambda>r. Inr (map ds_name r))"
proof (cases "json (out sy SUMMARY_LSBLK)")
  case (Some v)
  show ?thesis by (cases "ebind (py_item v ''blockdevices'') py_iter") (simp_all add: summary_disks_def disks_of_def Some disk_rows_names del: ebind_eq_Inr)
qed (simp add: summary_disks_def disks_of_def)

end
