(* ===== verification/Ycruncher.thy ===== *)
theory Ycruncher
  imports PyRegex UtilText PyValue
begin

text \<open>
  Models \<open>ycruncher.py\<close>: the configuration of the y-cruncher stress test, the evidence read from
  the output of one invocation, line by line, and the gaps in its coverage.  The lines are the
  decoded lines of the log after the offset of the invocation.
\<close>

section \<open>Configuration\<close>

definition YC_TESTS :: "string list" where
  "YC_TESTS = [''SFTv4'', ''SNT'', ''SVT'', ''FFTv4'', ''N63'', ''VT3'']"

definition ALIASES :: "(string, string) dict" where
  "ALIASES = [(''NTT63'', ''N63''), (''VSTv3'', ''VT3'')]"

definition seconds_per_test :: "int \<Rightarrow> int" where
  "seconds_per_test seconds = min 120 (max 1 (seconds div (2 * int (length YC_TESTS))))"

definition yc_configuration :: "int list \<Rightarrow> int \<Rightarrow> int \<Rightarrow> exn + pyval" where
  "yc_configuration cores memory_mib seconds =
    (if cores = [] \<or> memory_mib < 64 \<or> seconds < 1
     then Inl (ValueError ''y-cruncher needs CPU cores, at least 64 MiB and a positive duration'')
     else Inr (PDict [(''Action'', PStr ''StressTest''), (''StressTest'', PDict
       [(''AllocateLocally'', PBool True), (''LogicalCores'', PList (map (\<lambda>c. PStr (int_str c)) cores)),
        (''TotalMemory'', PInt (memory_mib * 2 ^ 20)), (''SecondsPerTest'', PInt (seconds_per_test seconds)),
        (''SecondsTotal'', PInt seconds), (''StopOnError'', PBool True), (''Tests'', PList (map PStr YC_TESTS))])]))"

section \<open>Evidence\<close>

definition ANSI :: regex where
  "ANSI = re_compile no_flags (raw ''`x1b`[[0-?]*[ -/]*[@-~]'')"

definition PASSED :: regex where
  "PASSED = re_compile no_flags (raw ''^Running (`w+):`s*Passed`b'')"

definition ALLOCATION :: regex where
  "ALLOCATION = re_compile no_flags (raw ''^`s*Core`s+(`d+):`s+([`d.,]+)`s+[KMGT]iB`s+node`s+(`d+)'')"

definition FAULT :: regex where
  "FAULT = re_compile re_I (raw (''Test Failed|Tests Failed|Stress test failed|StressTestFailedException|'' @
     ''Error`(s`) encountered on logical core|'' @
     ''(?:checksum|value|bottom word) mismatch|Modular Redundancy Check Failed|'' @ ''Running `w+:`s*(?:Failed|Error)''))"

definition ERROR_RE :: regex where
  "ERROR_RE = re_compile re_I (raw ''`b(?:error|errors|exception|failed|failure|unsupported|unavailable)`b'')"

record evidence =
  y_version :: string
  y_passed :: "(string, int) dict"
  y_cores :: "int list"
  y_nodes :: "int list"
  y_finished :: bool
  y_faults :: "string list"
  y_errors :: "string list"
  y_tail :: "string list"

definition no_evidence :: evidence where
  "no_evidence = \<lparr>y_version = [], y_passed = [], y_cores = [], y_nodes = [], y_finished = False, y_faults = [],
     y_errors = [], y_tail = []\<rparr>"

definition clean_line :: "string \<Rightarrow> string" where
  "clean_line raw_line = strip (re_sub ANSI [] raw_line)"

definition count_passed :: "string \<Rightarrow> evidence \<Rightarrow> evidence" where
  "count_passed line ev = (case re_match_start PASSED line of None \<Rightarrow> ev
     | Some m \<Rightarrow> (let name = the_default [] (m_group m 1); tag = dict_get ALIASES name name
         in ev\<lparr>y_passed := AList.update tag (dict_get (y_passed ev) tag 0 + 1) (y_passed ev)\<rparr>))"

definition count_allocation :: "string \<Rightarrow> evidence \<Rightarrow> exn + evidence" where
  "count_allocation line ev = (case re_match_start ALLOCATION line of None \<Rightarrow> Inr ev
     | Some m \<Rightarrow> (let amount = remove_char (CHR '','') (the_default [] (m_group m 2)) in
         case py_float amount of
           None \<Rightarrow> Inl (ValueError (''could not convert string to float: '' @ amount))
         | Some x \<Rightarrow> Inr (if pf_less (Fin 0) x
             then ev\<lparr>y_cores := List.insert (digits_value (the_default [] (m_group m 1))) (y_cores ev),
                     y_nodes := List.insert (digits_value (the_default [] (m_group m 3))) (y_nodes ev)\<rparr>
             else ev)))"

definition is_fault :: "string \<Rightarrow> bool" where
  "is_fault line = re_found FAULT line"

definition is_error :: "string \<Rightarrow> bool" where
  "is_error line = (re_found ERROR_RE line \<and> \<not> str_in ''Stop on Error:'' line)"

definition note_problem :: "string \<Rightarrow> evidence \<Rightarrow> evidence" where
  "note_problem line ev =
    (if is_fault line \<and> length (y_faults ev) < 25 then ev\<lparr>y_faults := y_faults ev @ [take 500 line]\<rparr>
     else if is_error line \<and> length (y_errors ev) < 25 then ev\<lparr>y_errors := y_errors ev @ [take 500 line]\<rparr>
     else ev)"

definition FINISHED :: string where
  "FINISHED = ''Test Finished. Waiting for threads to terminate...''"

definition note_line :: "string \<Rightarrow> evidence \<Rightarrow> evidence" where
  "note_line line ev = ev\<lparr>y_tail := drop (length (y_tail ev) - 11) (y_tail ev) @ [take 500 line],
     y_version := (if startswith line ''y-cruncher v'' then line else y_version ev)\<rparr>"

definition finish_line :: "string \<Rightarrow> evidence \<Rightarrow> evidence" where
  "finish_line line ev = (if line = FINISHED then ev\<lparr>y_finished := True\<rparr> else ev)"

definition read_line :: "string \<Rightarrow> evidence \<Rightarrow> exn + evidence" where
  "read_line raw_line ev = (let line = clean_line raw_line in
     if line = [] then Inr ev
     else ebind (count_allocation line (count_passed line (note_line line ev)))
       (\<lambda>ev. Inr (finish_line line (note_problem line ev))))"

definition read_evidence :: "string list \<Rightarrow> exn + evidence" where
  "read_evidence output = ebind (efold read_line output no_evidence)
     (\<lambda>ev. Inr (ev\<lparr>y_cores := sort (y_cores ev), y_nodes := sort (y_nodes ev)\<rparr>))"

section \<open>Gaps in the coverage\<close>

definition rc_text :: "int option \<Rightarrow> string" where
  "rc_text rc = (case rc of None \<Rightarrow> ''None'' | Some n \<Rightarrow> int_str n)"

definition missing_tests :: "evidence \<Rightarrow> string list" where
  "missing_tests ev = filter (\<lambda>tag. dict_get (y_passed ev) tag 0 < 1) YC_TESTS"

definition missing_cores :: "evidence \<Rightarrow> int list \<Rightarrow> int list" where
  "missing_cores ev cores = sort (remdups (filter (\<lambda>c. c \<notin> set (y_cores ev)) cores))"

text \<open>\<open>elapsed < seconds * 0.9\<close>.\<close>

definition too_short :: "rat \<Rightarrow> int \<Rightarrow> bool" where
  "too_short elapsed seconds \<longleftrightarrow> elapsed < fl (fl (of_int seconds) * fl (9 / 10))"

definition yc_coverage_gaps :: "evidence \<Rightarrow> int list \<Rightarrow> int \<Rightarrow> rat \<Rightarrow> int option \<Rightarrow> string list" where
  "yc_coverage_gaps ev cores seconds elapsed rc =
     (if rc \<noteq> Some 0 then [''Workload did not exit normally (exit code '' @ rc_text rc @ '')''] else []) @
     (if \<not> y_finished ev then [''Missing normal completion marker''] else []) @
     (if missing_tests ev \<noteq> [] then [''No successful test result for: '' @ join '', '' (missing_tests ev)] else []) @
     (if missing_cores ev cores \<noteq> []
      then [''No memory allocation evidence for cores: '' @ join '', '' (map int_str (missing_cores ev cores))] else []) @
     (if too_short elapsed seconds
      then [''Workload ended early ('' @ fixed 1 elapsed @ ''s of '' @ int_str seconds @ ''s)''] else []) @
     y_errors ev"

section \<open>The evidence reflects the whole output\<close>

definition lines_of :: "string list \<Rightarrow> string list" where
  "lines_of output = filter (\<lambda>l. l \<noteq> []) (map clean_line output)"

definition passes :: "string \<Rightarrow> string \<Rightarrow> bool" where
  "passes tag line = (case re_match_start PASSED line of None \<Rightarrow> False
     | Some m \<Rightarrow> (let name = the_default [] (m_group m 1) in dict_get ALIASES name name = tag))"

definition allocates :: "int \<Rightarrow> string \<Rightarrow> bool" where
  "allocates core line = (case re_match_start ALLOCATION line of None \<Rightarrow> False
     | Some m \<Rightarrow> digits_value (the_default [] (m_group m 1)) = core \<and>
         (case py_float (remove_char (CHR '','') (the_default [] (m_group m 2))) of None \<Rightarrow> False | Some x \<Rightarrow> pf_less (Fin 0) x))"

definition reflects :: "string list \<Rightarrow> evidence \<Rightarrow> bool" where
  "reflects L ev \<longleftrightarrow>
     (y_finished ev \<longleftrightarrow> FINISHED \<in> set L) \<and>
     (\<forall>tag. 0 \<le> dict_get (y_passed ev) tag 0 \<and> (1 \<le> dict_get (y_passed ev) tag 0 \<longleftrightarrow> (\<exists>l \<in> set L. passes tag l))) \<and>
     (\<forall>c. c \<in> set (y_cores ev) \<longleftrightarrow> (\<exists>l \<in> set L. allocates c l)) \<and>
     (y_faults ev = [] \<longleftrightarrow> (\<forall>l \<in> set L. \<not> is_fault l)) \<and>
     (y_faults ev = [] \<and> y_errors ev = [] \<longleftrightarrow> (\<forall>l \<in> set L. \<not> is_fault l \<and> \<not> is_error l))"

lemma count_passed_frame [simp]:
  "y_finished (count_passed l ev) = y_finished ev" "y_cores (count_passed l ev) = y_cores ev"
  "y_faults (count_passed l ev) = y_faults ev" "y_errors (count_passed l ev) = y_errors ev"
  "y_finished (note_line l ev) = y_finished ev" "y_cores (note_line l ev) = y_cores ev"
  "y_faults (note_line l ev) = y_faults ev" "y_errors (note_line l ev) = y_errors ev" "y_passed (note_line l ev) = y_passed ev"
  "y_cores (note_problem l ev) = y_cores ev" "y_passed (note_problem l ev) = y_passed ev" "y_finished (note_problem l ev) = y_finished ev"
  "y_cores (finish_line l ev) = y_cores ev" "y_passed (finish_line l ev) = y_passed ev"
  "y_faults (finish_line l ev) = y_faults ev" "y_errors (finish_line l ev) = y_errors ev"
  "y_finished (finish_line l ev) \<longleftrightarrow> y_finished ev \<or> l = FINISHED"
  by (simp_all add: count_passed_def note_line_def note_problem_def finish_line_def Let_def split: option.split)

lemma passed_count: "dict_get (y_passed (count_passed l ev)) tag 0 = dict_get (y_passed ev) tag 0 + (if passes tag l then 1 else 0)"
  by (auto simp: count_passed_def passes_def Let_def dict_get_def dict_simps split: option.split)

lemma allocation_frame:
  assumes "count_allocation l ev = Inr ev'"
  shows "y_finished ev' = y_finished ev \<and> y_passed ev' = y_passed ev \<and> y_faults ev' = y_faults ev \<and> y_errors ev' = y_errors ev \<and>
    (\<forall>c. c \<in> set (y_cores ev') \<longleftrightarrow> c \<in> set (y_cores ev) \<or> allocates c l)"
  using assms by (auto simp: count_allocation_def allocates_def Let_def split: option.splits if_splits)

lemma note_problem_clean:
  "y_faults (note_problem l ev) = [] \<longleftrightarrow> y_faults ev = [] \<and> \<not> is_fault l"
  "y_faults (note_problem l ev) = [] \<and> y_errors (note_problem l ev) = [] \<longleftrightarrow>
     y_faults ev = [] \<and> y_errors ev = [] \<and> \<not> is_fault l \<and> \<not> is_error l"
  by (auto simp: note_problem_def)

lemma read_line_reflects:
  assumes "reflects L ev" "read_line r ev = Inr ev'"
  shows "reflects (L @ lines_of [r]) ev'"
proof (cases "clean_line r = []")
  case True
  then show ?thesis using assms by (simp add: read_line_def lines_of_def)
next
  case False
  let ?l = "clean_line r"
  obtain ev1 where a: "count_allocation ?l (count_passed ?l (note_line ?l ev)) = Inr ev1"
    and e: "ev' = finish_line ?l (note_problem ?l ev1)"
    using assms(2) False by (auto simp: read_line_def Let_def)
  note f = allocation_frame [OF a]
  have L: "set (L @ lines_of [r]) = insert ?l (set L)" using False by (auto simp: lines_of_def)
  have p: "dict_get (y_passed ev') tag 0 = dict_get (y_passed ev) tag 0 + (if passes tag ?l then 1 else 0)" for tag
    using f passed_count [of ?l "note_line ?l ev" tag] by (simp add: e)
  have 1: "0 \<le> dict_get (y_passed ev') tag 0 \<and> (1 \<le> dict_get (y_passed ev') tag 0 \<longleftrightarrow> (\<exists>l \<in> set (L @ lines_of [r]). passes tag l))" for tag
    using assms(1) unfolding p L reflects_def by force
  have 2: "c \<in> set (y_cores ev') \<longleftrightarrow> (\<exists>l \<in> set (L @ lines_of [r]). allocates c l)" for c
    using assms(1) f unfolding L reflects_def e by auto
  have 3: "y_finished ev' \<longleftrightarrow> FINISHED \<in> set (L @ lines_of [r])"
    using assms(1) f unfolding L reflects_def e by auto
  have 4: "y_faults ev' = [] \<longleftrightarrow> (\<forall>l \<in> set (L @ lines_of [r]). \<not> is_fault l)"
    using assms(1) f note_problem_clean(1) [of ?l ev1] unfolding L reflects_def e by auto
  have 5: "y_faults ev' = [] \<and> y_errors ev' = [] \<longleftrightarrow> (\<forall>l \<in> set (L @ lines_of [r]). \<not> is_fault l \<and> \<not> is_error l)"
    using assms(1) f note_problem_clean(2) [of ?l ev1] unfolding L reflects_def e by auto
  show ?thesis unfolding reflects_def using 1 2 3 4 5 by blast
qed

lemma lines_of_simps: "lines_of [] = []" "lines_of (r # rs) = lines_of [r] @ lines_of rs"
  by (simp_all add: lines_of_def)

lemma read_lines_reflect:
  "reflects L ev \<Longrightarrow> efold read_line rs ev = Inr ev' \<Longrightarrow> reflects (L @ lines_of rs) ev'"
proof (induction rs arbitrary: L ev)
  case (Cons r rs)
  then obtain ev1 where "read_line r ev = Inr ev1" "efold read_line rs ev1 = Inr ev'" by auto
  then show ?case using Cons.IH [OF read_line_reflects [OF Cons.prems(1)]] lines_of_simps(2) [of r rs] by simp
qed (simp add: lines_of_simps)

lemma read_evidence_reflects:
  assumes "read_evidence output = Inr ev" shows "reflects (lines_of output) ev"
proof -
  obtain ev1 where e: "efold read_line output no_evidence = Inr ev1" "ev = ev1\<lparr>y_cores := sort (y_cores ev1), y_nodes := sort (y_nodes ev1)\<rparr>"
    using assms by (auto simp: read_evidence_def)
  have "reflects [] no_evidence" by (simp add: reflects_def no_evidence_def dict_get_def)
  from read_lines_reflect [OF this e(1)] have r: "reflects (lines_of output) ev1" by simp
  have eq: "y_finished ev = y_finished ev1" "y_passed ev = y_passed ev1" "set (y_cores ev) = set (y_cores ev1)"
    "y_faults ev = y_faults ev1" "y_errors ev = y_errors ev1" by (simp_all add: e(2))
  show ?thesis using r unfolding reflects_def eq .
qed

lemma no_gaps_iff:
  "yc_coverage_gaps ev cores seconds elapsed rc = [] \<longleftrightarrow> rc = Some 0 \<and> y_finished ev \<and>
     (\<forall>tag \<in> set YC_TESTS. 1 \<le> dict_get (y_passed ev) tag 0) \<and> set cores \<subseteq> set (y_cores ev) \<and>
     \<not> too_short elapsed seconds \<and> y_errors ev = []"
proof -
  have m: "missing_tests ev = [] \<longleftrightarrow> (\<forall>tag \<in> set YC_TESTS. 1 \<le> dict_get (y_passed ev) tag 0)"
    by (auto simp: missing_tests_def filter_empty_conv not_less)
  have c: "missing_cores ev cores = [] \<longleftrightarrow> set cores \<subseteq> set (y_cores ev)"
    by (auto simp: missing_cores_def filter_empty_conv simp flip: set_empty)
  show ?thesis unfolding yc_coverage_gaps_def by (auto simp: m c)
qed

lemma clean_run:
  assumes "read_evidence output = Inr ev"
  shows "yc_coverage_gaps ev cores seconds elapsed rc = [] \<and> y_faults ev = [] \<longleftrightarrow>
    rc = Some 0 \<and> \<not> too_short elapsed seconds \<and> FINISHED \<in> set (lines_of output) \<and>
    (\<forall>tag \<in> set YC_TESTS. \<exists>l \<in> set (lines_of output). passes tag l) \<and>
    (\<forall>c \<in> set cores. \<exists>l \<in> set (lines_of output). allocates c l) \<and>
    (\<forall>l \<in> set (lines_of output). \<not> is_fault l \<and> \<not> is_error l)"
  using read_evidence_reflects [OF assms] unfolding no_gaps_iff reflects_def subset_iff by blast

text \<open>C19: an invocation of y-cruncher counts as clean exactly when the process exited with code zero, ran
  for nine tenths of the requested time, and its complete output (not just the end of it) holds the
  completion marker, a passed result of each of the six algorithms, a memory allocation for every
  core and no line that reports a fault or an error.\<close>

theorem ycruncher_clean_iff:
  assumes "read_evidence output = Inr ev"
  shows "yc_coverage_gaps ev cores seconds elapsed rc = [] \<and> y_faults ev = [] \<longleftrightarrow>
    rc = Some 0 \<and> \<not> too_short elapsed seconds \<and> FINISHED \<in> set (lines_of output) \<and>
    (\<forall>tag \<in> set YC_TESTS. \<exists>l \<in> set (lines_of output). passes tag l) \<and>
    (\<forall>c \<in> set cores. \<exists>l \<in> set (lines_of output). allocates c l) \<and>
    (\<forall>l \<in> set (lines_of output). \<not> is_fault l \<and> \<not> is_error l)"
  by (rule clean_run [OF assms])

lemma sample_evidence:
  "read_evidence [''Running SNT: Passed''] = Inr (no_evidence\<lparr>y_passed := [(''SNT'', 1)], y_tail := [''Running SNT: Passed'']\<rparr>)"
  by code_simp

lemma ycruncher_clean_iff_witness:
  "(yc_coverage_gaps (no_evidence\<lparr>y_passed := [(''SNT'', 1)], y_tail := [''Running SNT: Passed'']\<rparr>) [1] 100 100 (Some 0) = [] \<and>
     y_faults (no_evidence\<lparr>y_passed := [(''SNT'', 1)], y_tail := [''Running SNT: Passed'']\<rparr>) = []) = False \<and>
   (FINISHED \<in> set (lines_of [''Running SNT: Passed''])) = False"
proof
  have f: "FINISHED \<notin> set (lines_of [''Running SNT: Passed''])"
    using read_evidence_reflects [OF sample_evidence] by (simp add: reflects_def no_evidence_def)
  then show "(FINISHED \<in> set (lines_of [''Running SNT: Passed''])) = False" by simp
  show "(yc_coverage_gaps (no_evidence\<lparr>y_passed := [(''SNT'', 1)], y_tail := [''Running SNT: Passed'']\<rparr>) [1] 100 100 (Some 0) = [] \<and>
     y_faults (no_evidence\<lparr>y_passed := [(''SNT'', 1)], y_tail := [''Running SNT: Passed'']\<rparr>) = []) = False"
    unfolding ycruncher_clean_iff [OF sample_evidence] using f by simp
qed

end
