(* ===== verification/Phases.thy ===== *)
theory Phases
  imports Inventory Ycruncher
begin

text \<open>
  Models \<open>phases.py\<close>: the stress phases.  The workloads are external programs; what the model
  takes from one run of a program is a \<open>proc\<close>: whether it could be started, the exit code that
  \<open>ManagedProcess.wait\<close> returned (none when the deadline or an abort came first), its output, how
  long it ran, and what the other threads (monitors, disk scans, an abort) did to the context in
  the meantime.  A \<open>tool\<close> gives the run for a command line.  The readings of the monotonic clock
  that steer a loop are the list of its turns.
\<close>

section \<open>The other threads\<close>

text \<open>What the monitors, the disk scans and the operator do to the context while a phase waits.\<close>

datatype background =
    Reports string event
  | Escalates int string
  | Counts string string counter
  | Aborts string

fun act :: "background \<Rightarrow> ctx \<Rightarrow> ctx" where
  "act (Reports now e) c = (if legal e then ctx_add now e c else c)"
| "act (Escalates limit key) c = ctx_escalate_at limit key c"
| "act (Counts grp key v) c = put_seen grp key v c"
| "act (Aborts reason) c = request_abort reason c"

definition others :: "background list \<Rightarrow> ctx \<Rightarrow> ctx" where
  "others bs c = fold act bs c"

section \<open>Running a program\<close>

record proc =
  pr_spawn :: "exn option"
  pr_rc :: "int option"
  pr_elapsed :: rat
  pr_output :: string
  pr_during :: "background list"

type_synonym tool = "string list \<Rightarrow> proc"

record phase =
  ph_name :: string
  ph_duration :: int

section \<open>Memory budget\<close>

definition cpu_count :: "int option \<Rightarrow> int" where
  "cpu_count n = (case n of None \<Rightarrow> 1 | Some k \<Rightarrow> if k = 0 then 1 else k)"

definition os_reserve :: "int \<Rightarrow> int" where
  "os_reserve total_mem = max (768 * 2 ^ 20) (trunc (fl (fl (of_int total_mem) * fl (4 / 100))))"

definition mem_budget_mib :: "sys \<Rightarrow> rat \<Rightarrow> exn + int" where
  "mem_budget_mib sy fraction =
    (let mi = meminfo sy; avail = dict_get mi ''MemAvailable'' 0; total_mem = dict_get mi ''MemTotal'' 0;
         budget = trunc (fl (fl (of_int (max 0 (avail - os_reserve total_mem))) * fraction)) div 2 ^ 20
     in if budget < 64 then Inl (RuntimeError ''Insufficient available RAM for a verified workload plus the OS reserve'')
        else Inr budget)"

section \<open>The phase object\<close>

text \<open>\<open>progress\<close> at a clock reading; the deadline is \<open>start + duration\<close>.\<close>

definition phase_remaining :: "rat \<Rightarrow> phase \<Rightarrow> rat \<Rightarrow> rat" where
  "phase_remaining start ph t = max 0 (fl (fl (start + of_int (ph_duration ph)) - t))"

definition phase_progress :: "rat \<Rightarrow> phase \<Rightarrow> rat \<Rightarrow> rat option" where
  "phase_progress start ph t = (if ph_duration ph \<le> 0 then None
     else Some (min 1 (fl (fl (t - start) / of_int (ph_duration ph)))))"

definition logfile :: "ctx \<Rightarrow> phase \<Rightarrow> string \<Rightarrow> string" where
  "logfile c ph suffix = path_join (path_join (s_dir (c_session c)) ''logs'') (ph_name ph @ ''-'' @ suffix @ ''.log'')"

definition stopped :: "ctx \<Rightarrow> bool" where
  "stopped c = c_abort c"

definition set_note :: "string \<Rightarrow> ctx \<Rightarrow> ctx" where
  "set_note s c = c\<lparr>c_status_note := s\<rparr>"

section \<open>stress-ng\<close>

definition STRESSNG_FAIL_RE :: regex where
  "STRESSNG_FAIL_RE = re_compile re_I ''verif|checksum|mismatch|miscompar|killed by signal|SIGSEGV|SIGILL|SIGBUS''"

definition CPU_STRESSORS :: "(string \<times> string list) list" where
  "CPU_STRESSORS = [(''cpu'', [''--cpu'', ''0'', ''--cpu-method'', ''all'']),
     (''matrix'', [''--matrix'', ''0'', ''--matrix-method'', ''all'']), (''vecmath'', [''--vecmath'', ''0'']),
     (''vecwide'', [''--vecwide'', ''0'']), (''vecfp'', [''--vecfp'', ''0'']), (''fma'', [''--fma'', ''0'']),
     (''fp'', [''--fp'', ''0'']), (''intmath'', [''--intmath'', ''0'']), (''hash'', [''--hash'', ''0'']),
     (''crypt'', [''--crypt'', ''0'']), (''ipsec-mb'', [''--ipsec-mb'', ''0'']), (''zlib'', [''--zlib'', ''0'']),
     (''cache'', [''--cache'', ''0'']), (''l1cache'', [''--l1cache'', ''0'']), (''branch'', [''--branch'', ''0'']),
     (''bitops'', [''--bitops'', ''0'']), (''memcpy'', [''--memcpy'', ''0'']), (''trig'', [''--trig'', ''0'']),
     (''prime'', [''--prime'', ''0'']), (''tsc'', [''--tsc'', ''0'']), (''vnni'', [''--vnni'', ''0'']),
     (''matrix-3d'', [''--matrix-3d'', ''0''])]"

definition stressng_cmd :: "string list \<Rightarrow> int \<Rightarrow> string list" where
  "stressng_cmd args seconds = [''stress-ng''] @ args @ [''--verify'', ''--metrics-brief'', ''--timeout'',
     int_str seconds @ ''s'', ''--temp-path'', ''/tmp'', ''--oom-avoid'']"

definition fail_lines :: "string \<Rightarrow> string list" where
  "fail_lines output = map strip (filter (\<lambda>l. str_in ''stress-ng: fail:'' l \<or>
     (str_in ''stress-ng: error:'' l \<and> re_found STRESSNG_FAIL_RE l)) (splitlines output))"

definition quoted :: "string \<Rightarrow> string" where
  "quoted s = [CHR 0x27] @ s @ [CHR 0x27]"

definition stressng_fail :: "string \<Rightarrow> string \<Rightarrow> int option \<Rightarrow> string \<Rightarrow> event" where
  "stressng_fail name label rc output = (event (''stressng-fail:'' @ name @ '':'' @ label) FAIL ''CPU/Memory''
     (''stress-ng '' @ quoted label @ '' detected a computation/verification failure''))
     \<lparr>ev_detail := ''A stress workload produced wrong results or crashed. This is the typical symptom of an unstable CPU, memory, VRM or overclock/XMP settings.'',
      ev_recommendation := REC_CPU_MEM,
      ev_evidence := (if fail_lines output \<noteq> [] then last_lines 15 (fail_lines output) else [''exit code '' @ rc_text rc])\<rparr>"

definition stressng_unsupported :: "string \<Rightarrow> event" where
  "stressng_unsupported label = event (''stressng-unsupported:'' @ label) WARN ''Test''
     (''stress-ng '' @ quoted label @ '' is unsupported on this platform'')"

definition stressng_rc :: "string \<Rightarrow> int option \<Rightarrow> string \<Rightarrow> event" where
  "stressng_rc label rc output = (event (''stressng-rc:'' @ label) WARN ''Test''
     (''stress-ng '' @ quoted label @ '' did not complete successfully (code '' @ rc_text rc @ '')''))
     \<lparr>ev_incomplete := True,
      ev_evidence := last_lines 10 (filter (\<lambda>l. str_in ''error'' (py_lower l)) (splitlines output))\<rparr>"

definition stressng_events :: "string \<Rightarrow> string \<Rightarrow> int option \<Rightarrow> string \<Rightarrow> event list" where
  "stressng_events name label rc output =
    (if rc \<in> {Some 2, Some 5} \<or> fail_lines output \<noteq> [] then [stressng_fail name label rc output]
     else if rc = Some 4 then [stressng_unsupported label]
     else if rc \<noteq> Some 0 \<or> \<not> str_in ''successful run completed'' output then [stressng_rc label rc output]
     else [])"

definition check_stressng :: "string \<Rightarrow> string \<Rightarrow> string \<Rightarrow> int option \<Rightarrow> string \<Rightarrow> ctx \<Rightarrow> ctx" where
  "check_stressng now name label rc output c = add_events now (stressng_events name label rc output) c"

definition stressng_hang :: "string \<Rightarrow> event" where
  "stressng_hang label = (event (''stressng-hang:'' @ label) FAIL ''CPU/Memory''
     (''stress-ng '' @ quoted label @ '' did not finish (hung workload)''))\<lparr>ev_recommendation := REC_CPU_MEM\<rparr>"

definition stressng_short :: "string \<Rightarrow> string \<Rightarrow> event" where
  "stressng_short name label = (event (''stressng-short:'' @ name @ '':'' @ label) WARN ''Test''
     (''stress-ng '' @ quoted label @ '' ended before its allotted test time''))\<lparr>ev_incomplete := True\<rparr>"

text \<open>The result is the returned code, or the exception of starting the program.\<close>

definition run_stressng :: "string \<Rightarrow> phase \<Rightarrow> string \<Rightarrow> string list \<Rightarrow> rat \<Rightarrow> tool \<Rightarrow> ctx \<Rightarrow> (exn + int option) \<times> ctx" where
  "run_stressng now ph label args secs tool c =
    (let seconds = max 10 (trunc secs); p = tool (stressng_cmd args seconds) in
     case pr_spawn p of Some e \<Rightarrow> (Inl e, c)
     | None \<Rightarrow>
       let c1 = others (pr_during p) c in
       case pr_rc p of
         None \<Rightarrow> (Inr None, if stopped c1 then c1 else ctx_add now (stressng_hang label) c1)
       | Some rc \<Rightarrow>
         let c2 = check_stressng now (ph_name ph) label (Some rc) (pr_output p) c1 in
         (Inr (Some rc), if rc = 0 \<and> too_short (pr_elapsed p) seconds \<and> \<not> stopped c2
            then ctx_add now (stressng_short (ph_name ph) label) c2 else c2))"

section \<open>The CPU phase\<close>

record turn =
  tn_remaining :: rat         \<comment> \<open>the reading of the loop condition\<close>
  tn_slice_remaining :: rat   \<comment> \<open>the reading for the length of the slice\<close>
  tn_tool :: tool

definition cpu_slice :: "int \<Rightarrow> rat" where
  "cpu_slice duration = min 600 (max 45 (fl (of_int duration / of_nat (length CPU_STRESSORS))))"

definition no_workloads_event :: event where
  "no_workloads_event = (event ''cpu-no-workloads'' WARN ''Test'' ''No CPU stress workloads could run'')\<lparr>ev_incomplete := True\<rparr>"

text \<open>The exit codes with which a stressor is taken out of the rotation.\<close>

definition drops_stressor :: "int option \<Rightarrow> bool" where
  "drops_stressor rc \<longleftrightarrow> rc \<in> {Some 1, Some 3, Some 4, Some 6, Some 7}"

fun cpu_loop :: "string \<Rightarrow> phase \<Rightarrow> turn list \<Rightarrow> nat \<Rightarrow> (string \<times> string list) list \<Rightarrow> ctx \<Rightarrow> outcome" where
  "cpu_loop now ph [] i stressors c = ok c"
| "cpu_loop now ph (t # ts) i stressors c =
    (if \<not> (tn_remaining t > 20 \<and> \<not> stopped c) then ok c
     else if stressors = [] then ok (ctx_add now no_workloads_event c)
     else let (label, args) = stressors ! (i mod length stressors);
              r = run_stressng now ph label args (min (cpu_slice (ph_duration ph)) (tn_slice_remaining t)) (tn_tool t)
                    (set_note (''stress-ng '' @ label) c)
          in (case fst r of Inl e \<Rightarrow> raise e (snd r)
              | Inr rc \<Rightarrow> cpu_loop now ph ts (i + 1)
                  (if drops_stressor rc then remove1 (label, args) stressors else stressors) (snd r)))"

definition cpu_run :: "string \<Rightarrow> phase \<Rightarrow> turn list \<Rightarrow> ctx \<Rightarrow> outcome" where
  "cpu_run now ph turns c = cpu_loop now ph turns 0 CPU_STRESSORS c"

section \<open>stressapptest and the memory phase\<close>

definition SAT_INCIDENTS_RE :: regex where
  "SAT_INCIDENTS_RE = re_compile no_flags (raw ''Found (`d+) hardware incidents'')"

definition SAT_ERROR_RE :: regex where
  "SAT_ERROR_RE = re_compile no_flags ''Hardware Error|Report Error|miscompare|Error: .*(?:DIMM|CPU)|Status: FAIL''"

definition sat_incidents :: "string \<Rightarrow> int" where
  "sat_incidents output = (case re_search SAT_INCIDENTS_RE output of None \<Rightarrow> 0
     | Some m \<Rightarrow> digits_value (the_default [] (m_group m 1)))"

definition sat_errors :: "string \<Rightarrow> string list" where
  "sat_errors output = map strip (filter (re_found SAT_ERROR_RE) (splitlines output))"

definition sat_failed :: "string \<Rightarrow> bool" where
  "sat_failed output \<longleftrightarrow> sat_incidents output \<noteq> 0 \<or> sat_errors output \<noteq> [] \<or> str_in ''Status: FAIL'' output"

definition sat_fail :: "string \<Rightarrow> string \<Rightarrow> event" where
  "sat_fail name output = (event (''sat-fail:'' @ name) FAIL ''Memory'' (''stressapptest found '' @
     (if sat_incidents output \<noteq> 0 then int_str (sat_incidents output) else ''some'') @ '' memory/CPU data errors''))
     \<lparr>ev_detail := ''stressapptest (Google's server burn-in tool) detected corrupted data. The DIMM or CPU memory controller is unstable.'',
      ev_recommendation := REC_MEMORY, ev_evidence := take 25 (sat_errors output)\<rparr>"

definition sat_rc :: "string \<Rightarrow> int option \<Rightarrow> string \<Rightarrow> event" where
  "sat_rc name rc output = (event (''sat-rc:'' @ name) WARN ''Test''
     (''stressapptest did not complete successfully (exit code '' @ rc_text rc @ '')''))
     \<lparr>ev_incomplete := True, ev_evidence := last_lines 10 (splitlines (strip output))\<rparr>"

definition sat_events :: "string \<Rightarrow> int option \<Rightarrow> string \<Rightarrow> event list" where
  "sat_events name rc output =
    (if sat_failed output then [sat_fail name output]
     else if rc \<noteq> Some 0 \<or> \<not> str_in ''Status: PASS'' output then [sat_rc name rc output] else [])"

definition check_stressapptest :: "string \<Rightarrow> string \<Rightarrow> int option \<Rightarrow> string \<Rightarrow> ctx \<Rightarrow> ctx" where
  "check_stressapptest now name rc output c = add_events now (sat_events name rc output) c"

definition sat_hang :: "string \<Rightarrow> event" where
  "sat_hang name = (event (''sat-hang:'' @ name) FAIL ''CPU/Memory'' ''stressapptest hung'')\<lparr>ev_recommendation := REC_CPU_MEM\<rparr>"

definition sat_short :: "string \<Rightarrow> event" where
  "sat_short name = (event (''sat-short:'' @ name) WARN ''Test'' ''stressapptest ended before its allotted test time'')
     \<lparr>ev_incomplete := True\<rparr>"

definition run_stressapptest :: "string \<Rightarrow> phase \<Rightarrow> rat \<Rightarrow> int \<Rightarrow> string list \<Rightarrow> tool \<Rightarrow> ctx \<Rightarrow> outcome" where
  "run_stressapptest now ph secs mem_mib extra tool c =
    (let seconds = max 30 (trunc secs);
         c0 = set_note (''stressapptest '' @ int_str mem_mib @ '' MiB'') c;
         p = tool ([''stressapptest'', ''-s'', int_str seconds, ''-M'', int_str mem_mib, ''-v'', ''8''] @ extra)
     in case pr_spawn p of Some e \<Rightarrow> raise e c0
     | None \<Rightarrow>
       let c1 = others (pr_during p) c0 in
       case pr_rc p of
         None \<Rightarrow> ok (if stopped c1 then c1 else ctx_add now (sat_hang (ph_name ph)) c1)
       | Some rc \<Rightarrow>
         let c2 = check_stressapptest now (ph_name ph) (Some rc) (pr_output p) c1 in
         ok (if rc = 0 \<and> too_short (pr_elapsed p) seconds \<and> \<not> stopped c2
             then ctx_add now (sat_short (ph_name ph)) c2 else c2))"

text \<open>The readings of the memory phase: the memory information before each budget, the remaining time
  before the second workload.\<close>

record memory_env =
  me_have_sat :: bool
  me_cpus :: "int option"
  me_sys1 :: sys
  me_sys2 :: sys
  me_remaining :: rat
  me_sat :: tool
  me_vm :: tool

definition sat_missing_event :: event where
  "sat_missing_event = (event ''sat-missing'' WARN ''Test'' ''stressapptest is unavailable'')\<lparr>ev_incomplete := True\<rparr>"

definition vm_args :: "int \<Rightarrow> int \<Rightarrow> string list" where
  "vm_args workers budget = [''--vm'', int_str workers, ''--vm-bytes'', int_str budget @ ''M'', ''--vm-method'', ''all'', ''--vm-keep'']"

definition memory_sat :: "string \<Rightarrow> phase \<Rightarrow> memory_env \<Rightarrow> ctx \<Rightarrow> outcome" where
  "memory_sat now ph env c =
    (if me_have_sat env
     then lift_ex (mem_budget_mib (me_sys1 env) (fl (92 / 100))) (\<lambda>budget.
       run_stressapptest now ph (of_int (trunc (fl (fl (of_int (ph_duration ph)) * fl (7 / 10))))) budget
         [''-W'', ''-i'', ''2'', ''--pause_delay'', ''900'', ''--pause_duration'', ''15''] (me_sat env)) c
     else ok (ctx_add now sat_missing_event c))"

definition memory_run :: "string \<Rightarrow> phase \<Rightarrow> memory_env \<Rightarrow> ctx \<Rightarrow> outcome" where
  "memory_run now ph env c = andthen (memory_sat now ph env c) (\<lambda>c.
     if stopped c then ok c
     else lift_ex (mem_budget_mib (me_sys2 env) (fl (85 / 100))) (\<lambda>budget c.
       let workers = max 1 (min (min (cpu_count (me_cpus env)) 16) (budget div 64));
           r = run_stressng now ph ''vm'' (vm_args workers budget) (me_remaining env) (me_vm env)
                 (set_note ''stress-ng vm (all patterns)'' c)
       in (case fst r of Inl e \<Rightarrow> raise e (snd r) | Inr _ \<Rightarrow> ok (snd r))) c)"

section \<open>The y-cruncher phase\<close>

definition YCRUNCHER :: string where
  "YCRUNCHER = ''/opt/y-cruncher/y-cruncher''"

record yc_env =
  ye_access :: bool           \<comment> \<open>\<open>os.access(YCRUNCHER, os.X_OK)\<close>\<close>
  ye_affinity :: "int list"
  ye_sys :: sys
  ye_remaining :: rat
  ye_proc :: proc
  ye_lines :: "string list"   \<comment> \<open>the log from the start of this invocation\<close>

definition ycruncher_missing_event :: event where
  "ycruncher_missing_event = (event ''ycruncher-missing'' WARN ''Test''
     ''y-cruncher is unavailable; its scheduled coverage is missing'')\<lparr>ev_incomplete := True\<rparr>"

text \<open>SIGSEGV, SIGBUS, SIGILL, SIGABRT and SIGFPE.\<close>

definition CRASH_SIGNALS :: "int list" where
  "CRASH_SIGNALS = [11, 7, 4, 6, 8]"

definition crashed :: "int option \<Rightarrow> bool" where
  "crashed rc \<longleftrightarrow> (\<exists>sig \<in> set CRASH_SIGNALS. rc = Some (- sig) \<or> rc = Some (128 + sig))"

definition yc_fail :: "evidence \<Rightarrow> int option \<Rightarrow> event" where
  "yc_fail ev rc = (event ''ycruncher-fail'' FAIL ''CPU/Memory'' ''y-cruncher detected a calculation failure or workload crash'')
     \<lparr>ev_detail := ''The CPU/cache/memory path is unstable, or the workload has a software fault. This result alone cannot identify a defective DIMM or CPU.'',
      ev_recommendation := REC_CPU_MEM,
      ev_evidence := (if y_faults ev \<noteq> [] then y_faults ev else (''exit code '' @ rc_text rc) # y_tail ev)\<rparr>"

definition yc_incomplete :: "string list \<Rightarrow> event" where
  "yc_incomplete gaps = (event ''ycruncher-incomplete'' WARN ''Test'' ''y-cruncher did not complete all scheduled coverage'')
     \<lparr>ev_incomplete := True, ev_evidence := (if gaps \<noteq> [] then gaps else [''Test interrupted by an abort request''])\<rparr>"

text \<open>The list of nodes is formatted as Python prints it.  The counts exist: there are no gaps.\<close>

definition yc_ok :: "evidence \<Rightarrow> int list \<Rightarrow> rat \<Rightarrow> event" where
  "yc_ok ev cores elapsed = (event ''ycruncher-ok'' INFO ''CPU/Memory'' ''y-cruncher completed all six verified algorithms'')
     \<lparr>ev_evidence := [y_version ev, nat_str (length cores) @ '' cores; '' @ fixed 0 elapsed @ '' seconds; allocation NUMA nodes: '' @
        py_repr (PList (map PInt (y_nodes ev)))] @
        map (\<lambda>tag. tag @ '': '' @ int_str (dict_get (y_passed ev) tag 0) @ '' successful tests'') YC_TESTS\<rparr>"

definition yc_check_result :: "string \<Rightarrow> evidence \<Rightarrow> int list \<Rightarrow> int \<Rightarrow> rat \<Rightarrow> int option \<Rightarrow> ctx \<Rightarrow> ctx" where
  "yc_check_result now ev cores seconds elapsed rc c =
    (let c1 = (if y_faults ev \<noteq> [] \<or> (crashed rc \<and> \<not> stopped c) then ctx_add now (yc_fail ev rc) c else c);
         gaps = yc_coverage_gaps ev cores seconds elapsed rc
     in if gaps \<noteq> [] \<or> stopped c1 then ctx_add now (yc_incomplete gaps) c1
        else if y_faults ev = [] then ctx_add now (yc_ok ev cores elapsed) c1 else c1)"

definition yc_note :: "int list \<Rightarrow> int \<Rightarrow> string" where
  "yc_note cores memory = ''y-cruncher, '' @ nat_str (length cores) @ '' cores, '' @ int_str memory @ '' MiB, six verified algorithms''"

definition ycruncher_run :: "string \<Rightarrow> yc_env \<Rightarrow> ctx \<Rightarrow> outcome" where
  "ycruncher_run now env c =
    (if \<not> ye_access env then ok (ctx_add now ycruncher_missing_event c)
     else let cores = sort (ye_affinity env); seconds = max 1 (trunc (ye_remaining env)); p = ye_proc env in
       lift_ex (mem_budget_mib (ye_sys env) (fl (85 / 100))) (\<lambda>memory.
       lift_ex (yc_configuration cores memory seconds) (\<lambda>config c.
         let c1 = set_note (yc_note cores memory) c in
         case pr_spawn p of Some e \<Rightarrow> raise e c1
         | None \<Rightarrow> lift_ex (read_evidence (ye_lines env)) (\<lambda>ev c.
             ok (yc_check_result now ev cores seconds (pr_elapsed p) (pr_rc p) c)) (others (pr_during p) c1))) c)"

section \<open>The Prime95 phase\<close>

definition MPRIME_ERROR_RE :: regex where
  "MPRIME_ERROR_RE = re_compile re_I (raw (''FATAL ERROR|Hardware failure detected|Possible hardware failure|ROUND ?OFF|'' @
     ''SUM`(INPUTS`) != SUM`(OUTPUTS`)|TORTURE TEST FAILED|Rounding was .* expected less than|'' @
     ''illegal (?:sumout|instruction)|`b[1-9]`d* errors?, `d+ warnings?|'' @ ''Torture test.*[1-9]`d* errors''))"

definition SELF_TEST_RE :: regex where
  "SELF_TEST_RE = re_compile no_flags (raw ''Self-test `S+ passed'')"

record mprime_env =
  mp_access :: bool
  mp_cpus :: "int option"
  mp_sys :: sys
  mp_remaining :: rat       \<comment> \<open>for the fallback workload\<close>
  mp_fallback :: tool
  mp_proc :: proc
  mp_results :: string      \<comment> \<open>\<open>results.txt\<close>\<close>
  mp_left :: rat            \<comment> \<open>the deadline minus the clock after the run\<close>

definition mprime_missing_event :: event where
  "mprime_missing_event = event ''mprime-missing'' WARN ''Test''
     ''Prime95 (mprime) not included in this image; ran extra stress-ng load instead''"

definition mprime_config :: "int \<Rightarrow> int \<Rightarrow> string" where
  "mprime_config threads mem = concat (map (\<lambda>l. l @ newline)
     [''V24OptionsConverted=1'', ''V30OptionsConverted=1'', ''WGUID_version=2'', ''StressTester=1'', ''UsePrimenet=0'',
      ''OutputIterations=10000'', ''ResultsFile=results.txt'', ''TortureThreads='' @ int_str threads, ''TortureHyperthreading=1'',
      ''TortureTime=6'', ''MinTortureFFT=4'', ''MaxTortureFFT=8192'', ''TortureMem='' @ int_str mem, ''TortureWeak=0''])"

definition mprime_errors :: "string \<Rightarrow> string list" where
  "mprime_errors output = map strip (filter (re_found MPRIME_ERROR_RE) (splitlines output))"

definition mprime_passed :: "string \<Rightarrow> nat" where
  "mprime_passed output = length (re_findall SELF_TEST_RE output)"

definition mprime_fail :: "string list \<Rightarrow> event" where
  "mprime_fail errors = (event ''mprime-fail'' FAIL ''CPU/Memory'' ''Prime95 torture test detected calculation errors'')
     \<lparr>ev_detail := ''Prime95 verifies FFT results; errors mean the CPU, memory or VRM produced wrong results under sustained AVX load.'',
      ev_recommendation := REC_CPU_MEM, ev_evidence := take 20 errors\<rparr>"

definition mprime_exit :: "int option \<Rightarrow> string \<Rightarrow> event" where
  "mprime_exit rc output = (event ''mprime-exit'' WARN ''Test'' (''mprime exited early (code '' @ rc_text rc @ '')''))
     \<lparr>ev_incomplete := True, ev_evidence := last_lines 10 (splitlines (strip output))\<rparr>"

definition mprime_unverified :: event where
  "mprime_unverified = (event ''mprime-unverified'' WARN ''Test'' ''Prime95 produced no completed FFT self-tests'')
     \<lparr>ev_incomplete := True\<rparr>"

definition mprime_output :: "mprime_env \<Rightarrow> string" where
  "mprime_output env = pr_output (mp_proc env) @ newline @ mp_results env"

definition mprime_judge :: "string \<Rightarrow> mprime_env \<Rightarrow> ctx \<Rightarrow> ctx" where
  "mprime_judge now env c =
    (let output = mprime_output env; errors = mprime_errors output; rc = pr_rc (mp_proc env);
         c1 = (if errors \<noteq> [] then ctx_add now (mprime_fail errors) c
               else if rc \<noteq> None \<and> mp_left env > 60 \<and> \<not> stopped c then ctx_add now (mprime_exit rc output) c else c)
     in if errors = [] \<and> mprime_passed output = 0 \<and> \<not> stopped c1 then ctx_add now mprime_unverified c1 else c1)"

definition mprime_run :: "string \<Rightarrow> phase \<Rightarrow> mprime_env \<Rightarrow> ctx \<Rightarrow> outcome" where
  "mprime_run now ph env c =
    (if \<not> mp_access env
     then (let r = run_stressng now ph ''matrix-fallback'' [''--matrix'', ''0'', ''--matrix-method'', ''all'', ''--vecwide'', ''0'']
                     (mp_remaining env) (mp_fallback env) (ctx_add now mprime_missing_event c)
           in case fst r of Inl e \<Rightarrow> raise e (snd r) | Inr _ \<Rightarrow> ok (snd r))
     else lift_ex (mem_budget_mib (mp_sys env) (fl (75 / 100))) (\<lambda>mem c.
       let threads = cpu_count (mp_cpus env); p = mp_proc env;
           c1 = set_note (''mprime blend, '' @ int_str threads @ '' threads, '' @ int_str mem @ '' MiB'') c
       in case pr_spawn p of Some e \<Rightarrow> raise e c1 | None \<Rightarrow> ok (mprime_judge now env (others (pr_during p) c1))) c)"

section \<open>The load transients\<close>

definition PATTERNS :: "(string \<times> (rat \<times> rat) \<times> (rat \<times> rat) \<times> rat) list" where
  "PATTERNS = [(''fast'', (fl (5 / 100), fl (5 / 10)), (fl (5 / 100), fl (5 / 10)), 60),
     (''medium'', (2, 20), (1, 15), 300), (''slow'', (30, 180), (20, 120), 900)]"

text \<open>The end of one sleep: never past the deadline of the phase.\<close>

definition sleep_end :: "rat \<Rightarrow> rat \<Rightarrow> rat \<Rightarrow> rat" where
  "sleep_end t seconds deadline = min (fl (t + seconds)) deadline"

text \<open>
  A turn of the inner loop is \<open>True\<close> when the deadline was not reached after the load half, so that
  the idle half follows; a block ends with its first \<open>False\<close>.  The signals are those sent to the
  workload.
\<close>

datatype load_signal = SIGCONT | SIGSTOP

fun block_steps :: "bool list \<Rightarrow> nat \<times> load_signal list" where
  "block_steps [] = (0, [])"
| "block_steps (True # ts) = (case block_steps ts of (n, sigs) \<Rightarrow> (n + 2, SIGCONT # SIGSTOP # sigs))"
| "block_steps (False # ts) = (0, [SIGCONT])"

definition transient_steps :: "bool list list \<Rightarrow> nat \<times> load_signal list" where
  "transient_steps blocks = (sum_list (map (fst \<circ> block_steps) blocks), concat (map (snd \<circ> block_steps) blocks) @ [SIGCONT])"

record transient_env =
  te_sys :: sys
  te_cpus :: "int option"
  te_tool :: tool                \<comment> \<open>its \<open>pr_rc\<close> is the poll after the loop\<close>
  te_blocks :: "bool list list"
  te_remaining :: rat
  te_stop_rc :: "int option"     \<comment> \<open>the wait after SIGINT\<close>

definition transient_cmd :: "int \<Rightarrow> int \<Rightarrow> int \<Rightarrow> string list" where
  "transient_cmd workers budget duration = [''stress-ng'', ''--cpu'', ''0'', ''--cpu-method'', ''matrixprod'',
     ''--vm'', int_str workers, ''--vm-bytes'', int_str budget @ ''M'', ''--vm-method'', ''all'', ''--verify'', ''--metrics-brief'',
     ''--timeout'', int_str (duration + 900) @ ''s'', ''--temp-path'', ''/tmp'', ''--oom-avoid'']"

definition transient_short_event :: event where
  "transient_short_event = (event ''transient-short'' WARN ''Test'' ''Load transient workload exited early'')\<lparr>ev_incomplete := True\<rparr>"

definition transient_hang_event :: event where
  "transient_hang_event = event ''transient-hang'' WARN ''Test'' ''stress-ng did not stop after the transient phase''"

definition transient_steps_event :: "nat \<Rightarrow> event" where
  "transient_steps_event steps = event ''transient-steps'' INFO ''Power''
     (''Load transient phase: '' @ nat_str steps @ '' load steps applied'')"

definition transient_end :: "string \<Rightarrow> phase \<Rightarrow> transient_env \<Rightarrow> proc \<Rightarrow> ctx \<Rightarrow> ctx" where
  "transient_end now ph env p c =
    (let c1 = (if pr_rc p \<noteq> None \<and> te_remaining env > 5 \<and> \<not> stopped c then ctx_add now transient_short_event c else c);
         rc = (if pr_rc p = None then te_stop_rc env else pr_rc p);
         c2 = (if rc = None then ctx_add now transient_hang_event c1 else c1);
         c3 = check_stressng now (ph_name ph) ''transient'' rc (pr_output p) c2
     in ctx_add now (transient_steps_event (fst (transient_steps (te_blocks env)))) c3)"

definition transient_run :: "string \<Rightarrow> phase \<Rightarrow> transient_env \<Rightarrow> ctx \<Rightarrow> outcome" where
  "transient_run now ph env c = lift_ex (mem_budget_mib (te_sys env) (fl (4 / 10))) (\<lambda>budget c.
     let workers = max 1 (min (min (cpu_count (te_cpus env)) 8) (budget div 64));
         p = te_tool env (transient_cmd workers budget (ph_duration ph))
     in case pr_spawn p of Some e \<Rightarrow> raise e c | None \<Rightarrow> ok (transient_end now ph env p (others (pr_during p) c))) c"

section \<open>The idle soak\<close>

definition CPUIDLE_GLOB :: string where
  "CPUIDLE_GLOB = ''/sys/devices/system/cpu/cpu[0-9]*/cpuidle/state[0-9]*''"

definition cstate_step :: "sys \<Rightarrow> string \<Rightarrow> (string, int) dict \<Rightarrow> (string, int) dict" where
  "cstate_step sy path usage = (let name = strip (read_file sy (path_join path ''name''));
       t = strip (read_file sy (path_join path ''time''))
     in case (if t = [] then Some 0 else py_int t) of None \<Rightarrow> usage
        | Some n \<Rightarrow> AList.update name (dict_get usage name 0 + n) usage)"

definition cstate_usage :: "sys \<Rightarrow> (string, int) dict" where
  "cstate_usage sy = fold (cstate_step sy) (glob sy CPUIDLE_GLOB) []"

definition idle_used :: "(string, int) dict \<Rightarrow> (string, int) dict \<Rightarrow> (string, int) dict" where
  "idle_used before after = map (\<lambda>(k, v). (k, v - dict_get before k 0)) (filter (\<lambda>(k, v). v > dict_get before k 0) after)"

definition idle_event :: "(string, int) dict \<Rightarrow> event" where
  "idle_event used = (if used \<noteq> []
     then (event ''idle-cstates'' INFO ''CPU'' ''Idle states used during idle soak'')
       \<lparr>ev_evidence := map (\<lambda>(k, v). k @ '': '' @ fixed 0 (fl (fl (of_int v) / 10 ^ 6)) @ '' s total residency'') (sort_key fst used)\<rparr>
     else (event ''idle-unverified'' WARN ''CPU'' ''No CPU idle-state residency could be verified'')
       \<lparr>ev_recommendation := ''Check firmware C-state settings and turbostat residency logs.''\<rparr>)"

definition pause_disks :: "procs \<Rightarrow> ctx \<Rightarrow> ctx" where
  "pause_disks procs c = (if c_dm c = None then c else snd (dm_pause procs c))"

definition resume_disks :: "procs \<Rightarrow> ctx \<Rightarrow> ctx" where
  "resume_disks procs c = (if c_dm c = None then c else snd (dm_resume procs c))"

record idle_env =
  id_before :: sys
  id_after :: sys
  id_procs :: procs
  id_during :: "background list"

definition idle_run :: "string \<Rightarrow> idle_env \<Rightarrow> ctx \<Rightarrow> outcome" where
  "idle_run now env c =
    (let c1 = set_note ''system idle, monitoring'' (pause_disks (id_procs env) c);
         c2 = resume_disks (id_procs env) (others (id_during env) c1)
     in ok (ctx_add now (idle_event (idle_used (cstate_usage (id_before env)) (cstate_usage (id_after env)))) c2))"

section \<open>The combined load\<close>

text \<open>\<open>x > r\<close> and \<open>x >= r\<close> on a JSON value; not a number is a \<open>TypeError\<close>.\<close>

definition py_above :: "bool \<Rightarrow> pyval \<Rightarrow> rat \<Rightarrow> exn + bool" where
  "py_above strict v r = (case v of
     PBool _ \<Rightarrow> (case py_num v of Some x \<Rightarrow> Inr (if strict then pf_less (Fin r) x else pf_le (Fin r) x) | None \<Rightarrow> Inr False)
   | PInt _ \<Rightarrow> (case py_num v of Some x \<Rightarrow> Inr (if strict then pf_less (Fin r) x else pf_le (Fin r) x) | None \<Rightarrow> Inr False)
   | PFloat _ \<Rightarrow> (case py_num v of Some x \<Rightarrow> Inr (if strict then pf_less (Fin r) x else pf_le (Fin r) x) | None \<Rightarrow> Inr False)
   | _ \<Rightarrow> Inl (TypeError ''comparison not supported''))"

definition and_then :: "exn + bool \<Rightarrow> exn + bool \<Rightarrow> exn + bool" where
  "and_then a b = ebind a (\<lambda>x. if x then b else Inr False)"

fun all_ex :: "('a \<Rightarrow> exn + bool) \<Rightarrow> 'a list \<Rightarrow> exn + bool" where
  "all_ex f [] = Inr True"
| "all_ex f (x # xs) = and_then (f x) (all_ex f xs)"

definition fio_cmd :: "block_disk \<Rightarrow> int \<Rightarrow> string \<Rightarrow> string list" where
  "fio_cmd d runtime result_path = [''fio'', ''--readonly'', ''--name=combined-read'', ''--filename='' @ d_path d,
     ''--allow_file_create=0'', ''--rw=randread'', ''--bs=128k'', ''--direct=1'', ''--ioengine=libaio'', ''--iodepth=32'',
     ''--time_based=1'', ''--size=100%'', ''--runtime='' @ int_str runtime, ''--output-format=json'', ''--output='' @ result_path]"

definition iperf_cmd :: "string \<Rightarrow> int \<Rightarrow> string list" where
  "iperf_cmd peer runtime = [''iperf3'', ''-c'', peer, ''--bidir'', ''-t'', int_str runtime, ''-P'', ''4'', ''--json'']"

definition fio_job_ok :: "int \<Rightarrow> pyval \<Rightarrow> exn + bool" where
  "fio_job_ok duration j =
    and_then (ebind (py_get j ''error'' PNone) (\<lambda>v. Inr (py_eq_int v 0)))
      (and_then (ebind (py_path j [''read'', ''io_bytes''] (PInt 0)) (\<lambda>v. py_above True v 0))
        (ebind (py_path j [''read'', ''runtime''] (PInt 0)) (\<lambda>v. py_above False v (of_int (duration * 900)))))"

definition fio_verified :: "int \<Rightarrow> pyval \<Rightarrow> exn + bool" where
  "fio_verified duration data = ebind (py_get data ''jobs'' (PList [])) (\<lambda>jobs.
     if \<not> truthy jobs then Inr False else ebind (py_iter jobs) (all_ex (fio_job_ok duration)))"

text \<open>\<open>output[output.index("{"):]\<close>.\<close>

definition json_part :: "string \<Rightarrow> string option" where
  "json_part output = (if CHR 0x7B \<in> set output then Some (dropWhile (\<lambda>ch. ch \<noteq> CHR 0x7B) output) else None)"

definition iperf_stream_ok :: "int \<Rightarrow> pyval \<Rightarrow> exn + bool" where
  "iperf_stream_ok duration v = (case v of
     PDict _ \<Rightarrow> and_then (ebind (py_get v ''bytes'' (PInt 0)) (\<lambda>b. py_above True b 0))
       (ebind (py_get v ''seconds'' (PInt 0)) (\<lambda>t. py_above False t (fl (fl (of_int duration) * fl (9 / 10)))))
   | _ \<Rightarrow> Inr False)"

fun py_values :: "pyval \<Rightarrow> exn + pyval list" where
  "py_values (PDict d) = Inr (map snd d)"
| "py_values _ = Inl (AttributeError ''object has no attribute 'values' '')"

definition iperf_data_ok :: "int \<Rightarrow> pyval \<Rightarrow> exn + bool" where
  "iperf_data_ok duration data =
    ebind (py_get data ''end'' (PDict [])) (\<lambda>totals. ebind (py_get data ''error'' PNone) (\<lambda>err.
      if truthy err \<or> \<not> truthy totals then Inr False
      else ebind (py_values totals) (any_ex (iperf_stream_ok duration))))"

definition value_or_type_error :: "exn \<Rightarrow> bool" where
  "value_or_type_error e = (case e of ValueError _ \<Rightarrow> True | TypeError _ \<Rightarrow> True | _ \<Rightarrow> False)"

definition iperf_verified :: "(string \<Rightarrow> pyval option) \<Rightarrow> int \<Rightarrow> string \<Rightarrow> exn + bool" where
  "iperf_verified json duration output = (case Option.bind (json_part output) json of
     None \<Rightarrow> Inr False
   | Some data \<Rightarrow> (case iperf_data_ok duration data of
       Inl e \<Rightarrow> if value_or_type_error e then Inr False else Inl e
     | Inr b \<Rightarrow> Inr b))"

record combined_env =
  co_sys :: sys
  co_cpus :: "int option"
  co_procs :: procs
  co_remaining :: rat
  co_tool :: tool
  co_unlink :: "string \<Rightarrow> exn option"       \<comment> \<open>an error other than a missing file\<close>
  co_result :: "string \<Rightarrow> pyval"            \<comment> \<open>\<open>load_json(path, {})\<close>\<close>

type_synonym load = "string \<times> proc \<times> string option"

definition runtime_of :: "combined_env \<Rightarrow> int" where
  "runtime_of env = max 1 (trunc (co_remaining env))"

definition no_network_event :: event where
  "no_network_event = (event ''network-not-loaded'' WARN ''Network'' ''No iperf3 peer configured; network ports were not load-tested'')
     \<lparr>ev_recommendation := ''Set iperf3 to a test peer; qualify every production port separately.''\<rparr>"

definition combined_load_event :: "string \<Rightarrow> int option \<Rightarrow> string \<Rightarrow> event" where
  "combined_load_event label rc output = (event (''combined-load:'' @ label) WARN ''Test''
     (''Combined '' @ label @ '' load did not complete (exit '' @ rc_text rc @ '')''))
     \<lparr>ev_incomplete := True, ev_evidence := last_lines 10 (splitlines output)\<rparr>"

definition disk_load :: "phase \<Rightarrow> combined_env \<Rightarrow> ctx \<Rightarrow> block_disk \<Rightarrow> exn + load" where
  "disk_load ph env c d = (let label = ''disk-'' @ d_name d; result_path = logfile c ph label @ ''.json'' in
     case co_unlink env result_path of Some e \<Rightarrow> Inl e
     | None \<Rightarrow> (let p = co_tool env (fio_cmd d (runtime_of env) result_path) in
         case pr_spawn p of Some e \<Rightarrow> Inl e | None \<Rightarrow> Inr (label, p, Some result_path)))"

fun disk_loads :: "phase \<Rightarrow> combined_env \<Rightarrow> ctx \<Rightarrow> block_disk list \<Rightarrow> exn + load list" where
  "disk_loads ph env c [] = Inr []"
| "disk_loads ph env c (d # ds) = ebind (disk_load ph env c d) (\<lambda>l. ebind (disk_loads ph env c ds) (\<lambda>ls. Inr (l # ls)))"

definition net_load :: "string \<Rightarrow> combined_env \<Rightarrow> ctx \<Rightarrow> (exn + load list) \<times> ctx" where
  "net_load now env c = (if iperf3 (c_opts c) \<noteq> []
     then (let p = co_tool env (iperf_cmd (iperf3 (c_opts c)) (runtime_of env)) in
       (case pr_spawn p of Some e \<Rightarrow> Inl e | None \<Rightarrow> Inr [(''iperf3'', p, None)], c))
     else (Inr [], ctx_add now no_network_event c))"

definition load_verified :: "(string \<Rightarrow> pyval option) \<Rightarrow> phase \<Rightarrow> combined_env \<Rightarrow> load \<Rightarrow> exn + bool" where
  "load_verified json ph env = (\<lambda>(label, p, result). case result of
     Some path \<Rightarrow> fio_verified (ph_duration ph) (co_result env path)
   | None \<Rightarrow> iperf_verified json (ph_duration ph) (pr_output p))"

fun judge_loads :: "(string \<Rightarrow> pyval option) \<Rightarrow> string \<Rightarrow> phase \<Rightarrow> combined_env \<Rightarrow> load list \<Rightarrow> ctx \<Rightarrow> outcome" where
  "judge_loads json now ph env [] c = ok c"
| "judge_loads json now ph env ((label, p, result) # ls) c =
    (let c1 = others (pr_during p) c in
     if stopped c1 then ok c1
     else lift_ex (load_verified json ph env (label, p, result)) (\<lambda>verified c.
       judge_loads json now ph env ls (if pr_rc p \<noteq> Some 0 \<or> \<not> verified
         then ctx_add now (combined_load_event label (pr_rc p) (pr_output p)) c else c)) c1)"

text \<open>The body of the \<open>try\<close>; the \<open>finally\<close> stops the programs and resumes the disk tests.\<close>

definition combined_body :: "(string \<Rightarrow> pyval option) \<Rightarrow> string \<Rightarrow> phase \<Rightarrow> combined_env \<Rightarrow> ctx \<Rightarrow> outcome" where
  "combined_body json now ph env c =
    lift_ex (block_disks json (co_sys env) (case c_dm c of Some dm \<Rightarrow> dm_exclude dm | None \<Rightarrow> [c_boot_disk c])) (\<lambda>disks c.
    lift_ex (disk_loads ph env c disks) (\<lambda>loads c.
    (case net_load now env c of (r, c1) \<Rightarrow> lift_ex r (\<lambda>net c.
    lift_ex (mem_budget_mib (co_sys env) (fl (85 / 100))) (\<lambda>budget c.
    andthen (run_stressapptest now ph (co_remaining env) budget
        [''-W'', ''-C'', int_str (max 1 (cpu_count (co_cpus env) div 2)), ''--pause_delay'', ''600'', ''--pause_duration'', ''10'']
        (co_tool env) c)
      (judge_loads json now ph env (loads @ net))) c) c1)) c) c"

definition combined_run :: "(string \<Rightarrow> pyval option) \<Rightarrow> string \<Rightarrow> phase \<Rightarrow> combined_env \<Rightarrow> ctx \<Rightarrow> outcome" where
  "combined_run json now ph env c = (case combined_body json now ph env (pause_disks (co_procs env) c) of
     (e, c1) \<Rightarrow> (e, resume_disks (co_procs env) c1))"

section \<open>Reboot cycles\<close>

definition take_snapshot :: "(string \<Rightarrow> pyval option) \<Rightarrow> sys \<Rightarrow> int option \<Rightarrow> exn + snapshot" where
  "take_snapshot json sy cpus = ebind (block_disks json sy []) (\<lambda>disks. Inr
     \<lparr>sn_cpus = cpu_count cpus, sn_memory_mib = dict_get (meminfo sy) ''MemTotal'' 0 div 2 ^ 20,
      sn_dimms = sort (map (\<lambda>d. di_locator d @ '':'' @ di_serial d @ '':'' @ int_str (di_size d))
        (dimms_from_dmi (parse_dmidecode (out sy [''dmidecode''])))),
      sn_disks = sort (map (\<lambda>d. disk_id d @ '':'' @ int_str (d_size d)) disks),
      sn_nics = sort (map (\<lambda>p. strip (read_file sy (path_join (dirname p) ''address''))) (glob sy ''/sys/class/net/*/device''))\<rparr>)"

text \<open>The compared components: key, label and the value as text.\<close>

definition snapshot_parts :: "snapshot \<Rightarrow> (string \<times> string \<times> pyval) list" where
  "snapshot_parts s = [(''cpus'', ''logical CPUs'', PInt (sn_cpus s)), (''dimms'', ''memory modules'', PList (map PStr (sn_dimms s))),
     (''disks'', ''disks'', PList (map PStr (sn_disks s))), (''nics'', ''network interfaces'', PList (map PStr (sn_nics s)))]"

definition hardware_changed :: "int \<Rightarrow> string \<Rightarrow> string \<Rightarrow> pyval \<Rightarrow> pyval \<Rightarrow> event" where
  "hardware_changed cycle key label old new = (event (''powercycle-missing:'' @ key) FAIL ''System''
     (''Hardware changed after reboot #'' @ int_str cycle @ '': '' @ label @ '' '' @ py_repr old @ '' -> '' @ py_repr new))
     \<lparr>ev_detail := ''A component was not detected after a reboot. Intermittently missing hardware after POST is a classic sign of a failing DIMM/slot, riser, cable or PSU.'',
      ev_recommendation := ''Reseat the missing component; check the BMC/POST log of that boot.''\<rparr>"

definition memory_changed :: "int \<Rightarrow> int \<Rightarrow> int \<Rightarrow> event" where
  "memory_changed cycle old new = (event ''powercycle-memory'' FAIL ''Memory''
     (''Usable memory changed after reboot #'' @ int_str cycle @ '': '' @ int_str old @ '' MiB -> '' @ int_str new @ '' MiB''))
     \<lparr>ev_recommendation := ''Reseat/replace DIMMs; check BIOS memory training and POST messages.''\<rparr>"

definition memory_differs :: "int \<Rightarrow> int \<Rightarrow> bool" where
  "memory_differs old new \<longleftrightarrow> old \<noteq> 0 \<and> of_int \<bar>old - new\<bar> > max 64 (fl (fl (of_int old) * fl (2 / 100)))"

definition part_events :: "int \<Rightarrow> (string \<times> string \<times> pyval) \<times> (string \<times> string \<times> pyval) \<Rightarrow> event list" where
  "part_events cycle = (\<lambda>((key, label, old), (_, _, new)). if old \<noteq> new then [hardware_changed cycle key label old new] else [])"

definition compare_events :: "snapshot \<Rightarrow> snapshot \<Rightarrow> int \<Rightarrow> event list" where
  "compare_events baseline current cycle =
     concat (map (part_events cycle) (zip (snapshot_parts baseline) (snapshot_parts current))) @
     (if memory_differs (sn_memory_mib baseline) (sn_memory_mib current)
      then [memory_changed cycle (sn_memory_mib baseline) (sn_memory_mib current)] else [])"

definition compare_snapshots :: "string \<Rightarrow> snapshot \<Rightarrow> snapshot \<Rightarrow> int \<Rightarrow> ctx \<Rightarrow> ctx" where
  "compare_snapshots now baseline current cycle c = add_events now (compare_events baseline current cycle) c"

record cycle_env =
  cy_clock :: clock
  cy_sys :: sys
  cy_cpus :: "int option"

definition boot_time_event :: "int \<Rightarrow> int \<Rightarrow> event" where
  "boot_time_event n seconds = event ''powercycle-time'' INFO ''System''
     (''Boot after reboot #'' @ int_str n @ '' took about '' @ int_str seconds @ '' s'')"

definition cycles_skipped_event :: event where
  "cycles_skipped_event = (event ''powercycle-skipped'' WARN ''Test''
     ''Reboot cycles skipped: without persistent storage the machine would restart the test forever'')
     \<lparr>ev_recommendation := ''Prepare the USB stick with write-usb.sh so it has a PCCHECKDATA partition, then run the test again.''\<rparr>"

definition cycles_ok_event :: "int \<Rightarrow> event" where
  "cycles_ok_event n = event ''powercycle-ok'' INFO ''System''
     (''Completed '' @ int_str n @ '' reboot/power cycles with the hardware intact'')"

definition cycle_target :: "ctx \<Rightarrow> int" where
  "cycle_target c = max 0 (min 50 (reboot_cycles (c_opts c)))"

definition cycle_check :: "(string \<Rightarrow> pyval option) \<Rightarrow> cycle_env \<Rightarrow> snapshot \<Rightarrow> ctx \<Rightarrow> outcome" where
  "cycle_check json env baseline c = (let n = st_reboot_cycles_done (the_state c) in
     if n = 0 then ok c
     else lift_ex (take_snapshot json (cy_sys env) (cy_cpus env)) (\<lambda>current c.
       let c1 = compare_snapshots (now_iso (cy_clock env)) baseline current n c in
       ok (case st_last_reboot_seconds (the_state c) of
         Some t \<Rightarrow> if t \<noteq> 0 then ctx_add (now_iso (cy_clock env)) (boot_time_event n t) c1 else c1
       | None \<Rightarrow> c1)) c)"

definition cycle_next :: "cycle_env \<Rightarrow> ctx \<Rightarrow> ctx" where
  "cycle_next env c = (let n = st_reboot_cycles_done (the_state c); target = cycle_target c in
     if \<not> c_persistent c then ctx_add (now_iso (cy_clock env)) cycles_skipped_event c
     else if n \<ge> target then ctx_add (now_iso (cy_clock env)) (cycles_ok_event n) c
     else request_reboot (cy_clock env) (n + 1)
       (set_note (''reboot cycle '' @ int_str (n + 1) @ '' of '' @ int_str target @ '': rebooting now'') c))"

definition powercycle_run :: "(string \<Rightarrow> pyval option) \<Rightarrow> cycle_env \<Rightarrow> ctx \<Rightarrow> outcome" where
  "powercycle_run json env c =
    lift_ex (case st_powercycle_baseline (the_state c) of Some b \<Rightarrow> Inr b
             | None \<Rightarrow> take_snapshot json (cy_sys env) (cy_cpus env)) (\<lambda>baseline c.
      andthen (cycle_check json env baseline (put_state (\<lambda>st. st\<lparr>st_powercycle_baseline := Some baseline\<rparr>) c))
        (\<lambda>c. ok (cycle_next env c))) c"

end
