(* ===== verification/PhaseFacts.thy ===== *)
theory PhaseFacts
  imports Phases
begin

text \<open>
  What every phase of \<open>phases.py\<close> guarantees to the orchestrator: it loses no finding, leaves the
  plan and the status of the phases alone and never takes an abort back.  Then the budget of the
  memory workloads, and that a workload that did not run to a clean end always shows in the verdict.
\<close>

section \<open>The phases keep the frame\<close>

lemma note_frame [simp]:
  "the_state (set_note s c) = the_state c" "c_opts (set_note s c) = c_opts c" "c_findings (set_note s c) = c_findings c"
  "c_abort (set_note s c) = c_abort c" "c_dm (set_note s c) = c_dm c" "c_persistent (set_note s c) = c_persistent c"
  "c_session (set_note s c) = c_session c" "c_reboot_request (set_note s c) = c_reboot_request c"
  by (simp_all add: the_state_def set_note_def)

lemma keeps_note [simp]: "keeps c (set_note s c)"
  by (rule keeps_same) simp_all

lemma keeps_act: "keeps c (act b c)"
  by (cases b) simp_all

lemma keeps_others [simp]: "keeps c (others bs c)"
  unfolding others_def by (rule keeps_fold) (rule keeps_act)

lemma keeps_pause [simp]: "keeps c (pause_disks procs c)" "keeps c (resume_disks procs c)"
  by (simp_all add: pause_disks_def resume_disks_def dm_pause_def dm_resume_def)

lemma legal_phase_events [simp]:
  "legal (stressng_fail n l rc out')" "legal (stressng_unsupported l)" "legal (stressng_rc l rc out')" "legal (stressng_hang l)"
  "legal (stressng_short n l)" "legal no_workloads_event" "legal (sat_fail n out')" "legal (sat_rc n rc out')" "legal (sat_hang n)"
  "legal (sat_short n)" "legal sat_missing_event" "legal ycruncher_missing_event" "legal (yc_fail ev rc)" "legal (yc_incomplete g)"
  "legal (yc_ok ev cores el)" "legal mprime_missing_event" "legal (mprime_fail es)" "legal (mprime_exit rc out')"
  "legal mprime_unverified" "legal transient_short_event" "legal transient_hang_event" "legal (transient_steps_event k)"
  "legal (idle_event u)" "legal no_network_event" "legal (combined_load_event l rc out')" "legal (hardware_changed cy key l a b)"
  "legal (memory_changed cy x y)" "legal (boot_time_event m t)" "legal cycles_skipped_event" "legal (cycles_ok_event m)"
  by (simp_all add: stressng_fail_def stressng_unsupported_def stressng_rc_def stressng_hang_def stressng_short_def
      no_workloads_event_def sat_fail_def sat_rc_def sat_hang_def sat_short_def sat_missing_event_def ycruncher_missing_event_def
      yc_fail_def yc_incomplete_def yc_ok_def mprime_missing_event_def mprime_fail_def mprime_exit_def mprime_unverified_def
      transient_short_event_def transient_hang_event_def transient_steps_event_def idle_event_def no_network_event_def
      combined_load_event_def hardware_changed_def memory_changed_def boot_time_event_def cycles_skipped_event_def cycles_ok_event_def)

lemma incomplete_phase_events [simp]:
  "ev_incomplete (stressng_rc l rc out')" "ev_incomplete (stressng_short n l)" "ev_incomplete no_workloads_event"
  "ev_incomplete (sat_rc n rc out')" "ev_incomplete (sat_short n)" "ev_incomplete sat_missing_event"
  "ev_incomplete ycruncher_missing_event" "ev_incomplete (yc_incomplete g)" "ev_incomplete (mprime_exit rc out')"
  "ev_incomplete mprime_unverified" "ev_incomplete transient_short_event" "ev_incomplete (combined_load_event l rc out')"
  by (simp_all add: stressng_rc_def stressng_short_def no_workloads_event_def sat_rc_def sat_short_def sat_missing_event_def
      ycruncher_missing_event_def yc_incomplete_def mprime_exit_def mprime_unverified_def transient_short_event_def combined_load_event_def)

lemma failing_phase_events [simp]:
  "ev_severity (stressng_fail n l rc out') = FAIL" "ev_severity (stressng_hang l) = FAIL" "ev_severity (sat_fail n out') = FAIL"
  "ev_severity (sat_hang n) = FAIL" "ev_severity (yc_fail ev rc) = FAIL" "ev_severity (mprime_fail es) = FAIL"
  "ev_severity (hardware_changed cy key l a b) = FAIL" "ev_severity (memory_changed cy x y) = FAIL"
  by (simp_all add: stressng_fail_def stressng_hang_def sat_fail_def sat_hang_def yc_fail_def mprime_fail_def hardware_changed_def memory_changed_def)

lemma check_stressng_keeps [simp]: "keeps c (check_stressng now n l rc out' c)"
  unfolding check_stressng_def by (rule keeps_events) (simp add: stressng_events_def)

lemma check_sat_keeps [simp]: "keeps c (check_stressapptest now n rc out' c)"
  unfolding check_stressapptest_def by (rule keeps_events) (simp add: sat_events_def)

lemma run_stressng_keeps: "keeps c (snd (run_stressng now ph l args secs tool c))"
proof -
  let ?p = "tool (stressng_cmd args (max 10 (trunc secs)))"
  let ?c1 = "others (pr_during ?p) c"
  have "keeps c (ctx_add now e ?c1)" if "legal e" for e using keeps_trans [OF keeps_others keeps_add [OF that]] .
  moreover have "keeps c (check_stressng now n l rc o' ?c1)" for n l rc o' using keeps_trans [OF keeps_others check_stressng_keeps] .
  moreover have "keeps c (ctx_add now e (check_stressng now n l rc o' ?c1))" if "legal e" for e n l rc o'
    using keeps_trans [OF keeps_trans [OF keeps_others check_stressng_keeps] keeps_add [OF that]] .
  ultimately show ?thesis
    by (simp add: run_stressng_def Let_def split: option.split)
qed

lemma cpu_loop_keeps: "keeps c (snd (cpu_loop now ph ts i st c))"
proof (induction ts arbitrary: i st c)
  case (Cons t ts)
  obtain label args where l: "st ! (i mod length st) = (label, args)" by force
  let ?r = "run_stressng now ph label args (min (cpu_slice (ph_duration ph)) (tn_slice_remaining t)) (tn_tool t)
              (set_note (''stress-ng '' @ label) c)"
  have k: "keeps c (snd ?r)" by (rule keeps_trans [OF keeps_note run_stressng_keeps])
  show ?case
  proof (cases "tn_remaining t > 20 \<and> \<not> stopped c \<and> st \<noteq> []")
    case True
    then show ?thesis using k keeps_trans [OF k Cons.IH] by (cases "fst ?r") (simp_all add: l Let_def)
  qed auto
qed simp

lemma run_sat_keeps: "keeps c (snd (run_stressapptest now ph secs m extra tool c))"
proof -
  let ?c0 = "set_note (''stressapptest '' @ int_str m @ '' MiB'') c"
  let ?p = "tool ([''stressapptest'', ''-s'', int_str (max 30 (trunc secs)), ''-M'', int_str m, ''-v'', ''8''] @ extra)"
  let ?c1 = "others (pr_during ?p) ?c0"
  have k: "keeps c ?c1" by (rule keeps_trans [OF keeps_note keeps_others])
  have "keeps c (ctx_add now e ?c1)" if "legal e" for e using keeps_trans [OF k keeps_add [OF that]] .
  moreover have "keeps c (check_stressapptest now n rc o' ?c1)" for n rc o' using keeps_trans [OF k check_sat_keeps] .
  moreover have "keeps c (ctx_add now e (check_stressapptest now n rc o' ?c1))" if "legal e" for e n rc o'
    using keeps_trans [OF keeps_trans [OF k check_sat_keeps] keeps_add [OF that]] .
  ultimately show ?thesis using k by (simp add: run_stressapptest_def Let_def split: option.split)
qed

lemma rc_outcome: "snd (case fst r of Inl e \<Rightarrow> raise e (snd r) | Inr _ \<Rightarrow> ok (snd r)) = snd r"
  by (simp split: sum.split)

lemma memory_run_keeps: "keeps c (snd (memory_run now ph env c))"
  unfolding memory_run_def
proof (rule keeps_andthen)
  show "keeps c (snd (memory_sat now ph env c))"
    unfolding memory_sat_def by (auto intro!: keeps_lift run_sat_keeps)
next
  fix c' assume k: "keeps c c'"
  have "keeps c (snd (lift_ex v (\<lambda>budget c. let w = f budget; r = run_stressng now ph ''vm'' (vm_args w budget) s t (set_note n c)
      in case fst r of Inl e \<Rightarrow> raise e (snd r) | Inr _ \<Rightarrow> ok (snd r)) c'))" for v f s t n
    by (rule keeps_lift [OF _ k]) (unfold Let_def rc_outcome, rule keeps_trans [OF k keeps_trans [OF keeps_note run_stressng_keeps]])
  then show "keeps c (snd (if stopped c' then ok c'
      else lift_ex (mem_budget_mib (me_sys2 env) (fl (85 / 100))) (\<lambda>budget c.
        let workers = max 1 (min (min (cpu_count (me_cpus env)) 16) (budget div 64));
            r = run_stressng now ph ''vm'' (vm_args workers budget) (me_remaining env) (me_vm env)
                  (set_note ''stress-ng vm (all patterns)'' c)
        in (case fst r of Inl e \<Rightarrow> raise e (snd r) | Inr _ \<Rightarrow> ok (snd r))) c'))"
    using k by simp
qed

lemma yc_check_keeps: "keeps c (yc_check_result now ev cores seconds elapsed rc c)"
  using keeps_trans [OF keeps_add keeps_add, of "yc_fail ev rc"] by (simp add: yc_check_result_def Let_def)

lemma ycruncher_run_keeps: "keeps c (snd (ycruncher_run now env c))"
proof -
  have "keeps c (snd (lift_ex (read_evidence (ye_lines env)) (\<lambda>ev c. ok (yc_check_result now ev cores s el rc c)) (others bs (set_note n c))))"
    for cores s el rc bs n
    by (rule keeps_lift) (simp_all add: keeps_trans [OF keeps_trans [OF keeps_note keeps_others] yc_check_keeps] keeps_trans [OF keeps_note keeps_others])
  then show ?thesis unfolding ycruncher_run_def Let_def
    by (auto intro!: keeps_lift split: option.split)
qed

lemma mprime_judge_keeps: "keeps c (mprime_judge now env c)"
  using keeps_trans [OF keeps_add keeps_add] by (simp add: mprime_judge_def Let_def)

lemma mprime_run_keeps: "keeps c (snd (mprime_run now ph env c))"
proof -
  have "keeps c (mprime_judge now env (others bs (set_note n c)))" for bs n
    by (rule keeps_trans [OF keeps_trans [OF keeps_note keeps_others] mprime_judge_keeps])
  moreover have "keeps c (snd (run_stressng now ph l a s t (ctx_add now mprime_missing_event c)))" for l a s t
    by (rule keeps_trans [OF keeps_add run_stressng_keeps]) simp
  ultimately show ?thesis unfolding mprime_run_def Let_def rc_outcome
    by (auto simp: rc_outcome intro!: keeps_lift split: option.split)
qed

lemma transient_end_keeps: "keeps c (transient_end now ph env p c)"
proof -
  let ?c1 = "if pr_rc p \<noteq> None \<and> te_remaining env > 5 \<and> \<not> stopped c then ctx_add now transient_short_event c else c"
  let ?c2 = "\<lambda>b. if b then ctx_add now transient_hang_event ?c1 else ?c1"
  have 1: "keeps c ?c1" by simp
  have 2: "keeps c (?c2 b)" for b by (cases b) (simp_all only: if_True if_False 1 keeps_trans [OF 1 keeps_add] legal_phase_events)
  have 3: "keeps c (ctx_add now (transient_steps_event m) (check_stressng now n l rc o' (?c2 b)))" for m n l rc o' b
    by (rule keeps_trans [OF keeps_trans [OF 2 check_stressng_keeps] keeps_add]) simp
  show ?thesis unfolding transient_end_def Let_def by (rule 3)
qed

lemma transient_run_keeps: "keeps c (snd (transient_run now ph env c))"
  unfolding transient_run_def
  by (rule keeps_lift) (simp_all add: Let_def keeps_trans [OF keeps_others transient_end_keeps] split: option.split)

lemma idle_run_keeps: "keeps c (snd (idle_run now env c))"
proof -
  have "keeps c (resume_disks (id_procs env) (others (id_during env) (set_note n (pause_disks (id_procs env) c))))" for n
    by (rule keeps_trans [OF keeps_trans [OF keeps_trans [OF keeps_pause(1) keeps_note] keeps_others] keeps_pause(2)])
  from keeps_trans [OF this keeps_add] show ?thesis by (simp add: idle_run_def Let_def)
qed

lemma judge_loads_keeps: "keeps c (snd (judge_loads json now ph env ls c))"
proof (induction ls arbitrary: c)
  case (Cons l ls)
  obtain label p result where l: "l = (label, p, result)" by (cases l)
  let ?c1 = "others (pr_during p) c"
  let ?c2 = "\<lambda>v c. if pr_rc p \<noteq> Some 0 \<or> \<not> v then ctx_add now (combined_load_event label (pr_rc p) (pr_output p)) c else c"
  have "keeps ?c1 (?c2 v ?c1)" for v by simp
  then have "keeps c (snd (judge_loads json now ph env ls (?c2 v ?c1)))" for v
    using keeps_trans [OF keeps_others keeps_trans [OF _ Cons.IH]] by blast
  then have "keeps c (snd (lift_ex (load_verified json ph env l) (\<lambda>v c. judge_loads json now ph env ls (?c2 v c)) ?c1))"
    by (rule keeps_lift) simp
  then show ?case by (simp add: l Let_def)
qed simp

lemma net_load_keeps: "keeps c (snd (net_load now env c))"
  by (simp add: net_load_def Let_def split: option.split)

lemma combined_body_keeps: "keeps c (snd (combined_body json now ph env c))"
proof -
  have 1: "keeps c' (snd (lift_ex (mem_budget_mib (co_sys env) q) (\<lambda>budget c.
      andthen (run_stressapptest now ph s budget ex t c) (judge_loads json now ph env ls)) c'))" for c' q s ex t ls
    by (rule keeps_lift [OF keeps_andthen [OF run_sat_keeps] keeps_refl]) (rule keeps_trans [OF _ judge_loads_keeps])
  have 2: "keeps c' (snd (case net_load now env c' of (r, c1) \<Rightarrow> lift_ex r (\<lambda>net c.
      lift_ex (mem_budget_mib (co_sys env) (fl (85 / 100))) (\<lambda>budget c.
      andthen (run_stressapptest now ph (co_remaining env) budget
          [''-W'', ''-C'', int_str (max 1 (cpu_count (co_cpus env) div 2)), ''--pause_delay'', ''600'', ''--pause_duration'', ''10'']
          (co_tool env) c)
        (judge_loads json now ph env (loads @ net))) c) c1))" for c' loads
    unfolding case_prod_beta by (rule keeps_lift, rule keeps_trans [OF net_load_keeps 1], rule net_load_keeps)
  show ?thesis unfolding combined_body_def by (rule keeps_lift, rule keeps_lift, rule 2, simp_all)
qed

lemma combined_run_keeps: "keeps c (snd (combined_run json now ph env c))"
  using keeps_trans [OF keeps_trans [OF keeps_pause(1) combined_body_keeps] keeps_pause(2)]
  by (simp add: combined_run_def case_prod_beta)

lemma compare_events_legal: "\<forall>e \<in> set (compare_events a b m). legal e"
  by (auto simp: compare_events_def part_events_def snapshot_parts_def split: if_splits)

lemma cycle_check_keeps: "keeps c (snd (cycle_check json env baseline c))"
proof -
  have k: "keeps c (compare_snapshots now baseline b m c)" for now b m
    unfolding compare_snapshots_def by (rule keeps_events [OF compare_events_legal])
  have "keeps c (ctx_add now' (boot_time_event m' t) (compare_snapshots now baseline b m c))" for now b m now' m' t
    by (rule keeps_trans [OF k keeps_add]) simp
  with k show ?thesis unfolding cycle_check_def Let_def by (auto intro!: keeps_lift split: option.split)
qed

lemma cycle_next_keeps: "keeps c (cycle_next env c)"
  using keeps_trans [OF keeps_note keeps_reboot] by (simp add: cycle_next_def Let_def)

lemma powercycle_run_keeps: "keeps c (snd (powercycle_run json env c))"
  unfolding powercycle_run_def
proof (rule keeps_lift)
  fix baseline
  show "keeps c (snd (andthen (cycle_check json env baseline (put_state (\<lambda>st. st\<lparr>st_powercycle_baseline := Some baseline\<rparr>) c))
      (\<lambda>c. ok (cycle_next env c))))"
  proof (rule keeps_andthen)
    show "keeps c (snd (cycle_check json env baseline (put_state (\<lambda>st. st\<lparr>st_powercycle_baseline := Some baseline\<rparr>) c)))"
      by (rule keeps_trans [OF keeps_state cycle_check_keeps]) (simp add: orchestration_eq)
  qed (simp add: keeps_trans [OF _ cycle_next_keeps])
qed simp

section \<open>The memory budget\<close>

lemma fl_upper: "0 \<le> x \<Longrightarrow> fl x \<le> x * (1 + 1 / 2 ^ 53) + 1 / 2 ^ 1074"
  using fl_error [of x] by (simp add: algebra_simps abs_le_iff)

lemma trunc_le: "0 \<le> x \<Longrightarrow> of_int (trunc x) \<le> x"
  by (simp add: trunc_def)

lemma two_roundings:
  fixes x y z f e d :: rat
  assumes "1 \<le> x" "0 \<le> f" "f \<le> 95 / 100" "0 \<le> y" "y \<le> x * e + d" "z \<le> y * f * e + d"
    and "1 \<le> e" "e \<le> 1 + 1 / 1000" "0 \<le> d" "d \<le> 1 / 1000"
  shows "z \<le> x"
proof -
  have "x * e \<le> x * (1 + 1 / 1000)" using assms(1,8) by (intro mult_left_mono) auto
  then have y: "y \<le> x * (1 + 1 / 1000) + 1 / 1000" using assms(5,10) by linarith
  have "y * f \<le> (x * (1 + 1 / 1000) + 1 / 1000) * (95 / 100)"
    by (rule mult_mono [OF y assms(3) _ assms(2)]) (use assms(1) in simp)
  then have yf: "y * f \<le> x * (952 / 1000) + 1 / 1000" using assms(1) by simp
  have "y * f * e \<le> (x * (952 / 1000) + 1 / 1000) * (1 + 1 / 1000)"
    by (rule mult_mono [OF yf assms(8)]) (use assms(1,7) in auto)
  then show ?thesis using assms(1,6,10) by simp
qed

lemma scaled_le:
  assumes "1 \<le> x" "0 \<le> f" "f \<le> 95 / 100" shows "fl (fl x * f) \<le> x"
proof (rule two_roundings [OF assms])
  show "0 \<le> fl x" using assms(1) fl_nonneg by simp
  show "fl x \<le> x * (1 + 1 / 2 ^ 53) + 1 / 2 ^ 1074" using fl_upper assms(1) by simp
  show "fl (fl x * f) \<le> fl x * f * (1 + 1 / 2 ^ 53) + 1 / 2 ^ 1074"
    using fl_upper mult_nonneg_nonneg [OF fl_nonneg assms(2)] assms(1) by simp
qed simp_all

lemma scaled_int_le:
  fixes x :: int
  assumes "1 \<le> x" "0 \<le> f" "f \<le> 95 / 100" shows "trunc (fl (fl (of_int x) * f)) \<le> x"
proof -
  have "fl (fl (of_int x) * f) \<le> of_int x" using scaled_le [of "of_int x"] assms by simp
  moreover have "0 \<le> fl (fl (of_int x) * f)" using assms(1,2) by (intro fl_nonneg mult_nonneg_nonneg) auto
  ultimately have "(of_int (trunc (fl (fl (of_int x) * f))) :: rat) \<le> of_int x" using trunc_le order_trans by blast
  then show ?thesis by (simp only: of_int_le_iff)
qed

lemma mem_budget_bounds:
  assumes "mem_budget_mib sy f = Inr b" "0 \<le> f" "f \<le> 95 / 100"
  shows "64 \<le> b \<and> b * 2 ^ 20 + os_reserve (dict_get (meminfo sy) ''MemTotal'' 0) \<le> dict_get (meminfo sy) ''MemAvailable'' 0"
proof -
  let ?avail = "dict_get (meminfo sy) ''MemAvailable'' 0" and ?reserve = "os_reserve (dict_get (meminfo sy) ''MemTotal'' 0)"
  let ?x = "max 0 (?avail - ?reserve)" let ?z = "fl (fl (of_int ?x) * f)"
  have b: "b = trunc ?z div 2 ^ 20" "64 \<le> b" using assms(1) by (auto simp: mem_budget_mib_def Let_def split: if_splits)
  have "?x \<noteq> 0"
  proof
    assume z: "?x = 0"
    have "b = 0" unfolding b(1) z by (simp add: fl_def trunc_def)
    then show False using b(2) by simp
  qed
  then have x: "1 \<le> ?x" by linarith
  have "trunc ?z \<le> ?x" by (rule scaled_int_le [OF x assms(2,3)])
  moreover have "b * 2 ^ 20 \<le> trunc ?z" using div_mult_mod_eq [of "trunc ?z" "2 ^ 20"] unfolding b(1) by simp
  ultimately show ?thesis using b(2) x by linarith
qed

lemma fl_lower: "0 \<le> x \<Longrightarrow> x * (999 / 1000) - 1 / 1000 \<le> fl x"
proof -
  assume x: "0 \<le> x"
  have "x / 2 ^ 53 + 1 / 2 ^ 1074 \<le> x * (1 / 1000) + 1 / 1000"
    using x by (intro add_mono) (simp_all add: field_simps)
  then show ?thesis using fl_error [of x] x by (simp add: abs_le_iff algebra_simps)
qed

lemma mem_budget_some:
  assumes "os_reserve (dict_get (meminfo sy) ''MemTotal'' 0) + 2 ^ 30 \<le> dict_get (meminfo sy) ''MemAvailable'' 0" "1 / 4 \<le> f" "f \<le> 1"
  shows "\<exists>b. mem_budget_mib sy f = Inr b"
proof -
  define x where "x = max 0 (dict_get (meminfo sy) ''MemAvailable'' 0 - os_reserve (dict_get (meminfo sy) ''MemTotal'' 0))"
  have x: "(2 ^ 30 :: rat) \<le> of_int x" using assms(1) by (simp add: x_def le_max_iff_disj)
  have "of_int x * (999 / 1000) - 1 / 1000 \<le> fl (of_int x)" using fl_lower x by simp
  then have y: "2 ^ 29 \<le> fl (of_int x)" using x by simp
  then have "2 ^ 29 * (1 / 4) \<le> fl (of_int x) * f" using assms(2) by (intro mult_mono) auto
  moreover from this have "fl (of_int x) * f * (999 / 1000) - 1 / 1000 \<le> fl (fl (of_int x) * f)" by (intro fl_lower) simp
  ultimately have z: "2 ^ 26 \<le> fl (fl (of_int x) * f)" by simp
  then have "(2 ^ 26 :: int) \<le> trunc (fl (fl (of_int x) * f))" by (simp add: trunc_def le_floor_iff)
  then have "(2 ^ 26 :: int) div 2 ^ 20 \<le> trunc (fl (fl (of_int x) * f)) div 2 ^ 20" by (rule zdiv_mono1) simp
  then show ?thesis by (simp add: mem_budget_mib_def Let_def x_def)
qed

text \<open>The memory given to a stress tool is at least 64 MiB and, whatever the amount of memory and the
  rounding of the fraction, leaves the reserve of the live system (at least 768 MiB) free.\<close>

theorem mem_budget_leaves_reserve:
  assumes "mem_budget_mib sy f = Inr b" "0 \<le> f" "f \<le> 95 / 100"
  shows "64 \<le> b \<and> b * 2 ^ 20 + os_reserve (dict_get (meminfo sy) ''MemTotal'' 0) \<le> dict_get (meminfo sy) ''MemAvailable'' 0"
  by (rule mem_budget_bounds [OF assms])

section \<open>A workload without a clean end shows in the verdict\<close>

definition stressng_proc :: "string list \<Rightarrow> rat \<Rightarrow> tool \<Rightarrow> proc" where
  "stressng_proc args secs tool = tool (stressng_cmd args (max 10 (trunc secs)))"

definition stressng_clean :: "proc \<Rightarrow> rat \<Rightarrow> bool" where
  "stressng_clean p secs \<longleftrightarrow> pr_rc p = Some 0 \<and> fail_lines (pr_output p) = [] \<and>
     str_in ''successful run completed'' (pr_output p) \<and> \<not> too_short (pr_elapsed p) (max 10 (trunc secs))"

definition stressng_unsupported_run :: "proc \<Rightarrow> bool" where
  "stressng_unsupported_run p \<longleftrightarrow> pr_rc p = Some 4 \<and> fail_lines (pr_output p) = []"

lemma FAIL_bad: "grows (ctx_add now e c) d \<Longrightarrow> ev_severity e = FAIL \<Longrightarrow> 2 \<le> badness (verdict (c_findings d) inc)"
  using FAIL_survives by fastforce

lemma stressng_shows:
  assumes r: "run_stressng now ph l args secs tool c = (Inr rc, c1)" and a: "\<not> stopped c1"
    and g: "grows c1 d" and v: "badness (verdict (c_findings d) inc) < 2"
  shows "stressng_clean (stressng_proc args secs tool) secs \<or> stressng_unsupported_run (stressng_proc args secs tool)"
proof -
  let ?p = "stressng_proc args secs tool"
  let ?c0 = "others (pr_during ?p) c"
  have nofail: False if "grows (ctx_add now e x) d" "ev_severity e = FAIL \<or> ev_incomplete e" for e x
    using FAIL_bad [OF that(1), of inc] incomplete_survives [OF that(1), of inc] that(2) v by (meson not_le)
  have s: "pr_spawn ?p = None" using r by (auto simp: run_stressng_def Let_def stressng_proc_def split: option.splits)
  show ?thesis
  proof (cases "pr_rc ?p")
    case None
    then have "c1 = (if stopped ?c0 then ?c0 else ctx_add now (stressng_hang l) ?c0)"
      using r s by (auto simp: run_stressng_def Let_def stressng_proc_def)
    with a have "c1 = ctx_add now (stressng_hang l) ?c0" by (auto split: if_splits)
    then show ?thesis using nofail g failing_phase_events(2) by blast
  next
    case (Some x)
    let ?c2 = "check_stressng now (ph_name ph) l (Some x) (pr_output ?p) ?c0"
    have c1: "c1 = (if x = 0 \<and> too_short (pr_elapsed ?p) (max 10 (trunc secs)) \<and> \<not> stopped ?c2
        then ctx_add now (stressng_short (ph_name ph) l) ?c2 else ?c2)"
      using r s Some by (auto simp: run_stressng_def Let_def stressng_proc_def)
    have st: "\<not> stopped ?c2" using a c1 by (auto simp: stopped_def split: if_splits)
    have "grows ?c2 c1" unfolding c1 by simp
    then have g2: "grows ?c2 d" using g grows_trans by blast
    have no: "stressng_events (ph_name ph) l (Some x) (pr_output ?p) \<noteq> [e]" if "ev_severity e = FAIL \<or> ev_incomplete e" for e
      using nofail [OF _ that, of ?c0] g2 by (auto simp: check_stressng_def)
    have 1: "x \<noteq> 2 \<and> x \<noteq> 5 \<and> fail_lines (pr_output ?p) = []"
      using no [of "stressng_fail (ph_name ph) l (Some x) (pr_output ?p)"] by (auto simp: stressng_events_def split: if_splits)
    then have 2: "x = 4 \<or> x = 0 \<and> str_in ''successful run completed'' (pr_output ?p)"
      using no [of "stressng_rc l (Some x) (pr_output ?p)"] by (auto simp: stressng_events_def split: if_splits)
    have "\<not> too_short (pr_elapsed ?p) (max 10 (trunc secs))" if "x = 0"
    proof
      assume "too_short (pr_elapsed ?p) (max 10 (trunc secs))"
      then have "c1 = ctx_add now (stressng_short (ph_name ph) l) ?c2" using c1 st that by simp
      then show False using nofail g incomplete_phase_events(2) by blast
    qed
    then show ?thesis using 1 2 Some by (auto simp: stressng_clean_def stressng_unsupported_run_def)
  qed
qed

definition sat_proc :: "rat \<Rightarrow> int \<Rightarrow> string list \<Rightarrow> tool \<Rightarrow> proc" where
  "sat_proc secs mem_mib extra tool = tool ([''stressapptest'', ''-s'', int_str (max 30 (trunc secs)), ''-M'', int_str mem_mib,
     ''-v'', ''8''] @ extra)"

definition sat_clean :: "proc \<Rightarrow> rat \<Rightarrow> bool" where
  "sat_clean p secs \<longleftrightarrow> pr_rc p = Some 0 \<and> \<not> sat_failed (pr_output p) \<and> str_in ''Status: PASS'' (pr_output p) \<and>
     \<not> too_short (pr_elapsed p) (max 30 (trunc secs))"

lemma sat_shows:
  assumes r: "run_stressapptest now ph secs m extra tool c = ok c1" and a: "\<not> stopped c1"
    and g: "grows c1 d" and v: "badness (verdict (c_findings d) inc) < 2"
  shows "sat_clean (sat_proc secs m extra tool) secs"
proof -
  let ?p = "sat_proc secs m extra tool"
  let ?c0 = "others (pr_during ?p) (set_note (''stressapptest '' @ int_str m @ '' MiB'') c)"
  have nofail: False if "grows (ctx_add now e x) d" "ev_severity e = FAIL \<or> ev_incomplete e" for e x
    using FAIL_bad [OF that(1), of inc] incomplete_survives [OF that(1), of inc] that(2) v by (meson not_le)
  have s: "pr_spawn ?p = None" using r by (auto simp: run_stressapptest_def Let_def sat_proc_def ok_def raise_def split: option.splits)
  show ?thesis
  proof (cases "pr_rc ?p")
    case None
    then have "c1 = (if stopped ?c0 then ?c0 else ctx_add now (sat_hang (ph_name ph)) ?c0)"
      using r s by (auto simp: run_stressapptest_def Let_def sat_proc_def ok_def)
    with a have "c1 = ctx_add now (sat_hang (ph_name ph)) ?c0" by (auto split: if_splits)
    then show ?thesis using nofail g failing_phase_events(4) by blast
  next
    case (Some x)
    let ?c2 = "check_stressapptest now (ph_name ph) (Some x) (pr_output ?p) ?c0"
    have c1: "c1 = (if x = 0 \<and> too_short (pr_elapsed ?p) (max 30 (trunc secs)) \<and> \<not> stopped ?c2
        then ctx_add now (sat_short (ph_name ph)) ?c2 else ?c2)"
      using r s Some by (auto simp: run_stressapptest_def Let_def sat_proc_def ok_def)
    have st: "\<not> stopped ?c2" using a c1 by (auto simp: stopped_def split: if_splits)
    have "grows ?c2 c1" unfolding c1 by simp
    then have g2: "grows ?c2 d" using g grows_trans by blast
    have no: "sat_events (ph_name ph) (Some x) (pr_output ?p) \<noteq> [e]" if "ev_severity e = FAIL \<or> ev_incomplete e" for e
      using nofail [OF _ that, of ?c0] g2 by (auto simp: check_stressapptest_def)
    have 1: "\<not> sat_failed (pr_output ?p)"
      using no [of "sat_fail (ph_name ph) (pr_output ?p)"] by (auto simp: sat_events_def split: if_splits)
    then have 2: "x = 0 \<and> str_in ''Status: PASS'' (pr_output ?p)"
      using no [of "sat_rc (ph_name ph) (Some x) (pr_output ?p)"] by (auto simp: sat_events_def split: if_splits)
    have "\<not> too_short (pr_elapsed ?p) (max 30 (trunc secs))"
    proof
      assume "too_short (pr_elapsed ?p) (max 30 (trunc secs))"
      then have "c1 = ctx_add now (sat_short (ph_name ph)) ?c2" using c1 st 2 by simp
      then show False using nofail g incomplete_phase_events(5) by blast
    qed
    then show ?thesis using 1 2 Some by (simp add: sat_clean_def)
  qed
qed

text \<open>The two programs of the memory phase, for given budgets.\<close>

definition memory_sat_secs :: "phase \<Rightarrow> rat" where
  "memory_sat_secs ph = of_int (trunc (fl (fl (of_int (ph_duration ph)) * fl (7 / 10))))"

definition memory_sat_proc :: "phase \<Rightarrow> memory_env \<Rightarrow> int \<Rightarrow> proc" where
  "memory_sat_proc ph env b = sat_proc (memory_sat_secs ph) b
     [''-W'', ''-i'', ''2'', ''--pause_delay'', ''900'', ''--pause_duration'', ''15''] (me_sat env)"

definition memory_vm_proc :: "memory_env \<Rightarrow> int \<Rightarrow> proc" where
  "memory_vm_proc env b = stressng_proc (vm_args (max 1 (min (min (cpu_count (me_cpus env)) 16) (b div 64))) b)
     (me_remaining env) (me_vm env)"

definition memory_verified :: "phase \<Rightarrow> memory_env \<Rightarrow> bool" where
  "memory_verified ph env \<longleftrightarrow>
     (\<exists>b. mem_budget_mib (me_sys1 env) (fl (92 / 100)) = Inr b \<and> sat_clean (memory_sat_proc ph env b) (memory_sat_secs ph)) \<and>
     (\<exists>b. mem_budget_mib (me_sys2 env) (fl (85 / 100)) = Inr b \<and>
        (stressng_clean (memory_vm_proc env b) (me_remaining env) \<or> stressng_unsupported_run (memory_vm_proc env b)))"

lemma okD: "andthen r f = ok d \<Longrightarrow> \<exists>c. r = ok c \<and> f c = ok d"
  by (auto simp: andthen_def ok_def split: prod.splits option.splits)

lemma lift_okD: "lift_ex v f c = ok d \<Longrightarrow> \<exists>a. v = Inr a \<and> f a c = ok d"
  by (cases v) (auto simp: raise_def ok_def)

lemma memory_run_verified:
  assumes run: "memory_run now ph env c = ok c'" and a: "\<not> stopped c'"
    and g: "grows c' d" and v: "badness (verdict (c_findings d) inc) < 2"
  shows "memory_verified ph env"
proof -
  obtain c1 where r1: "memory_sat now ph env c = ok c1"
    and r2: "(if stopped c1 then ok c1 else lift_ex (mem_budget_mib (me_sys2 env) (fl (85 / 100))) (\<lambda>budget c.
        let workers = max 1 (min (min (cpu_count (me_cpus env)) 16) (budget div 64));
            r = run_stressng now ph ''vm'' (vm_args workers budget) (me_remaining env) (me_vm env)
                  (set_note ''stress-ng vm (all patterns)'' c)
        in (case fst r of Inl e \<Rightarrow> raise e (snd r) | Inr _ \<Rightarrow> ok (snd r))) c1) = ok c'"
    using okD [OF run [unfolded memory_run_def]] by blast
  have a1: "\<not> stopped c1"
    using r2 a by (auto simp: ok_def)
  obtain b2 where b2: "mem_budget_mib (me_sys2 env) (fl (85 / 100)) = Inr b2"
    using r2 a1 by (auto dest!: lift_okD)
  let ?args = "vm_args (max 1 (min (min (cpu_count (me_cpus env)) 16) (b2 div 64))) b2"
  let ?r = "run_stressng now ph ''vm'' ?args (me_remaining env) (me_vm env) (set_note ''stress-ng vm (all patterns)'' c1)"
  have "(case fst ?r of Inl e \<Rightarrow> raise e (snd ?r) | Inr _ \<Rightarrow> ok (snd ?r)) = ok c'"
    using r2 a1 b2 by (simp add: Let_def)
  then obtain rc where rc: "?r = (Inr rc, c')" by (cases ?r) (auto simp: ok_def raise_def split: sum.splits)
  have "keeps c1 c'" using keeps_trans [OF keeps_note run_stressng_keeps] rc by (metis snd_conv)
  then have g1: "grows c1 d" using g grows_trans keepsD(1) by blast
  have "me_have_sat env"
  proof (rule ccontr)
    assume "\<not> me_have_sat env"
    then have "c1 = ctx_add now sat_missing_event c" using r1 by (simp add: memory_sat_def ok_def)
    then show False using incomplete_survives [OF g1 [unfolded \<open>c1 = _\<close>]] v incomplete_phase_events(6) by (meson not_le)
  qed
  with r1 obtain b1 where b1: "mem_budget_mib (me_sys1 env) (fl (92 / 100)) = Inr b1"
    "run_stressapptest now ph (memory_sat_secs ph) b1 [''-W'', ''-i'', ''2'', ''--pause_delay'', ''900'', ''--pause_duration'', ''15'']
      (me_sat env) c = ok c1"
    unfolding memory_sat_def memory_sat_secs_def by (auto dest!: lift_okD)
  show ?thesis unfolding memory_verified_def memory_sat_proc_def memory_vm_proc_def
    using sat_shows [OF b1(2) a1 g1 v] stressng_shows [OF rc a g v] b1(1) b2 by blast
qed

text \<open>C20: errors of the memory workloads never disappear: when the memory phase ends normally, without an
  abort, and the verdict is in the end PASS or PASS WITH WARNINGS, then stressapptest ran for its
  time, exited with code zero and reported PASS without an incident, and stress-ng either completed
  its verified run in full or is not supported on the platform.\<close>

theorem memory_phase_verified:
  assumes "memory_run now ph env c = ok c'" "\<not> stopped c'" "grows c' d" "badness (verdict (c_findings d) inc) < 2"
  shows "memory_verified ph env"
  by (rule memory_run_verified [OF assms])

section \<open>Witnesses\<close>

definition sample_mem :: sys where
  "sample_mem = \<lparr>read_file = \<lambda>p. if p = ''/proc/meminfo'' then ''MemTotal: 8000000 kB'' @ newline @ ''MemAvailable: 4000000 kB'' else [],
     glob = \<lambda>_. [], path_exists = \<lambda>_. False, run_cmd = \<lambda>_. \<lparr>returncode = 127, stdout = [], stderr = []\<rparr>\<rparr>"

lemma sample_meminfo: "meminfo sample_mem = [(''MemTotal'', 8192000000), (''MemAvailable'', 4096000000)]"
  by code_simp

lemma sample_reserve: "os_reserve 8192000000 = 805306368"
  by code_simp

lemma sample_fractions: "fl (92 / 100) = 8286623314361713 / 9007199254740992" "fl (85 / 100) = 7656119366529843 / 9007199254740992"
    "fl (7 / 10) = 3152519739159347 / 4503599627370496" "fl (9 / 10) = 8106479329266893 / 9007199254740992"
  by code_simp+

lemma sample_budget: "1 / 4 \<le> f \<Longrightarrow> f \<le> 1 \<Longrightarrow> \<exists>b. mem_budget_mib sample_mem f = Inr b"
  by (rule mem_budget_some) (simp_all add: sample_meminfo sample_reserve dict_get_def)

lemma mem_budget_leaves_reserve_witness:
  "\<exists>b. mem_budget_mib sample_mem (fl (92 / 100)) = Inr b \<and> 64 \<le> b \<and> b * 2 ^ 20 + 805306368 \<le> 4096000000"
proof -
  obtain b where b: "mem_budget_mib sample_mem (fl (92 / 100)) = Inr b"
    using sample_budget [of "fl (92 / 100)"] sample_fractions(1) by auto
  then show ?thesis using mem_budget_leaves_reserve [OF b] sample_fractions(1)
    by (simp add: sample_meminfo sample_reserve dict_get_def)
qed

definition sample_proc :: "string \<Rightarrow> proc" where
  "sample_proc output = \<lparr>pr_spawn = None, pr_rc = Some 0, pr_elapsed = 1000, pr_output = output, pr_during = []\<rparr>"

definition sample_memory :: memory_env where
  "sample_memory = \<lparr>me_have_sat = True, me_cpus = Some 4, me_sys1 = sample_mem, me_sys2 = sample_mem, me_remaining = 10,
     me_sat = \<lambda>_. sample_proc ''Status: PASS'', me_vm = \<lambda>_. sample_proc ''successful run completed''\<rparr>"

lemma sample_outputs: "sat_failed ''Status: PASS'' = False" "fail_lines ''successful run completed'' = []"
    "str_in ''Status: PASS'' ''Status: PASS''" "str_in ''successful run completed'' ''successful run completed''"
    "trunc (fl (fl 60 * (3152519739159347 / 4503599627370496))) = 42"
    "too_short 1000 42 = False" "too_short 1000 10 = False"
  by code_simp+

lemma trunc_numeral [simp]: "trunc (numeral n) = numeral n"
  by (simp add: trunc_def)

lemma sample_memory_run: "\<exists>c'. memory_run ''t'' \<lparr>ph_name = ''memory'', ph_duration = 60\<rparr> sample_memory blank_ctx = ok c' \<and>
    \<not> stopped c' \<and> c_findings c' = c_findings blank_ctx"
proof -
  obtain b1 where b1: "mem_budget_mib sample_mem (fl (92 / 100)) = Inr b1"
    using sample_budget [of "fl (92 / 100)"] sample_fractions(1) by auto
  obtain b2 where b2: "mem_budget_mib sample_mem (fl (85 / 100)) = Inr b2"
    using sample_budget [of "fl (85 / 100)"] sample_fractions(2) by auto
  have o: "sat_events n (Some 0) ''Status: PASS'' = []" "stressng_events n l (Some 0) ''successful run completed'' = []" for n l
    using sample_outputs by (simp_all add: sat_events_def stressng_events_def)
  show ?thesis using b1 b2 sample_outputs o
    by (simp add: memory_run_def memory_sat_def sample_memory_def run_stressapptest_def run_stressng_def sample_proc_def
        check_stressapptest_def check_stressng_def others_def Let_def sample_fractions stopped_def del: str_in.simps)
      (auto simp: ok_def)
qed

lemma map_of_empty: "(\<And>k. map_of xs k = None) \<Longrightarrow> xs = []"
  by (metis list.exhaust map_of_Cons_code(2) option.distinct(1) surj_pair)

lemma blank_items: "fs_items (c_findings blank_ctx) = []"
  by (rule map_of_empty) (metis blank_ctx(8) findings_get_def)

lemma blank_verdict: "c_findings c = c_findings blank_ctx \<Longrightarrow> verdict (c_findings c) False = PASS"
  by (simp add: verdict_def findings_counts_def findings_all_def blank_items)

lemma memory_phase_verified_witness: "memory_verified \<lparr>ph_name = ''memory'', ph_duration = 60\<rparr> sample_memory"
proof -
  obtain c' where c': "memory_run ''t'' \<lparr>ph_name = ''memory'', ph_duration = 60\<rparr> sample_memory blank_ctx = ok c'"
    "\<not> stopped c'" "c_findings c' = c_findings blank_ctx" using sample_memory_run by blast
  have "badness (verdict (c_findings c') False) < 2" by (simp add: blank_verdict [OF c'(3)])
  then show ?thesis by (rule memory_phase_verified [OF c'(1,2) grows_refl])
qed

end
