(* ===== verification/Report.thy ===== *)
theory Report
  imports PhaseFacts
begin

text \<open>
  Models the diagnosis of \<open>report.py\<close>: the gaps in the coverage, the verdict computed from the
  saved session and findings, and the rows of the phase table.  The layout of the text, HTML and
  JSON reports is not modelled.
\<close>

section \<open>Gaps in the coverage\<close>

text \<open>\<open>list(dict.fromkeys(xs))\<close>: each element once, at its first place.\<close>

definition dedup :: "'a list \<Rightarrow> 'a list" where
  "dedup xs = rev (remdups (rev xs))"

lemma set_dedup [simp]: "set (dedup xs) = set xs"
  by (simp add: dedup_def)

lemma dedup_Nil [simp]: "dedup xs = [] \<longleftrightarrow> xs = []"
  by (simp add: dedup_def)

definition phase_status_of :: "state \<Rightarrow> string \<Rightarrow> phase_status" where
  "phase_status_of st name = ps_status (dict_get (st_phases st) name pending_state)"

definition completed_status :: "phase_status \<Rightarrow> bool" where
  "completed_status s \<longleftrightarrow> s \<in> {P_done, P_warn, P_failed}"

definition phase_gaps :: "state \<Rightarrow> string list" where
  "phase_gaps st = map (\<lambda>p. ''Phase '' @ pl_name p @ '': '' @ phase_status_str (phase_status_of st (pl_name p)))
     (filter (\<lambda>p. \<not> completed_status (phase_status_of st (pl_name p))) (st_plan st))"

text \<open>A missing state file is the empty dictionary.\<close>

definition state_gaps :: "state option \<Rightarrow> string list" where
  "state_gaps s = (case s of
     None \<Rightarrow> [''Session has not completed'', ''Test plan is unavailable'']
   | Some st \<Rightarrow>
       (if st_run_status st \<noteq> S_complete then [''Session has not completed''] else []) @
       (if st_plan st = [] then [''Test plan is unavailable''] else []) @
       phase_gaps st @
       map (\<lambda>name. ''Phase deliberately omitted: '' @ name) (skip_phases (st_options st)) @
       map (\<lambda>p. ''Disk scan incomplete: '' @ fst p) (filter (\<lambda>p. \<not> sc_done (snd p)) (st_disk_scans st)) @
       map (\<lambda>p. ''Drive self-test incomplete: '' @ fst p)
         (filter (\<lambda>p. st_status (snd p) \<noteq> ''complete'') (st_selftests st)))"

definition coverage_gaps :: "state option \<Rightarrow> findings \<Rightarrow> string list" where
  "coverage_gaps s F = dedup (map f_title (filter f_incomplete (findings_all F)) @ state_gaps s)"

section \<open>The verdict of the report\<close>

definition final_verdict :: "state option \<Rightarrow> findings \<Rightarrow> bool \<Rightarrow> verdict" where
  "final_verdict s F inc = verdict F (inc \<or> coverage_gaps s F \<noteq> [])"

definition saved_state :: "session_fs \<Rightarrow> string \<Rightarrow> state option" where
  "saved_state fs dir = map_option fst (state_at fs dir)"

definition build :: "session_fs \<Rightarrow> pyval list Util.disk \<Rightarrow> string \<Rightarrow> bool \<Rightarrow> state option \<times> findings \<times> verdict" where
  "build fs disk dir inc = (let s = saved_state fs dir; F = findings_init (path_join dir ''findings.json'') disk
     in (s, F, final_verdict s F inc))"

fun verdict_str :: "verdict \<Rightarrow> string" where
  "verdict_str PASS = ''PASS''"
| "verdict_str PASS_WITH_WARNINGS = ''PASS WITH WARNINGS''"
| "verdict_str INCOMPLETE = ''INCOMPLETE''"
| "verdict_str FAILED = ''FAIL''"

fun verdict_explanation :: "verdict \<Rightarrow> string" where
  "verdict_explanation PASS = ''No faults detected within the completed test coverage. This is not a guarantee against future failures.''"
| "verdict_explanation PASS_WITH_WARNINGS = ''No failures, but review the warnings before sending this machine to production.''"
| "verdict_explanation FAILED = ''A fault or instability was detected. Hold deployment, investigate the evidence, and re-test after repair.''"
| "verdict_explanation INCOMPLETE = ''Required tests or monitoring did not complete. Hold deployment and re-run with the coverage gaps resolved.''"

section \<open>The phase table\<close>

definition TITLES :: "(string, string) dict" where
  "TITLES = [(''inventory'', ''Inventory & pre-checks''), (''cpu'', ''CPU stress (stress-ng, verified)''),
     (''memory'', ''Memory stress (stressapptest + stress-ng)''), (''mprime'', ''Prime95 torture test (FFT verification)''),
     (''ycruncher'', ''y-cruncher (verified CPU/cache/memory transforms)''), (''transient'', ''Load transients (PSU/VRM stress)''),
     (''idle'', ''Idle soak (deep C-states)''), (''combined'', ''Combined max load (CPU+RAM+disks)''),
     (''powercycle'', ''Reboot / power-cycle stability''), (''final'', ''Final analysis & report'')]"

record phase_row =
  rw_name :: string
  rw_title :: string
  rw_planned :: int
  rw_status :: string
  rw_elapsed :: int
  rw_started :: string
  rw_result :: string

definition phase_row_of :: "state \<Rightarrow> plan_item \<Rightarrow> phase_row" where
  "phase_row_of st p = (let ps = dict_get (st_phases st) (pl_name p) pending_state in
     \<lparr>rw_name = pl_name p, rw_title = dict_get TITLES (pl_name p) (pl_name p), rw_planned = pl_duration p,
      rw_status = phase_status_str (ps_status ps), rw_elapsed = ps_elapsed ps, rw_started = ps_started ps,
      rw_result = ps_result ps\<rparr>)"

definition phase_rows :: "state option \<Rightarrow> phase_row list" where
  "phase_rows s = (case s of None \<Rightarrow> [] | Some st \<Rightarrow> map (phase_row_of st) (st_plan st))"

section \<open>What a passing report means\<close>

text \<open>Full coverage, stated on the saved session.\<close>

definition fully_covered :: "state \<Rightarrow> bool" where
  "fully_covered st \<longleftrightarrow> st_run_status st = S_complete \<and> st_plan st \<noteq> [] \<and> skip_phases (st_options st) = [] \<and>
     (\<forall>p \<in> set (st_plan st). completed_status (phase_status_of st (pl_name p))) \<and>
     (\<forall>(k, e) \<in> set (st_disk_scans st). sc_done e) \<and> (\<forall>(k, t) \<in> set (st_selftests st). st_status t = ''complete'')"

lemma state_gaps_iff: "state_gaps s = [] \<longleftrightarrow> (\<exists>st. s = Some st \<and> fully_covered st)"
  by (cases s) (auto simp: state_gaps_def fully_covered_def phase_gaps_def filter_empty_conv)

lemma coverage_gaps_iff:
  "coverage_gaps s F = [] \<longleftrightarrow> (\<forall>f \<in> set (findings_all F). \<not> f_incomplete f) \<and> (\<exists>st. s = Some st \<and> fully_covered st)"
  by (simp add: coverage_gaps_def state_gaps_iff filter_empty_conv)

lemma verdict_passes: "badness (verdict F inc) < 2 \<longleftrightarrow>
    findings_counts F FAIL = 0 \<and> \<not> inc \<and> (\<forall>f \<in> set (findings_all F). \<not> f_incomplete f)"
  by (simp add: verdict_def)

lemma final_verdict_passes:
  "badness (final_verdict s F inc) < 2 \<longleftrightarrow> findings_counts F FAIL = 0 \<and> \<not> inc \<and>
     (\<forall>f \<in> set (findings_all F). \<not> f_incomplete f) \<and> (\<exists>st. s = Some st \<and> fully_covered st)"
  unfolding final_verdict_def verdict_passes by (auto simp: coverage_gaps_iff)

text \<open>C4: the report says PASS or PASS WITH WARNINGS exactly when no failure was found, the caller did not
  mark the run incomplete, no finding marks missing coverage, and the saved session is complete: it
  has a plan of which every phase ran to an end, nothing was skipped, every disk scan is done and
  every drive self-test completed.\<close>

theorem report_passes_iff:
  "badness (final_verdict s F inc) < 2 \<longleftrightarrow> findings_counts F FAIL = 0 \<and> \<not> inc \<and>
     (\<forall>f \<in> set (findings_all F). \<not> f_incomplete f) \<and>
     (\<exists>st. s = Some st \<and> st_run_status st = S_complete \<and> st_plan st \<noteq> [] \<and> skip_phases (st_options st) = [] \<and>
       (\<forall>p \<in> set (st_plan st). completed_status (phase_status_of st (pl_name p))) \<and>
       (\<forall>(k, e) \<in> set (st_disk_scans st). sc_done e) \<and> (\<forall>(k, t) \<in> set (st_selftests st). st_status t = ''complete''))"
  unfolding final_verdict_passes fully_covered_def by blast

text \<open>A complete session of one phase with no findings.\<close>

definition covered_state :: state where
  "covered_state = (the_state blank_ctx)\<lparr>st_run_status := S_complete, st_plan := [\<lparr>pl_name = ''idle'', pl_duration = 60\<rparr>],
     st_phases := [(''idle'', \<lparr>ps_status = P_done, ps_started = ''t0'', ps_finished = ''t1'', ps_elapsed = 60, ps_result = ''0 fail, 0 warn''\<rparr>)]\<rparr>"

lemma report_passes_iff_witness: "badness (final_verdict (Some covered_state) (c_findings blank_ctx) False) < 2"
proof (rule iffD2 [OF report_passes_iff], intro conjI exI [of _ covered_state])
  have none: "findings_all (c_findings blank_ctx) = []" by (simp add: findings_all_def blank_items)
  then show "findings_counts (c_findings blank_ctx) FAIL = 0" "\<forall>f \<in> set (findings_all (c_findings blank_ctx)). \<not> f_incomplete f"
    by (simp_all add: findings_counts_def blank_items)
qed (simp_all add: covered_state_def the_state_def first_session_def make_session_def new_state_def default_options_def
    phase_status_of_def dict_get_def completed_status_def)

end
