(* ===== verification/ReportHtml.thy ===== *)
theory ReportHtml
  imports Summary Report
begin

text \<open>
  The HTML report of \<open>report.py\<close>.  Everything that the report prints comes from the machine under test
  (serial numbers, disk models, kernel messages), so the property of this theory is that no text
  ever becomes markup: every tag of the page is one of the tags that the program itself writes.
  \<open>dumps\<close> is \<open>json.dumps(indent=2)\<close>, \<open>now\<close> the reading of the clock; the summary of the hardware, which the
  session keeps beside the fields of \<open>state\<close>, is an argument.
\<close>

section \<open>html.escape\<close>

fun esc_char :: "char \<Rightarrow> string" where
  "esc_char c = (if c = CHR 0x26 then ''&amp;'' else if c = CHR 0x3C then ''&lt;'' else if c = CHR 0x3E then ''&gt;''
     else if c = CHR 0x22 then ''&quot;'' else if c = CHR 0x27 then ''&#x27;'' else [c])"

definition esc :: "string \<Rightarrow> string" where
  "esc s = concat (map esc_char s)"

section \<open>Constants\<close>

definition BRAND :: string where
  "BRAND = ''Master da Web''"

definition version :: string where
  "version = ''1.0.0''"

definition dot :: string where
  "dot = [CHR 0x20, CHR 0xB7, CHR 0x20]"

definition degrees :: string where
  "degrees = [CHR 0x20, CHR 0xB0, CHR ''C'']"

definition CSS :: string where
  "CSS = newline @ concat (map (\<lambda>l. l @ newline)
    ['':root{--bg:#f6f7f9;--card:#fff;--fg:#1d2330;--muted:#5b6575;--line:#dde1e7;--fail:#c62828;--warn:#b26a00;'',
     ''--info:#2f5fa7;--pass:#2e7d32}'',
     ''@media (prefers-color-scheme:dark){:root{--bg:#12151b;--card:#1b2029;--fg:#e6e9ef;--muted:#9aa3b2;--line:#2c3340;'',
     ''--fail:#ef5350;--warn:#ffb74d;--info:#7aa7e8;--pass:#66bb6a}}'',
     ''*{box-sizing:border-box}body{margin:0;background:var(--bg);color:var(--fg);font:15px/1.5 system-ui,sans-serif}'',
     ''main{max-width:1100px;margin:0 auto;padding:24px 16px}'',
     ''h1{font-size:22px;margin:0 0 4px}h2{font-size:17px;margin:28px 0 10px}'',
     ''.card{background:var(--card);border:1px solid var(--line);border-radius:10px;padding:16px;margin-bottom:12px}'',
     ''.verdict{border-left:8px solid var(--c);}.verdict b{color:var(--c);font-size:28px;letter-spacing:.5px}'',
     ''.sev{display:inline-block;min-width:48px;text-align:center;border-radius:4px;color:#fff;font-weight:600;'',
     ''font-size:12px;padding:1px 6px;margin-right:8px;background:var(--c)}'',
     ''table{width:100%;border-collapse:collapse;font-size:14px}td,th{text-align:left;padding:6px 8px;'',
     ''border-bottom:1px solid var(--line);vertical-align:top}th{color:var(--muted);font-weight:600}'',
     ''.muted{color:var(--muted)}pre{white-space:pre-wrap;word-break:break-word;font-size:12px;margin:8px 0 0;'',
     ''background:var(--bg);padding:8px;border-radius:6px}.grid{display:grid;grid-template-columns:140px 1fr;gap:4px 12px}'',
     ''.scroll{overflow-x:auto}.brand{font-weight:700;letter-spacing:1px;text-transform:uppercase;color:var(--info);'',
     ''font-size:13px;margin-bottom:2px}''])"

fun severity_color :: "severity \<Rightarrow> string" where
  "severity_color FAIL = ''var(--fail)''"
| "severity_color WARN = ''var(--warn)''"
| "severity_color INFO = ''var(--info)''"

fun verdict_color :: "verdict \<Rightarrow> string" where
  "verdict_color PASS = ''var(--pass)''"
| "verdict_color PASS_WITH_WARNINGS = ''var(--warn)''"
| "verdict_color INCOMPLETE = ''var(--warn)''"
| "verdict_color FAILED = ''var(--fail)''"

section \<open>Reading the saved session\<close>

text \<open>\<open>state.get(k, d)\<close> on the session; a report without a readable session prints the defaults.\<close>

definition st_get :: "string \<Rightarrow> (state \<Rightarrow> string) \<Rightarrow> state option \<Rightarrow> string" where
  "st_get d f s = (case s of None \<Rightarrow> d | Some st \<Rightarrow> f st)"

definition ident_get :: "state option \<Rightarrow> string \<Rightarrow> string" where
  "ident_get s k = st_get [] (\<lambda>st. dict_get (st_identity st) k []) s"

definition inv_get :: "'a \<Rightarrow> (inventory \<Rightarrow> 'a) \<Rightarrow> inventory option \<Rightarrow> 'a" where
  "inv_get d f hw = (case hw of None \<Rightarrow> d | Some i \<Rightarrow> f i)"

text \<open>\<open>finished_at\<close> is not a key of the session before it is finished.\<close>

definition finished_text :: "state option \<Rightarrow> string" where
  "finished_text s = st_get ''-'' (\<lambda>st. the_default ''-'' (st_finished_at st)) s"

definition profile_text :: "state option \<Rightarrow> string" where
  "profile_text s = st_get ''None'' st_profile s @ '' ('' @ st_get ''None'' (\<lambda>st. float_repr (st_hours st)) s @ '' h)''"

definition bios_text :: "state option \<Rightarrow> string" where
  "bios_text s = ident_get s ''bios_vendor'' @ '' '' @ ident_get s ''bios_version'' @ '' ('' @ ident_get s ''bios_date'' @ '')''"

definition reboots_text :: "state option \<Rightarrow> string" where
  "reboots_text s = st_get ''0'' (\<lambda>st. int_str (st_unexpected_reboots st)) s"

section \<open>Sections of the page\<close>

definition html_head :: "string \<Rightarrow> state option \<Rightarrow> verdict \<Rightarrow> string" where
  "html_head now s v = ''<!doctype html><html lang=en><head><meta charset=utf-8><meta name=viewport content='width=device-width,initial-scale=1'><title>'' @
     esc BRAND @ '' PC-Check '' @ esc (verdict_str v) @ '' - '' @ esc (ident_get s ''display_serial'') @ ''</title><style>'' @ CSS @
     ''</style></head><body><main><div class=brand>'' @ esc BRAND @ ''</div><h1>PC-Check hardware burn-in report</h1><div class=muted>'' @
     esc (st_get [] st_session s) @ dot @ ''generated '' @ esc now @ dot @ ''PC-Check '' @ version @ ''</div>''"

definition html_verdict :: "verdict \<Rightarrow> string" where
  "html_verdict v = ''<div class='card verdict' style='--c:'' @ verdict_color v @ '';margin-top:16px'><b>'' @ esc (verdict_str v) @
     ''</b><div>'' @ esc (verdict_explanation v) @ ''</div></div>''"

definition html_gaps :: "string list \<Rightarrow> string" where
  "html_gaps gaps = (if gaps = [] then [] else ''<h2>Incomplete coverage</h2><div class=card><ul>'' @
     concat (map (\<lambda>g. ''<li>'' @ esc g @ ''</li>'') gaps) @ ''</ul></div>'')"

definition cpu_text :: "cpu_summary \<Rightarrow> string" where
  "cpu_text c = cp_model c @ '' ('' @ cp_cores c @ ''C/'' @ cp_threads c @ ''T)''"

definition grid_rows :: "state option \<Rightarrow> inventory option \<Rightarrow> (string \<times> string) list" where
  "grid_rows s hw =
     [(''System'', ident_get s ''system_manufacturer'' @ '' '' @ ident_get s ''system_product''),
      (''Serial'', ident_get s ''display_serial''),
      (''Board'', ident_get s ''board_manufacturer'' @ '' '' @ ident_get s ''board_product'' @ '' SN '' @ ident_get s ''board_serial''),
      (''BIOS'', bios_text s), (''BMC firmware'', inv_get [] inv_bmc_firmware hw),
      (''CPU'', join ''; '' (map cpu_text (inv_get [] inv_cpus hw))), (''Microcode'', inv_get [] inv_microcode hw),
      (''Memory'', inv_get [] inv_memory_total hw @ '' usable, '' @ nat_str (length (inv_get [] inv_dimms hw)) @ '' DIMMs''),
      (''Boot mode'', inv_get [] inv_boot_mode hw), (''Profile'', profile_text s),
      (''Started / finished'', st_get [] st_started_at s @ '' / '' @ finished_text s),
      (''Unexpected reboots'', reboots_text s)]"

definition html_grid :: "state option \<Rightarrow> inventory option \<Rightarrow> string" where
  "html_grid s hw = ''<div class=card><div class=grid>'' @
     concat (map (\<lambda>(k, v). ''<div class=muted>'' @ esc k @ ''</div><div>'' @ esc v @ ''</div>'')
       (filter (\<lambda>(k, v). strip v \<noteq> []) (grid_rows s hw))) @ ''</div></div>''"

definition html_finding :: "finding \<Rightarrow> string" where
  "html_finding f = (let ev = concat (map (\<lambda>x. esc x @ newline) (f_evidence f)) in
     ''<div class=card><span class=sev style='--c:'' @ severity_color (f_severity f) @ [CHR 0x27] @ ''>'' @ severity_str (f_severity f) @
     ''</span><b>'' @ esc (f_component f) @ ''</b>: '' @ esc (f_title f) @
     (if f_count f > 1 then '' <span class=muted>(x'' @ int_str (f_count f) @ '')</span>'' else []) @
     (if f_detail f \<noteq> [] then ''<div>'' @ esc (f_detail f) @ ''</div>'' else []) @
     (if f_recommendation f \<noteq> [] then ''<div><b>Action:</b> '' @ esc (f_recommendation f) @ ''</div>'' else []) @
     ''<div class=muted style='font-size:13px'>first '' @ esc (f_first_seen f) @ dot @ ''last '' @ esc (f_last_seen f) @
     (if f_phase f \<noteq> [] then dot @ ''phase '' @ esc (f_phase f) else []) @ ''</div>'' @
     (if ev \<noteq> [] then ''<pre>'' @ ev @ ''</pre>'' else []) @ ''</div>'')"

definition html_findings :: "finding list \<Rightarrow> string" where
  "html_findings fs = ''<h2>Findings</h2>'' @ (if fs = [] then ''<div class=card>No findings.</div>'' else []) @
     concat (map html_finding fs)"

definition html_phase_row :: "phase_row \<Rightarrow> string" where
  "html_phase_row r = ''<tr><td>'' @ esc (rw_title r) @ ''</td><td>'' @ esc (rw_status r) @ ''</td><td>'' @
     fmt_duration (of_int (rw_elapsed r)) @ ''</td><td>'' @ fmt_duration (of_int (rw_planned r)) @ ''</td><td>'' @
     esc (rw_started r) @ ''</td></tr>''"

definition html_phases :: "phase_row list \<Rightarrow> string" where
  "html_phases rows = ''<h2>Phases</h2><div class='card scroll'><table><tr><th>Phase</th><th>Status</th><th>Ran</th><th>Planned</th><th>Started</th></tr>'' @
     concat (map html_phase_row rows) @ ''</table></div>''"

definition telemetry_value :: "telemetry \<Rightarrow> pyval" where
  "telemetry_value t = (let temp = (\<lambda>v. case v of None \<Rightarrow> PNone | Some x \<Rightarrow> PFloat x) in PDict
     [(''time'', PStr (te_time t)), (''uptime'', PInt (te_uptime t)), (''phase'', PStr (te_phase t)),
      (''cpu_temp'', temp (te_cpu_temp t)), (''drive_temp'', temp (te_drive_temp t)), (''board_temp'', temp (te_board_temp t)),
      (''load1'', PFloat (Fin (te_load1 t))), (''mem_available_mib'', PInt (te_mem_available_mib t))])"

definition incident_value :: "incident \<Rightarrow> pyval" where
  "incident_value i = PDict [(''type'', PStr (in_type i)), (''detected_at'', PStr (in_detected_at i)),
     (''running_phase'', case in_running_phase i of None \<Rightarrow> PNone | Some p \<Rightarrow> PStr p),
     (''last_heartbeat'', PStr (in_last_heartbeat i)),
     (''last_telemetry'', case in_last_telemetry i of None \<Rightarrow> PDict [] | Some t \<Rightarrow> telemetry_value t)]"

definition html_incident :: "(pyval \<Rightarrow> string) \<Rightarrow> incident \<Rightarrow> string" where
  "html_incident dumps i = ''<h2>Incident: '' @ esc (in_type i) @ ''</h2><div class=card><pre>'' @
     esc (dumps (incident_value i)) @ ''</pre></div>''"

text \<open>\<open>sorted\<close> by falling value, stable; the peaks are never not-a-number.\<close>

fun insert_peak :: "string \<times> pyfloat \<Rightarrow> (string \<times> pyfloat) list \<Rightarrow> (string \<times> pyfloat) list" where
  "insert_peak p [] = [p]"
| "insert_peak p (q # qs) = (if pf_less (snd p) (snd q) then q # insert_peak p qs else p # q # qs)"

definition sorted_peaks :: "(string, pyfloat) dict \<Rightarrow> (string \<times> pyfloat) list" where
  "sorted_peaks peaks = foldr insert_peak peaks []"

definition html_peaks :: "(string, pyfloat) dict \<Rightarrow> string" where
  "html_peaks peaks = (if peaks = [] then [] else
     ''<h2>Peak temperatures</h2><div class='card scroll'><table><tr><th>Sensor</th><th>Peak</th></tr>'' @
     concat (map (\<lambda>(name, v). ''<tr><td>'' @ esc name @ ''</td><td>'' @ pf_fixed 0 v @ degrees @ ''</td></tr>'') (sorted_peaks peaks)) @
     ''</table></div>'')"

definition html_cells :: "string list \<Rightarrow> string" where
  "html_cells cells = ''<tr>'' @ concat (map (\<lambda>c. ''<td>'' @ c @ ''</td>'') cells) @ ''</tr>''"

definition html_dimm :: "dimm \<Rightarrow> string" where
  "html_dimm d = html_cells [esc (di_locator d), int_str (di_size d div 2 ^ 30) @ '' GiB'', esc (di_type d),
     int_str (di_configured_speed d) @ ''/'' @ int_str (di_speed d), esc (di_manufacturer d), esc (di_part d), esc (di_serial d)]"

definition html_dimms :: "dimm list \<Rightarrow> string" where
  "html_dimms ds = (if ds = [] then [] else
     ''<h2>Memory modules</h2><div class='card scroll'><table><tr><th>Slot</th><th>Size</th><th>Type</th><th>Speed</th><th>Manufacturer</th><th>Part</th><th>Serial</th></tr>'' @
     concat (map html_dimm ds) @ ''</table></div>'')"

text \<open>\<open>html.escape\<close> of a value that is no string raises.\<close>

definition html_disk :: "disk_summary \<Rightarrow> exn + string" where
  "html_disk d = ebind (py_as_str (ds_serial d)) (\<lambda>serial.
     ebind (py_as_str (if truthy (ds_transport d) then ds_transport d else PStr [])) (\<lambda>tran.
     Inr (html_cells [esc (ds_name d), esc (ds_model d), esc serial, esc (ds_size d), esc tran])))"

fun html_disk_rows :: "disk_summary list \<Rightarrow> exn + string" where
  "html_disk_rows [] = Inr []"
| "html_disk_rows (d # ds) = ebind (html_disk d) (\<lambda>row. ebind (html_disk_rows ds) (\<lambda>rows. Inr (row @ rows)))"

definition html_disks :: "disk_summary list \<Rightarrow> exn + string" where
  "html_disks ds = (if ds = [] then Inr [] else ebind (html_disk_rows ds) (\<lambda>rows. Inr (
     ''<h2>Disks</h2><div class='card scroll'><table><tr><th>Device</th><th>Model</th><th>Serial</th><th>Size</th><th>Bus</th></tr>'' @
     rows @ ''</table></div>'')))"

definition html_nic :: "nic_summary \<Rightarrow> string" where
  "html_nic n = html_cells [esc (nc_name n), esc (nc_driver n), esc (nc_firmware n), esc (nc_mac n),
     esc (nc_link n) @ '' '' @ esc (nc_speed n)]"

definition html_nics :: "nic_summary list \<Rightarrow> string" where
  "html_nics ns = (if ns = [] then [] else
     ''<h2>Network</h2><div class='card scroll'><table><tr><th>Interface</th><th>Driver</th><th>Firmware</th><th>MAC</th><th>Link</th></tr>'' @
     concat (map html_nic ns) @ ''</table></div>'')"

definition html_foot :: string where
  "html_foot = ''<p class=muted>Raw data: <code>logs/</code> (kernel log, stress tool output, telemetry.csv, SMART) and <code>inventory/</code> next to this report.</p><p class=muted>'' @
     esc BRAND @ dot @ ''PC-Check '' @ version @ ''</p></main></body></html>''"

definition render_html :: "(pyval \<Rightarrow> string) \<Rightarrow> string \<Rightarrow> state option \<Rightarrow> inventory option \<Rightarrow> findings \<Rightarrow> verdict \<Rightarrow> exn + string" where
  "render_html dumps now s hw F v = ebind (html_disks (inv_get [] inv_disks hw)) (\<lambda>disks. Inr (concat
     [html_head now s v, html_verdict v, html_gaps (coverage_gaps s F), html_grid s hw, html_findings (findings_all F),
      html_phases (phase_rows s), concat (map (html_incident dumps) (case s of None \<Rightarrow> [] | Some st \<Rightarrow> st_incidents st)),
      html_peaks (case s of None \<Rightarrow> [] | Some st \<Rightarrow> st_telemetry_peaks st), html_dimms (inv_get [] inv_dimms hw), disks,
      html_nics (inv_get [] inv_nics hw), html_foot]))"

section \<open>The tags of a page\<close>

text \<open>
  A reader of the page: outside a tag \<open><\<close> opens one, inside a tag \<open>>\<close> closes it.  The result is the list of
  the complete tags and what is read of a tag that is still open.
\<close>

fun scan_tags :: "string option \<Rightarrow> string \<Rightarrow> string list \<times> string option" where
  "scan_tags st [] = ([], st)"
| "scan_tags None (c # cs) = scan_tags (if c = CHR 0x3C then Some [] else None) cs"
| "scan_tags (Some t) (c # cs) = (if c = CHR 0x3E then (case scan_tags None cs of (ts, st) \<Rightarrow> (t # ts, st))
     else scan_tags (Some (t @ [c])) cs)"

definition tags :: "string \<Rightarrow> string list" where
  "tags s = fst (scan_tags None s)"

definition closed_quote :: "string \<Rightarrow> string" where
  "closed_quote s = s @ [CHR 0x27]"

definition own_tags :: "string list" where
  "own_tags = [''!doctype html'', ''html lang=en'', ''head'', ''meta charset=utf-8'',
     closed_quote ''meta name=viewport content='width=device-width,initial-scale=1'', ''title'', ''/title'', ''style'', ''/style'', ''/head'', ''body'',
     ''main'', ''div class=brand'', ''/div'', ''h1'', ''/h1'', ''div class=muted'', ''b'', ''/b'', ''div'', ''h2'', ''/h2'', ''div class=card'', ''ul'',
     ''li'', ''/li'', ''/ul'', ''div class=grid'', ''/span'', ''span class=muted'', ''pre'', ''/pre'', ''table'', ''/table'', ''tr'', ''/tr'', ''th'', ''/th'',
     ''td'', ''/td'', ''p class=muted'', ''/p'', ''code'', ''/code'', ''/main'', ''/body'', ''/html'',
     closed_quote ''div class='card scroll'', closed_quote ''div class=muted style='font-size:13px''] @
     map (\<lambda>s. closed_quote (''span class=sev style='--c:'' @ severity_color s)) [FAIL, WARN, INFO] @
     map (\<lambda>v. closed_quote (''div class='card verdict' style='--c:'' @ verdict_color v @ '';margin-top:16px'')) [PASS, PASS_WITH_WARNINGS, FAILED]"

text \<open>A text of whole tags, all of them the program's own.\<close>

fun own :: "string \<Rightarrow> bool" where
  "own s = (case scan_tags None s of (ts, None) \<Rightarrow> list_all (\<lambda>t. t \<in> set own_tags) ts | _ \<Rightarrow> False)"

declare own.simps [simp del]

lemma scan_append: "scan_tags st (a @ b) = (case scan_tags st a of (ts, st1) \<Rightarrow> (case scan_tags st1 b of (us, st2) \<Rightarrow> (ts @ us, st2)))"
  by (induction st a rule: scan_tags.induct) (auto split: prod.splits)

lemma scan_plain: "CHR 0x3C \<notin> set s \<Longrightarrow> scan_tags None s = ([], None)"
  by (induction s) auto

named_theorems own_intros \<open>how a page is put together from pieces with tags of the program only\<close>

lemma own_append [own_intros]: "own a \<Longrightarrow> own b \<Longrightarrow> own (a @ b)"
  by (auto simp: own.simps scan_append split: prod.splits option.splits)

lemma own_plain: "CHR 0x3C \<notin> set s \<Longrightarrow> own s"
  by (simp add: own.simps scan_plain)

lemma own_Nil [own_intros]: "own []"
  by (rule own_plain) simp

lemma own_concat [own_intros]: "(\<And>x. x \<in> set xs \<Longrightarrow> own (f x)) \<Longrightarrow> own (concat (map f xs))"
  by (induction xs) (auto intro: own_intros)

lemma own_if [own_intros]: "(b \<Longrightarrow> own x) \<Longrightarrow> (\<not> b \<Longrightarrow> own y) \<Longrightarrow> own (if b then x else y)"
  by simp

lemma own_esc [own_intros]: "own (esc s)"
  by (rule own_plain) (auto simp: esc_def)

lemma digit_plain: "0 \<le> k \<Longrightarrow> k < 10 \<Longrightarrow> char_of (48 + k) \<noteq> CHR 0x3C" for k :: int
  by (auto dest!: arg_cong [where f = "of_char :: char \<Rightarrow> int"] simp: mod_pos_pos_trivial)

lemma int_digits_plain: "0 \<le> n \<Longrightarrow> CHR 0x3C \<notin> set (int_digits n)"
proof (induction n rule: int_digits.induct)
  case (1 i)
  then show ?case using digit_plain [of "i mod 10"] digit_plain [of i] by (subst int_digits.simps) auto
qed

lemma own_int [own_intros]: "own (int_str n)"
  by (rule own_plain) (auto simp: int_str_def int_digits_plain)

lemma own_duration [own_intros]: "own (fmt_duration x)"
  by (rule own_plain) (auto simp: fmt_duration_def Let_def rjust_def int_str_def int_digits_plain)

lemma own_temp [own_intros]: "own (pf_fixed 0 x)"
proof (rule own_plain)
  have "round_half_even \<bar>r\<bar> \<ge> 0" for r
    using round_half_even_error [of "\<bar>r\<bar>"] by linarith
  then show "CHR 0x3C \<notin> set (pf_fixed 0 x)"
    by (cases x) (auto simp: pf_fixed_def fixed_def Let_def rjust_def int_digits_plain dest: in_set_takeD)
qed

lemma own_piece: "own a \<Longrightarrow> own (a @ b) = own b"
  by (auto simp: own.simps scan_append split: prod.splits option.splits)

lemma own_cell [own_intros]: "(\<And>c. c \<in> set cells \<Longrightarrow> own c) \<Longrightarrow> own (html_cells cells)"
  unfolding html_cells_def by (intro own_intros) (assumption | simp only: | code_simp)+

section \<open>The tags of the report\<close>

lemma own_newline [own_intros]: "own newline"
  by code_simp

lemma own_dot [own_intros]: "own dot"
  by code_simp

lemma own_css [own_intros]: "own CSS"
  by code_simp

lemma own_version [own_intros]: "own version"
  by code_simp

lemma own_degrees [own_intros]: "own degrees"
  by code_simp

lemma own_severity [own_intros]: "own (severity_str x)"
  by (cases x) (simp_all only: severity_str.simps, code_simp+)

text \<open>A tag in three or four pieces.\<close>

lemma own_three: "own (a @ b @ c) \<Longrightarrow> own d \<Longrightarrow> own (a @ b @ c @ d)"
  using own_append [of "a @ b @ c" d] by simp

lemma own_four: "own (a @ b @ c @ d) \<Longrightarrow> own r \<Longrightarrow> own (a @ b @ c @ d @ r)"
  using own_append [of "a @ b @ c @ d" r] by simp

lemma own_head: "own (html_head now s v)"
  unfolding html_head_def by (intro own_intros) code_simp+

lemma own_verdict: "own (html_verdict v)"
proof -
  have "own (''<div class='card verdict' style='--c:'' @ verdict_color v @ '';margin-top:16px'><b>'')"
    by (cases v) (simp_all only: verdict_color.simps, code_simp+)
  then show ?thesis unfolding html_verdict_def by (rule own_three) (intro own_intros; code_simp)
qed

lemma own_gaps: "own (html_gaps gaps)"
  unfolding html_gaps_def by (intro own_intros) code_simp+

lemma own_pairs [own_intros]: "(\<And>k v. own (f k v)) \<Longrightarrow> own (concat (map (\<lambda>(k, v). f k v) xs))"
  by (rule own_concat) (simp add: case_prod_beta)

lemma own_grid: "own (html_grid s hw)"
  unfolding html_grid_def by (intro own_intros) code_simp+

lemma own_finding: "own (html_finding f)"
proof -
  have "own (''<div class=card><span class=sev style='--c:'' @ severity_color (f_severity f) @ [CHR 0x27] @ ''>'')"
    by (cases "f_severity f") (simp_all only: severity_color.simps, code_simp+)
  then show ?thesis unfolding html_finding_def Let_def by (rule own_four) (intro own_intros; code_simp)
qed

lemma own_phases: "own (html_phases rows)"
  unfolding html_phases_def html_phase_row_def by (intro own_intros) code_simp+

lemma own_incident: "own (html_incident dumps i)"
  unfolding html_incident_def by (intro own_intros) code_simp+

lemma own_peaks: "own (html_peaks peaks)"
  unfolding html_peaks_def by (intro own_intros) code_simp+

lemma own_dimms: "own (html_dimms ds)"
  unfolding html_dimms_def html_dimm_def html_cells_def list.map concat.simps append_Nil2 by (intro own_intros) code_simp+

lemma own_nics: "own (html_nics ns)"
  unfolding html_nics_def html_nic_def html_cells_def list.map concat.simps append_Nil2 by (intro own_intros) code_simp+

lemma own_disk_rows: "html_disk_rows ds = Inr rows \<Longrightarrow> own rows"
proof (induction ds arbitrary: rows)
  case (Cons d ds)
  have "own row" if "html_disk d = Inr row" for row
    using that unfolding html_disk_def html_cells_def list.map concat.simps append_Nil2
    by (clarsimp simp only: ebind_eq_Inr sum.inject) (intro own_intros; code_simp)
  with Cons show ?case by (auto intro: own_append)
qed (simp add: own_Nil)

lemma own_disks: "html_disks ds = Inr page \<Longrightarrow> own page"
proof -
  have "own (''<h2>Disks</h2><div class='card scroll'><table><tr><th>Device</th><th>Model</th><th>Serial</th><th>Size</th><th>Bus</th></tr>'' @
     rows @ ''</table></div>'')" if "own rows" for rows
    by (intro own_append that) code_simp+
  then show "html_disks ds = Inr page \<Longrightarrow> own page"
    by (auto simp: html_disks_def own_Nil dest: own_disk_rows split: if_splits)
qed

lemma own_foot: "own html_foot"
  by code_simp

lemma own_concats: "\<forall>x \<in> set xs. own x \<Longrightarrow> own (concat xs)"
  using own_concat [of xs "\<lambda>x. x"] by simp

lemmas own_sections = own_head own_verdict own_gaps own_grid own_phases own_peaks own_dimms own_nics own_foot

lemma own_findings: "own (html_findings fs)"
  unfolding html_findings_def by (intro own_intros own_finding) code_simp+

lemma own_incidents: "own (concat (map (html_incident dumps) is))"
  by (rule own_concat) (rule own_incident)

lemma render_own: "render_html dumps now s hw F v = Inr page \<Longrightarrow> own page"
  unfolding render_html_def ebind_eq_Inr
  by (clarify, rule own_concats) (auto simp: own_sections own_findings own_incidents dest: own_disks)

lemma concat_member: "x \<in> set xs \<Longrightarrow> \<exists>a b. concat xs = a @ x @ b"
  by (metis append.assoc concat.simps(2) concat_append in_set_conv_decomp)

definition occurs_in :: "string \<Rightarrow> string \<Rightarrow> bool" where
  "occurs_in x page \<longleftrightarrow> (\<exists>a b. page = a @ x @ b)"

lemma occurs_append: "occurs_in x b \<Longrightarrow> occurs_in x (a @ b @ c)"
  unfolding occurs_in_def by (metis append.assoc)

lemma occurs_concat: "x \<in> set xs \<Longrightarrow> occurs_in x (concat xs)"
  unfolding occurs_in_def by (rule concat_member)

lemma occurs_trans: "occurs_in x y \<Longrightarrow> occurs_in y z \<Longrightarrow> occurs_in x z"
  unfolding occurs_in_def by (metis append.assoc)

lemma render_findings:
  assumes "render_html dumps now s hw F v = Inr page" "f \<in> set (findings_all F)"
  shows "occurs_in (html_finding f) page"
proof -
  have "occurs_in (html_finding f) ((''<h2>Findings</h2>'' @ (if findings_all F = [] then ''<div class=card>No findings.</div>'' else [])) @
      concat (map html_finding (findings_all F)) @ [])"
    by (rule occurs_append [OF occurs_concat]) (use assms(2) in simp)
  then have "occurs_in (html_finding f) (html_findings (findings_all F))"
    unfolding html_findings_def by (simp only: append_assoc append_Nil2)
  moreover have "occurs_in (html_findings (findings_all F)) page"
    using assms(1) by (auto simp: render_html_def intro: occurs_concat simp del: concat.simps)
  ultimately show ?thesis by (rule occurs_trans)
qed

text \<open>C22: whatever the tested machine reports, the tags of the HTML report are those that the program itself
  writes and none is left open: no serial number, model, kernel message or file name becomes markup.  And
  every finding of the session is on the page.\<close>

theorem report_markup_is_own:
  assumes "render_html dumps now s hw F v = Inr page"
  shows "set (tags page) \<subseteq> set own_tags \<and> snd (scan_tags None page) = None \<and>
    (\<forall>f \<in> set (findings_all F). occurs_in (html_finding f) page)"
  using render_own [OF assms] render_findings [OF assms]
  by (auto simp: own.simps tags_def list_all_iff split: prod.splits option.splits)

text \<open>A disk whose name is a script.\<close>

definition hostile_disk :: disk_summary where
  "hostile_disk = \<lparr>ds_name = ''sda'', ds_model = ''<script>'', ds_serial = PStr ''<b>'', ds_size = ''1.0 TiB'', ds_transport = PNone,
     ds_rotational = PNone\<rparr>"

definition hostile_inventory :: inventory where
  "hostile_inventory = \<lparr>inv_system = ([], [], [], []), inv_board = ([], [], []), inv_bios = ([], [], []), inv_bmc_firmware = ''<i>'',
     inv_cpus = [], inv_logical_cpus = Some 1, inv_microcode = [], inv_memory_total = [], inv_dimms = [], inv_disks = [hostile_disk],
     inv_nics = [], inv_gpus = [], inv_boot_mode = ''UEFI'', inv_kernel = []\<rparr>"

definition hostile_findings :: findings where
  "hostile_findings = findings_add ''<t>'' (event ''k'' FAIL ''Storage'' ''<script>'') (c_findings blank_ctx)"

lemma report_markup_is_own_witness:
  "\<forall>dumps. \<exists>page. render_html dumps ''<t>'' None (Some hostile_inventory) hostile_findings FAILED = Inr page \<and>
     set (tags page) \<subseteq> set own_tags"
proof
  fix dumps
  have "\<exists>page. render_html dumps ''<t>'' None (Some hostile_inventory) hostile_findings FAILED = Inr page"
    by (simp add: render_html_def inv_get_def hostile_inventory_def html_disks_def html_disk_def hostile_disk_def)
  then show "\<exists>page. render_html dumps ''<t>'' None (Some hostile_inventory) hostile_findings FAILED = Inr page \<and>
     set (tags page) \<subseteq> set own_tags" using report_markup_is_own by blast
qed

end
