(* ===== verification/TextWrap.thy ===== *)
theory TextWrap
  imports PyRegex
begin

text \<open>
  The part of Python's \<open>textwrap\<close> that the text report uses: \<open>wrap\<close> with a width and two indents, tabs expanded, white space
  replaced, long words and hyphenated words broken, and white space at the edges of lines dropped.  The splitter
  follows the pattern \<open>wordsep_re\<close> token by token: at every place a run of white space, a dash between words, or
  the shortest word that ends at a hyphen between letters, at white space or before a dash.
\<close>

section \<open>White space\<close>

definition is_ws :: "char \<Rightarrow> bool" where
  "is_ws c \<longleftrightarrow> code_point c \<in> {9, 10, 11, 12, 13, 32}"

fun expandtabs :: "nat \<Rightarrow> string \<Rightarrow> string" where
  "expandtabs col [] = []"
| "expandtabs col (c # cs) =
    (if code_point c = 9 then replicate (8 - col mod 8) (CHR '' '') @ expandtabs (col + (8 - col mod 8)) cs
     else c # expandtabs (if code_point c \<in> {10, 13} then 0 else col + 1) cs)"

definition munge :: "string \<Rightarrow> string" where
  "munge s = map (\<lambda>c. if is_ws c then CHR '' '' else c) (expandtabs 0 s)"

section \<open>Splitting into chunks\<close>

definition word_punct :: "char \<Rightarrow> bool" where
  "word_punct c \<longleftrightarrow> is_word c \<or> code_point c \<in> {33, 34, 39, 38, 46, 44, 63}"

definition letter :: "char \<Rightarrow> bool" where
  "letter c \<longleftrightarrow> is_word c \<and> \<not> is_digit c"

definition dash :: char where
  "dash = CHR ''-''"

text \<open>\<open>-{2,}\<close> followed by a word character.\<close>

definition dash_run :: "string \<Rightarrow> nat" where
  "dash_run s = length (takeWhile (\<lambda>c. c = dash) s)"

definition em_dash :: "string \<Rightarrow> bool" where
  "em_dash s \<longleftrightarrow> 2 \<le> dash_run s \<and> (case drop (dash_run s) s of c # _ \<Rightarrow> is_word c | [] \<Rightarrow> False)"

text \<open>The look-behind of a hyphen on the characters before it (last first), and the look-ahead after it.\<close>

fun before_hyphen :: "string \<Rightarrow> bool" where
  "before_hyphen (a # b # cs) \<longleftrightarrow> letter a \<and> letter b \<or>
     (case cs of c # _ \<Rightarrow> letter a \<and> b = dash \<and> letter c | [] \<Rightarrow> False)"
| "before_hyphen _ \<longleftrightarrow> False"

fun after_hyphen :: "string \<Rightarrow> bool" where
  "after_hyphen (a # b # cs) \<longleftrightarrow> letter a \<and> (letter b \<or> b = dash \<and> (case cs of c # _ \<Rightarrow> letter c | [] \<Rightarrow> False))"
| "after_hyphen _ \<longleftrightarrow> False"

text \<open>The rest of a word of which at least one character was read; \<open>p\<close> are the characters before, last first.\<close>

fun word_rest :: "string \<Rightarrow> string \<Rightarrow> string" where
  "word_rest p [] = []"
| "word_rest p (c # cs) =
    (if c = dash \<and> before_hyphen p \<and> after_hyphen cs then [c]
     else if is_ws c \<or> (word_punct (hd p) \<and> em_dash (c # cs)) then []
     else c # word_rest (c # p) cs)"

definition token :: "string \<Rightarrow> string \<Rightarrow> string" where
  "token p s = (case s of [] \<Rightarrow> []
   | c # cs \<Rightarrow> if is_ws c then takeWhile is_ws s
       else if p \<noteq> [] \<and> word_punct (hd p) \<and> em_dash s then take (dash_run s) s
       else c # word_rest (c # p) cs)"

lemma word_rest_prefix: "\<exists>r. s = word_rest p s @ r"
  by (induction p s rule: word_rest.induct) auto

lemma token_cases:
  "token p s = [] \<or> (\<exists>P. token p s = takeWhile P s) \<or> (\<exists>n. token p s = take n s) \<or> (\<exists>c cs. s = c # cs \<and> token p s = c # word_rest (c # p) cs)"
  by (cases s) (auto simp: token_def)

lemma token_prefix: "\<exists>r. s = token p s @ r"
  using token_cases [of p s]
proof (elim disjE exE conjE)
  fix P assume "token p s = takeWhile P s"
  then show ?thesis by (intro exI [of _ "dropWhile P s"]) simp
next
  fix n assume "token p s = take n s"
  then show ?thesis by (intro exI [of _ "drop n s"]) simp
next
  fix c cs assume "s = c # cs" "token p s = c # word_rest (c # p) cs"
  moreover obtain r where "cs = word_rest (c # p) cs @ r" using word_rest_prefix by blast
  ultimately show ?thesis by (intro exI [of _ r]) simp
qed simp

lemma token_nonempty: "s \<noteq> [] \<Longrightarrow> token p s \<noteq> []"
  by (auto simp: token_def em_dash_def split: list.split)

function split_tokens :: "string \<Rightarrow> string \<Rightarrow> string list" where
  "split_tokens p s = (if s = [] then [] else let t = token p s in t # split_tokens (rev t @ p) (drop (length t) s))"
  by pat_completeness auto
termination
  by (relation "measure (\<lambda>(p, s). length s)") (auto simp: token_nonempty)

declare split_tokens.simps [simp del]

definition text_chunks :: "string \<Rightarrow> string list" where
  "text_chunks s = split_tokens [] (munge s)"

lemma concat_split: "concat (split_tokens p s) = s"
proof (induction p s rule: split_tokens.induct)
  case (1 p s)
  obtain r where r: "s = token p s @ r" using token_prefix by blast
  show ?case
  proof (cases "s = []")
    case False
    then have "concat (split_tokens p s) = token p s @ concat (split_tokens (rev (token p s) @ p) (drop (length (token p s)) s))"
      by (subst split_tokens.simps) (simp add: Let_def)
    also have "\<dots> = token p s @ drop (length (token p s)) s" using 1 False by simp
    finally show ?thesis using r by (metis append_eq_conv_conj)
  qed (simp add: split_tokens.simps)
qed

section \<open>Filling lines\<close>

text \<open>The chunks that fit, their length, and the others.\<close>

fun take_fitting :: "int \<Rightarrow> int \<Rightarrow> string list \<Rightarrow> string list \<times> int \<times> string list" where
  "take_fitting width n [] = ([], n, [])"
| "take_fitting width n (c # cs) = (if n + int (length c) \<le> width
     then (case take_fitting width (n + int (length c)) cs of (l, m, r) \<Rightarrow> (c # l, m, r))
     else ([], n, c # cs))"

text \<open>\<open>chunk.rfind('-', 0, k)\<close>.\<close>

definition rfind_dash :: "nat \<Rightarrow> string \<Rightarrow> nat option" where
  "rfind_dash k s = (let after = takeWhile (\<lambda>c. c \<noteq> dash) (rev (take k s)) in
     if length after = length (take k s) then None else Some (length (take k s) - length after - 1))"

text \<open>Where a chunk that fits no line is cut.\<close>

definition long_cut :: "nat \<Rightarrow> string \<Rightarrow> nat" where
  "long_cut space chunk = (if length chunk > space
     then (case rfind_dash space chunk of
         Some h \<Rightarrow> if h > 0 \<and> (\<exists>c \<in> set (take h chunk). c \<noteq> dash) then h + 1 else space
       | None \<Rightarrow> space)
     else space)"

fun cut_long :: "int \<Rightarrow> string list \<times> int \<times> string list \<Rightarrow> string list \<times> string list" where
  "cut_long width (line, n, []) = (line, [])"
| "cut_long width (line, n, c # cs) = (if int (length c) > width
     then (let k = long_cut (nat (width - n)) c in (line @ [take k c], drop k c # cs))
     else (line, c # cs))"

definition drop_blank :: "string list \<Rightarrow> string list" where
  "drop_blank line = (if line \<noteq> [] \<and> strip (last line) = [] then butlast line else line)"

definition start_line :: "bool \<Rightarrow> string list \<Rightarrow> string list" where
  "start_line started chunks = (if started \<and> strip (hd chunks) = [] then tl chunks else chunks)"

text \<open>One turn of the loop: the chunks of the line, and those that are left.\<close>

definition next_line :: "int \<Rightarrow> bool \<Rightarrow> string list \<Rightarrow> string list \<times> string list" where
  "next_line width started chunks = cut_long width (take_fitting width 0 (start_line started chunks))"

definition chunks_size :: "string list \<Rightarrow> nat" where
  "chunks_size cs = length (concat cs) + length cs"

lemma take_fitting_split: "take_fitting w n cs = (l, m, r) \<Longrightarrow> cs = l @ r"
  by (induction w n cs arbitrary: l m r rule: take_fitting.induct) (auto split: if_splits prod.splits)

lemma take_fitting_full: "take_fitting w n cs = (l, m, c # r) \<Longrightarrow> m + int (length c) > w"
  by (induction w n cs arbitrary: l m rule: take_fitting.induct) (auto split: if_splits prod.splits)

lemma take_fitting_length: "take_fitting w n cs = (l, m, r) \<Longrightarrow> m = n + int (length (concat l)) \<and> (n \<le> w \<longrightarrow> m \<le> w)"
  by (induction w n cs arbitrary: l m r rule: take_fitting.induct) (auto split: if_splits prod.splits)

lemma long_cut_pos: "0 < space \<Longrightarrow> 0 < long_cut space c"
  by (auto simp: long_cut_def split: option.split)

lemma rfind_dash_less: "rfind_dash k s = Some h \<Longrightarrow> h < k"
proof -
  assume "rfind_dash k s = Some h"
  moreover have "length (takeWhile (\<lambda>c. c \<noteq> dash) (rev (take k s))) \<le> length (take k s)"
    by (metis length_rev length_takeWhile_le)
  ultimately show ?thesis by (auto simp: rfind_dash_def Let_def split: if_splits)
qed

lemma long_cut_le: "long_cut space c \<le> space"
  using rfind_dash_less [of space c] by (auto simp: long_cut_def Suc_le_eq split: option.split)

lemma cut_long_split: "cut_long w (l, n, r) = (line, rest) \<Longrightarrow> concat line @ concat rest = concat l @ concat r"
  by (cases "(w, l, n, r)" rule: cut_long.cases) (auto simp: Let_def split: if_splits)

lemma cut_long_size: "cut_long w (l, n, r) = (line, rest) \<Longrightarrow> chunks_size rest \<le> chunks_size r"
  by (cases "(w, l, n, r)" rule: cut_long.cases) (auto simp: Let_def chunks_size_def split: if_splits)

lemma next_line_split:
  "next_line w started cs = (line, rest) \<Longrightarrow> concat line @ concat rest = concat (start_line started cs)"
proof -
  assume n: "next_line w started cs = (line, rest)"
  obtain l m r where t: "take_fitting w 0 (start_line started cs) = (l, m, r)" by (metis prod_cases3)
  have "concat line @ concat rest = concat l @ concat r" using n unfolding next_line_def t by (rule cut_long_split)
  then show ?thesis using take_fitting_split [OF t] by simp
qed

lemma start_line_cases: "cs \<noteq> [] \<Longrightarrow> start_line b cs = cs \<or> (strip (hd cs) = [] \<and> start_line b cs = tl cs)"
  by (simp add: start_line_def)

lemma start_line_size: "cs \<noteq> [] \<Longrightarrow> start_line b cs = cs \<or> chunks_size (start_line b cs) < chunks_size cs"
  using start_line_cases [of cs b] by (cases cs) (auto simp: chunks_size_def)

lemma next_line_shrinks:
  assumes "next_line w started cs = (line, rest)" "cs \<noteq> []" "1 \<le> w"
  shows "chunks_size rest < chunks_size cs"
proof -
  let ?s = "start_line started cs"
  obtain l m r where t: "take_fitting w 0 ?s = (l, m, r)" by (metis prod_cases3)
  have c: "cut_long w (l, m, r) = (line, rest)" using assms(1) by (simp add: next_line_def t)
  note sz = cut_long_size [OF c]
  have r: "chunks_size r \<le> chunks_size ?s" "l \<noteq> [] \<Longrightarrow> chunks_size r < chunks_size ?s"
    using take_fitting_split [OF t] by (auto simp: chunks_size_def)
  have s: "?s = cs \<or> chunks_size ?s < chunks_size cs" by (rule start_line_size [OF assms(2)])
  show ?thesis
  proof (cases "l = [] \<and> ?s = cs")
    case True
    then obtain d ds where d: "r = d # ds" using take_fitting_split [OF t] assms(2) by (cases r) auto
    have m: "m = 0" "int (length d) > w"
      using take_fitting_length [OF t] take_fitting_full [of w 0 ?s l m d ds, OF t [unfolded d]] True by simp_all
    have "0 < long_cut (nat w) d" using long_cut_pos [of "nat w" d] assms(3) by simp
    moreover have "rest = drop (long_cut (nat w) d) d # ds" using c d m True by (auto simp: Let_def)
    ultimately have "chunks_size rest < chunks_size r" using m(2) assms(3) by (auto simp: d chunks_size_def)
    then show ?thesis using r(1) True by simp
  next
    case False
    then have "chunks_size r < chunks_size cs" using r s by (metis le_less_trans less_le_trans order.strict_trans1)
    then show ?thesis using sz by simp
  qed
qed

lemma next_line_smaller: "cs \<noteq> [] \<Longrightarrow> 1 \<le> w \<Longrightarrow> chunks_size (snd (next_line w started cs)) < chunks_size cs"
  by (cases "next_line w started cs") (auto dest: next_line_shrinks)

text \<open>The loop.  A width below one, which no caller has, gives no lines.\<close>

function wrap_chunks :: "nat \<Rightarrow> string \<Rightarrow> string \<Rightarrow> bool \<Rightarrow> string list \<Rightarrow> string list" where
  "wrap_chunks w first_indent indent started cs =
    (let ind = (if started then indent else first_indent); width = int w - int (length ind) in
     if cs = [] \<or> width < 1 then []
     else let r = next_line width started cs; line = drop_blank (fst r) in
       if line = [] then wrap_chunks w first_indent indent started (snd r)
       else (ind @ concat line) # wrap_chunks w first_indent indent True (snd r))"
  by pat_completeness auto
termination
proof (relation "measure (\<lambda>(w, f, i, s, cs). chunks_size cs)")
qed (auto simp: Let_def not_less intro: next_line_smaller)

declare wrap_chunks.simps [simp del]

definition wrap :: "nat \<Rightarrow> string \<Rightarrow> string \<Rightarrow> string \<Rightarrow> string list" where
  "wrap w first_indent indent text' = wrap_chunks w first_indent indent False (text_chunks text')"

definition fill :: "nat \<Rightarrow> string \<Rightarrow> string" where
  "fill w text' = join [CHR 0x0A] (wrap w [] [] text')"

section \<open>What wrapping does\<close>

text \<open>No line exceeds the width.\<close>

lemma cut_long_width:
  assumes "cut_long w (l, n, r) = (line, rest)" "n = int (length (concat l))" "n \<le> w"
  shows "int (length (concat line)) \<le> w"
proof (cases r)
  case (Cons c cs)
  have "int (min (length c) (long_cut (nat (w - n)) c)) \<le> w - n" using long_cut_le [of "nat (w - n)" c] assms(3) by linarith
  then show ?thesis using assms Cons by (auto simp: Let_def split: if_splits)
qed (use assms in simp)

lemma next_line_width: "0 \<le> w \<Longrightarrow> int (length (concat (fst (next_line w started cs)))) \<le> w"
proof -
  assume w: "0 \<le> w"
  obtain l m r where t: "take_fitting w 0 (start_line started cs) = (l, m, r)" by (metis prod_cases3)
  obtain line rest where c: "cut_long w (l, m, r) = (line, rest)" by fastforce
  have "fst (next_line w started cs) = line" by (simp add: next_line_def t c)
  moreover have "int (length (concat line)) \<le> w" using cut_long_width [OF c] take_fitting_length [OF t] w by simp
  ultimately show ?thesis by simp
qed

lemma drop_blank_shorter: "length (concat (drop_blank line)) \<le> length (concat line)"
proof (cases line rule: rev_cases)
  case (snoc xs x)
  then show ?thesis by (simp add: drop_blank_def)
qed (simp add: drop_blank_def)

lemma wrap_chunks_width: "l \<in> set (wrap_chunks w f i started cs) \<Longrightarrow> length l \<le> w"
proof (induction w f i started cs rule: wrap_chunks.induct)
  case (1 w f i started cs)
  let ?ind = "if started then i else f" let ?w = "int w - int (length ?ind)"
  let ?r = "next_line ?w started cs" let ?line = "drop_blank (fst ?r)"
  show ?case
  proof (cases "cs = [] \<or> ?w < 1")
    case True
    then show ?thesis using 1(3) by (subst (asm) wrap_chunks.simps) simp
  next
    case False
    have "int (length (concat ?line)) \<le> ?w"
      using next_line_width [of ?w started cs] drop_blank_shorter [of "fst ?r"] False by linarith
    then have len: "length (?ind @ concat ?line) \<le> w" using False by simp
    show ?thesis
    proof (cases "?line = []")
      case True
      then have "wrap_chunks w f i started cs = wrap_chunks w f i started (snd ?r)"
        using False by (subst wrap_chunks.simps) (simp add: Let_def)
      then show ?thesis using 1(1) [OF refl refl False refl refl True] 1(3) by simp
    next
      case line: False
      then have "wrap_chunks w f i started cs = (?ind @ concat ?line) # wrap_chunks w f i True (snd ?r)"
        using False by (subst wrap_chunks.simps) (simp add: Let_def)
      then show ?thesis using 1(2) [OF refl refl False refl refl line] 1(3) len by auto
    qed
  qed
qed

text \<open>And no visible character is lost, added or moved.\<close>

definition visible :: "string \<Rightarrow> string" where
  "visible s = filter (\<lambda>c. \<not> py_isspace c) s"

lemma visible_append [simp]: "visible (a @ b) = visible a @ visible b" "visible [] = []"
  by (simp_all add: visible_def)

lemma visible_blank: "strip s = [] \<Longrightarrow> visible s = []"
proof -
  assume "strip s = []"
  then have "\<forall>c \<in> set (lstrip s). py_isspace c" by (simp add: strip_def rstrip_def dropWhile_eq_Nil_conv)
  moreover have "lstrip s = [] \<or> \<not> py_isspace (hd (lstrip s))" by (metis hd_dropWhile lstrip_def)
  ultimately have "lstrip s = []" by (cases "lstrip s") auto
  then show ?thesis by (auto simp: lstrip_def visible_def dropWhile_eq_Nil_conv)
qed

lemma ws_isspace: "is_ws c \<Longrightarrow> py_isspace c"
  by (auto simp: is_ws_def py_isspace_def Let_def)

lemma visible_spaces [simp]: "visible (replicate n (CHR '' '')) = []"
  by (simp add: visible_def py_isspace_def code_point_def)

lemma visible_tabs: "visible (expandtabs col s) = visible s"
proof (induction col s rule: expandtabs.induct)
  case (2 col c cs)
  have "py_isspace c" if "code_point c = 9" using that by (simp add: py_isspace_def)
  with 2 show ?case by (auto simp: visible_def py_isspace_def code_point_def)
qed simp

lemma visible_munge: "visible (munge s) = visible s"
proof -
  have "visible (map (\<lambda>c. if is_ws c then CHR '' '' else c) t) = visible t" for t
    by (induction t) (auto simp: visible_def ws_isspace, simp add: py_isspace_def code_point_def)
  then show ?thesis by (simp add: munge_def visible_tabs)
qed

lemma visible_drop_blank: "visible (concat (drop_blank line)) = visible (concat line)"
proof (cases line rule: rev_cases)
  case (snoc xs x)
  then show ?thesis by (auto simp: drop_blank_def visible_blank)
qed (simp add: drop_blank_def)

lemma visible_start: "cs \<noteq> [] \<Longrightarrow> visible (concat (start_line b cs)) = visible (concat cs)"
  using start_line_cases [of cs b] by (cases cs) (auto simp: visible_blank)

lemma wrap_chunks_visible:
  "length f < w \<Longrightarrow> length i < w \<Longrightarrow> visible f = [] \<Longrightarrow> visible i = [] \<Longrightarrow>
   visible (concat (wrap_chunks w f i started cs)) = visible (concat cs)"
proof (induction w f i started cs rule: wrap_chunks.induct)
  case (1 w f i started cs)
  let ?ind = "if started then i else f" let ?w = "int w - int (length ?ind)"
  let ?r = "next_line ?w started cs" let ?line = "drop_blank (fst ?r)"
  show ?case
  proof (cases "cs = []")
    case True
    then show ?thesis by (subst wrap_chunks.simps) simp
  next
    case False
    then have c: "\<not> (cs = [] \<or> ?w < 1)" using 1(3,4) by simp
    have "visible (concat (fst ?r) @ concat (snd ?r)) = visible (concat cs)"
      using next_line_split [of ?w started cs "fst ?r" "snd ?r"] visible_start [OF False] by simp
    then have v: "visible (concat ?line) @ visible (concat (snd ?r)) = visible (concat cs)" by (simp add: visible_drop_blank)
    show ?thesis
    proof (cases "?line = []")
      case True
      then have "wrap_chunks w f i started cs = wrap_chunks w f i started (snd ?r)"
        using c by (subst wrap_chunks.simps) (simp add: Let_def)
      then show ?thesis using 1(1) [OF refl refl c refl refl True 1(3-6)] v True by simp
    next
      case line: False
      then have "wrap_chunks w f i started cs = (?ind @ concat ?line) # wrap_chunks w f i True (snd ?r)"
        using c by (subst wrap_chunks.simps) (simp add: Let_def)
      then show ?thesis using 1(2) [OF refl refl c refl refl line 1(3-6)] v 1(5,6) by (cases started) simp_all
    qed
  qed
qed

lemma wrap_width: "l \<in> set (wrap w f i s) \<Longrightarrow> length l \<le> w"
  unfolding wrap_def by (rule wrap_chunks_width)

lemma wrap_visible: "length f < w \<Longrightarrow> length i < w \<Longrightarrow> visible f = [] \<Longrightarrow> visible i = [] \<Longrightarrow> visible (concat (wrap w f i s)) = visible s"
  unfolding wrap_def text_chunks_def by (simp add: wrap_chunks_visible concat_split visible_munge)

end
