(* ===== verification/ReportText.thy ===== *)
theory ReportText
  imports ReportHtml TextWrap
begin

text \<open>
  The text report of \<open>report.py\<close>, the document of \<open>report.json\<close>, and \<open>write_reports\<close>.  The entries of the document that
  are copied unchanged from the saved session are the argument \<open>get\<close>, which is \<open>state.get\<close>.
\<close>

section \<open>Columns\<close>

definition ljust :: "nat \<Rightarrow> string \<Rightarrow> string" where
  "ljust n s = s @ replicate (n - length s) (CHR '' '')"

text \<open>\<open>str.center\<close>: the odd blank goes to the left in a field of odd width.\<close>

definition center_str :: "nat \<Rightarrow> string \<Rightarrow> string" where
  "center_str width s = (let pad = width - length s; l = pad div 2 + (if odd pad \<and> odd width then 1 else 0)
     in replicate l (CHR '' '') @ s @ replicate (pad - l) (CHR '' ''))"

definition text_width :: nat where
  "text_width = 100"

definition rule_line :: "char \<Rightarrow> string" where
  "rule_line c = replicate text_width c"

section \<open>Sections of the text\<close>

definition text_head :: "state option \<Rightarrow> findings \<Rightarrow> verdict \<Rightarrow> string list" where
  "text_head s F v = [rule_line (CHR ''=''), center_str text_width (''MASTER DA WEB - PC-CHECK HARDWARE BURN-IN REPORT  (v'' @ version @ '')''),
     rule_line (CHR ''=''), ''RESULT: '' @ verdict_str v, fill text_width (verdict_explanation v)] @
     map (\<lambda>g. ''Coverage gap: '' @ g) (coverage_gaps s F) @ [[]]"

definition cpu_line :: "cpu_summary \<Rightarrow> string" where
  "cpu_line c = ''CPU      : '' @ cp_socket c @ '': '' @ cpu_text c"

definition text_machine :: "state option \<Rightarrow> inventory option \<Rightarrow> string list" where
  "text_machine s hw =
     [''System   : '' @ ident_get s ''system_manufacturer'' @ '' '' @ ident_get s ''system_product'' @ ''  SN '' @ ident_get s ''display_serial'',
      ''Board    : '' @ ident_get s ''board_manufacturer'' @ '' '' @ ident_get s ''board_product'' @ ''  SN '' @ ident_get s ''board_serial'',
      ''BIOS     : '' @ bios_text s @ (let fw = inv_get [] inv_bmc_firmware hw in if fw \<noteq> [] then ''   BMC fw '' @ fw else [])] @
     map cpu_line (inv_get [] inv_cpus hw) @
     [''Memory   : '' @ inv_get ''?'' inv_memory_total hw @ '' usable, '' @ nat_str (length (inv_get [] inv_dimms hw)) @ '' DIMMs'',
      ''Profile  : '' @ profile_text s @ ''   started '' @ st_get [] st_started_at s @ ''   finished '' @ finished_text s,
      ''Reboots  : '' @ reboots_text s @ '' unexpected'', []]"

definition blanks :: "nat \<Rightarrow> string" where
  "blanks n = replicate n (CHR '' '')"

definition finding_head :: "finding \<Rightarrow> string" where
  "finding_head f = ''['' @ severity_str (f_severity f) @ ''] '' @ f_component f @ '': '' @ f_title f @
     (if f_count f > 1 then ''  (x'' @ int_str (f_count f) @ '')'' else [])"

definition detail_lines :: "finding \<Rightarrow> string list" where
  "detail_lines f = (if f_detail f \<noteq> [] then wrap text_width (blanks 7) (blanks 7) (f_detail f) else [])"

definition action_lines :: "finding \<Rightarrow> string list" where
  "action_lines f = (if f_recommendation f \<noteq> []
     then wrap text_width (blanks 7) (blanks 15) (''Action: '' @ f_recommendation f) else [])"

definition evidence_lines :: "finding \<Rightarrow> string list" where
  "evidence_lines f = map (\<lambda>ev. blanks 7 @ ''> '' @ take (text_width - 9) ev) (take 5 (f_evidence f))"

definition text_finding :: "finding \<Rightarrow> string list" where
  "text_finding f = finding_head f # detail_lines f @ action_lines f @ evidence_lines f"

definition problems :: "findings \<Rightarrow> finding list" where
  "problems F = filter (\<lambda>f. f_severity f \<noteq> INFO) (findings_all F)"

definition text_findings :: "findings \<Rightarrow> string list" where
  "text_findings F = (let n = (\<lambda>sev. nat_str (findings_counts F sev)) in
     [''FINDINGS: '' @ n FAIL @ '' failure(s), '' @ n WARN @ '' warning(s), '' @ n INFO @ '' informational'', rule_line (CHR ''-'')] @
     concat (map text_finding (problems F)) @
     (if problems F = [] then [''No failures or warnings.''] else []) @ [[]])"

definition text_phase :: "phase_row \<Rightarrow> string" where
  "text_phase r = ''  '' @ ljust 44 (rw_title r) @ '' '' @ ljust 12 (rw_status r) @ '' '' @
     rjust 9 (CHR '' '') (fmt_duration (of_int (rw_elapsed r))) @ '' / '' @
     rjust 9 (CHR '' '') (fmt_duration (of_int (rw_planned r))) @ ''  '' @ rw_result r"

definition text_phases :: "state option \<Rightarrow> string list" where
  "text_phases s = [''PHASES'', rule_line (CHR ''-'')] @ map text_phase (phase_rows s)"

definition text_peaks :: "state option \<Rightarrow> string list" where
  "text_peaks s = (let peaks = (case s of None \<Rightarrow> [] | Some st \<Rightarrow> st_telemetry_peaks st) in if peaks = [] then []
     else [[], ''PEAK TEMPERATURES'', rule_line (CHR ''-'')] @
       map (\<lambda>(name, v). ''  '' @ ljust 60 name @ '' '' @ rjust 5 (CHR '' '') (pf_fixed 0 v) @ '' C'') (take 12 (sorted_peaks peaks)))"

definition text_infos :: "findings \<Rightarrow> string list" where
  "text_infos F = (let infos = filter (\<lambda>f. f_severity f = INFO) (findings_all F) in if infos = [] then []
     else [[], ''INFORMATIONAL'', rule_line (CHR ''-'')] @ map (\<lambda>f. ''  - '' @ f_component f @ '': '' @ f_title f) infos)"

definition incident_field :: "incident \<Rightarrow> string \<Rightarrow> string" where
  "incident_field i k = ''  '' @ k @ '': '' @ (case incident_value i of PDict d \<Rightarrow> py_str (dict_get d k PNone) | _ \<Rightarrow> [])"

definition text_incident :: "incident \<Rightarrow> string list" where
  "text_incident i = [[], ''INCIDENT: '' @ in_type i @ '' detected at '' @ in_detected_at i] @
     map (incident_field i) [''running_phase'', ''last_heartbeat'', ''last_telemetry'']"

definition text_foot :: "state option \<Rightarrow> string list" where
  "text_foot s = (let session = st_get [] st_session s in
     [[], ''Logs: '' @ session @ ''/logs   Inventory: '' @ session @ ''/inventory'', rule_line (CHR ''='')])"

definition text_lines :: "state option \<Rightarrow> inventory option \<Rightarrow> findings \<Rightarrow> verdict \<Rightarrow> string list" where
  "text_lines s hw F v = text_head s F v @ text_machine s hw @ text_findings F @ text_phases s @ text_peaks s @ text_infos F @
     concat (map text_incident (case s of None \<Rightarrow> [] | Some st \<Rightarrow> st_incidents st)) @ text_foot s"

definition render_text :: "state option \<Rightarrow> inventory option \<Rightarrow> findings \<Rightarrow> verdict \<Rightarrow> string" where
  "render_text s hw F v = join newline (text_lines s hw F v) @ newline"

section \<open>report.json\<close>

definition row_value :: "phase_row \<Rightarrow> pyval" where
  "row_value r = PDict [(''name'', PStr (rw_name r)), (''title'', PStr (rw_title r)), (''planned'', PInt (rw_planned r)),
     (''status'', PStr (rw_status r)), (''elapsed'', PInt (rw_elapsed r)), (''started'', PStr (rw_started r)), (''result'', PStr (rw_result r))]"

definition report_document :: "(string \<Rightarrow> pyval \<Rightarrow> pyval) \<Rightarrow> state option \<Rightarrow> findings \<Rightarrow> verdict \<Rightarrow> (string \<times> pyval) list" where
  "report_document get s F v =
     [(''generator'', PStr (BRAND @ '' PC-Check '' @ version)), (''verdict'', PStr (verdict_str v)), (''session'', get ''session'' PNone),
      (''identity'', get ''identity'' PNone), (''inventory'', get ''inventory'' PNone), (''profile'', get ''profile'' PNone),
      (''hours'', get ''hours'' PNone), (''started_at'', get ''started_at'' PNone), (''finished_at'', get ''finished_at'' PNone),
      (''unexpected_reboots'', get ''unexpected_reboots'' (PInt 0)), (''incidents'', get ''incidents'' (PList [])),
      (''phases'', PList (map row_value (phase_rows s))), (''findings'', PList (map (\<lambda>f. PDict (to_dict f)) (findings_all F))),
      (''coverage_complete'', PBool (coverage_gaps s F = [])), (''coverage_gaps'', PList (map PStr (coverage_gaps s F))),
      (''disk_scans'', get ''disk_scans'' (PDict [])), (''selftests'', get ''selftests'' (PDict [])),
      (''options'', get ''options'' (PDict [])), (''image_release'', get ''image_release'' (PStr [])),
      (''telemetry_peaks'', get ''telemetry_peaks'' (PDict []))]"

section \<open>write_reports\<close>

text \<open>What \<open>build\<close> reads from the storage, and the parameters of the page.\<close>

record report_env =
  re_dumps :: "pyval \<Rightarrow> string"
  re_now :: string
  re_raw :: "string \<Rightarrow> pyval \<Rightarrow> pyval"
  re_inventory :: "inventory option"

text \<open>The files that were written, in order, and the verdict with the text, or the exception that ended the writing.\<close>

definition write_reports :: "report_env \<Rightarrow> session_fs \<Rightarrow> pyval list Util.disk \<Rightarrow> string \<Rightarrow> bool \<Rightarrow>
    (string \<times> string) list \<times> (exn + verdict \<times> string)" where
  "write_reports env fs disk dir inc = (case build fs disk dir inc of (s, F, v) \<Rightarrow>
     let body = render_text s (re_inventory env) F v; txt_file = (path_join dir ''report.txt'', body) in
     (case render_html (re_dumps env) (re_now env) s (re_inventory env) F v of
       Inl e \<Rightarrow> ([txt_file], Inl e)
     | Inr page \<Rightarrow> ([txt_file, (path_join dir ''report.html'', page),
         (path_join dir ''report.json'', re_dumps env (PDict (report_document (re_raw env) s F v)))], Inr (v, body))))"

section \<open>The reports tell the same\<close>

lemma blanks_visible [simp]: "visible (blanks n) = []" "length (blanks n) = n"
  by (simp_all add: blanks_def)

lemma detail_visible: "visible (concat (detail_lines f)) = visible (f_detail f)"
  by (simp add: detail_lines_def wrap_visible text_width_def)

lemma action_visible: "f_recommendation f \<noteq> [] \<longrightarrow> visible (concat (action_lines f)) = visible (''Action: '' @ f_recommendation f)"
  by (simp add: action_lines_def wrap_visible text_width_def del: visible_append)

lemma wrapped_width: "\<forall>l \<in> set (detail_lines f @ action_lines f). length l \<le> text_width"
  by (auto simp: detail_lines_def action_lines_def dest: wrap_width)

lemma text_lists_finding: "f \<in> set (problems F) \<Longrightarrow> \<exists>a b. text_lines s hw F v = a @ text_finding f @ b"
proof -
  assume "f \<in> set (problems F)"
  then obtain xs ys where "problems F = xs @ f # ys" by (meson split_list)
  then obtain c d where "concat (map text_finding (problems F)) = c @ text_finding f @ d" by simp
  then obtain c' d' where "text_findings F = c' @ text_finding f @ d'"
    unfolding text_findings_def Let_def by (metis append.assoc)
  then show ?thesis unfolding text_lines_def by (metis append.assoc)
qed

text \<open>What the page says of the verdict and of each finding, in the words of the other two reports.\<close>

lemma page_verdict:
  assumes "render_html dumps now s hw F v = Inr page"
  shows "occurs_in (''<b>'' @ verdict_str v @ ''</b>'') page"
proof -
  have e: "esc (verdict_str v) = verdict_str v" by (cases v) (simp_all only: verdict_str.simps, code_simp+)
  have "occurs_in (''<b>'' @ verdict_str v @ ''</b>'') (html_verdict v)"
    unfolding html_verdict_def e occurs_in_def
    by (intro exI [of _ "''<div class='card verdict' style='--c:'' @ verdict_color v @ '';margin-top:16px'>''"]
        exI [of _ "''<div>'' @ esc (verdict_explanation v) @ ''</div></div>''"]) simp
  moreover have "occurs_in (html_verdict v) page"
    using assms by (auto simp: render_html_def intro: occurs_concat simp del: concat.simps)
  ultimately show ?thesis by (rule occurs_trans)
qed

definition html_title :: "finding \<Rightarrow> string" where
  "html_title f = [CHR 0x27] @ ''>'' @ severity_str (f_severity f) @ ''</span><b>'' @ esc (f_component f) @ ''</b>: '' @ esc (f_title f)"

lemma page_finding:
  assumes "render_html dumps now s hw F v = Inr page" "f \<in> set (findings_all F)"
  shows "occurs_in (html_title f) page"
proof -
  have "occurs_in (html_title f) (html_finding f)"
    unfolding html_title_def html_finding_def Let_def occurs_in_def
    by (intro exI [of _ "''<div class=card><span class=sev style='--c:'' @ severity_color (f_severity f)"] exI) (simp only: append_assoc)
  with render_findings [OF assms] show ?thesis by (rule occurs_trans [rotated])
qed

text \<open>C23: when the reports are written, they agree with each other and with what was read from the storage.
  The verdict and every finding stand in \<open>report.json\<close> (its entries read back as the findings); the page is
  the rendering of the same state, findings and verdict, shows the verdict and titles every finding with its
  severity; the text names the verdict and lists every failure and warning, and of their details and
  recommendations the wrapping into lines of at most 100 columns loses no visible character.\<close>

theorem reports_agree:
  assumes "write_reports env fs disk dir inc = (written, Inr (v, body))" "build fs disk dir inc = (s, F, v')"
  shows "v = v' \<and> (\<exists>page doc entries lines.
    written = [(path_join dir ''report.txt'', body), (path_join dir ''report.html'', page), (path_join dir ''report.json'', re_dumps env (PDict doc))] \<and>
    map_of doc ''verdict'' = Some (PStr (verdict_str v')) \<and> map_of doc ''findings'' = Some (PList entries) \<and>
    map finding_of_raw entries = map Some (findings_all F) \<and>
    render_html (re_dumps env) (re_now env) s (re_inventory env) F v' = Inr page \<and>
    occurs_in (''<b>'' @ verdict_str v' @ ''</b>'') page \<and> (\<forall>f \<in> set (findings_all F). occurs_in (html_title f) page) \<and>
    body = join newline lines @ newline \<and> ''RESULT: '' @ verdict_str v' \<in> set lines \<and>
    (\<forall>f \<in> set (findings_all F). f_severity f \<noteq> INFO \<longrightarrow> (\<exists>a b. lines = a @ text_finding f @ b) \<and>
      visible (concat (detail_lines f)) = visible (f_detail f) \<and>
      (f_recommendation f \<noteq> [] \<longrightarrow> visible (concat (action_lines f)) = visible (''Action: '' @ f_recommendation f)) \<and>
      (\<forall>l \<in> set (detail_lines f @ action_lines f). length l \<le> 100)))"
proof -
  obtain page where p: "render_html (re_dumps env) (re_now env) s (re_inventory env) F v' = Inr page"
    using assms by (auto simp: write_reports_def Let_def split: sum.splits)
  let ?doc = "report_document (re_raw env) s F v'" let ?lines = "text_lines s (re_inventory env) F v'"
  have w: "v = v'" "body = join newline ?lines @ newline"
    "written = [(path_join dir ''report.txt'', body), (path_join dir ''report.html'', page), (path_join dir ''report.json'', re_dumps env (PDict ?doc))]"
    using assms p by (auto simp: write_reports_def Let_def render_text_def)
  have d: "map_of ?doc ''verdict'' = Some (PStr (verdict_str v'))"
    "map_of ?doc ''findings'' = Some (PList (map (\<lambda>f. PDict (to_dict f)) (findings_all F)))" by (simp_all add: report_document_def)
  have e: "map finding_of_raw (map (\<lambda>f. PDict (to_dict f)) (findings_all F)) = map Some (findings_all F)" by simp
  have h: "\<forall>f \<in> set (findings_all F). occurs_in (html_title f) page" using page_finding [OF p] by blast
  have r: "''RESULT: '' @ verdict_str v' \<in> set ?lines" by (simp add: text_lines_def text_head_def)
  have f: "\<forall>f \<in> set (findings_all F). f_severity f \<noteq> INFO \<longrightarrow> (\<exists>a b. ?lines = a @ text_finding f @ b) \<and>
      visible (concat (detail_lines f)) = visible (f_detail f) \<and>
      (f_recommendation f \<noteq> [] \<longrightarrow> visible (concat (action_lines f)) = visible (''Action: '' @ f_recommendation f)) \<and>
      (\<forall>l \<in> set (detail_lines f @ action_lines f). length l \<le> 100)"
    using text_lists_finding [of _ F s "re_inventory env" v'] detail_visible action_visible wrapped_width
    by (auto simp: problems_def text_width_def simp del: visible_append)
  show ?thesis
    by (intro conjI exI [of _ page] exI [of _ ?doc] exI [of _ "map (\<lambda>f. PDict (to_dict f)) (findings_all F)"] exI [of _ ?lines]
        w d e p page_verdict [OF p] h r f)
qed

text \<open>A session directory in which nothing can be read.\<close>

definition plain_env :: report_env where
  "plain_env = \<lparr>re_dumps = py_repr, re_now = ''t'', re_raw = \<lambda>_ d. d, re_inventory = None\<rparr>"

lemma plain_reports: "\<exists>written v body. write_reports plain_env fs disk dir inc = (written, Inr (v, body))"
  by (cases "build fs disk dir inc") (simp add: write_reports_def plain_env_def Let_def render_html_def inv_get_def html_disks_def)

lemma reports_agree_witness:
  "\<exists>written body page doc. write_reports plain_env empty_fs blank_disk ''s'' False = (written, Inr (INCOMPLETE, body)) \<and>
     written = [(path_join ''s'' ''report.txt'', body), (path_join ''s'' ''report.html'', page), (path_join ''s'' ''report.json'', py_repr (PDict doc))] \<and>
     map_of doc ''verdict'' = Some (PStr ''INCOMPLETE'') \<and> occurs_in ''<b>INCOMPLETE</b>'' page"
proof -
  let ?s = "saved_state empty_fs ''s''" and ?F = "findings_init (path_join ''s'' ''findings.json'') blank_disk"
  obtain written v body where w: "write_reports plain_env empty_fs blank_disk ''s'' False = (written, Inr (v, body))"
    using plain_reports by blast
  have n: "?s = None"
    by (simp add: saved_state_def state_at_def empty_fs_def read_rotating_eq)
  have "final_verdict ?s ?F False = INCOMPLETE"
    unfolding n by (simp add: final_verdict_def coverage_gaps_def state_gaps_def verdict_def findings_counts_def
      findings_init_def empty_findings_def blank_disk_def read_rotating_eq load_raw_def load_seq_def Let_def dedup_def)
  with reports_agree [OF w, of ?s ?F "final_verdict ?s ?F False"] w show ?thesis
    by (fastforce simp: build_def plain_env_def)
qed

end
