(* ===== verification/Ras.thy ===== *)
theory Ras
  imports Monitors
begin

text \<open>
  Models \<open>ras.py\<close>: the monitor that consumes rasdaemon's event database through one cursor per
  table.  The database is an argument: its table names and, per table, the rows with their ids.
  The SQL statements are \<open>MAX(id)\<close> and the rows beyond the cursor in the order of their ids.
\<close>

section \<open>Rows\<close>

datatype sqlval = SNull | SInt int | SReal pyfloat | SText string

type_synonym row = "(string, sqlval) dict"

record ras_db =
  db_tables :: "string list"
  db_rows :: "string \<Rightarrow> (int \<times> row) list"

fun sql_truthy :: "sqlval \<Rightarrow> bool" where
  "sql_truthy SNull = False"
| "sql_truthy (SInt i) = (i \<noteq> 0)"
| "sql_truthy (SReal x) = (x \<noteq> Fin 0)"
| "sql_truthy (SText s) = (s \<noteq> [])"

fun sql_str :: "sqlval \<Rightarrow> string" where
  "sql_str SNull = ''None''"
| "sql_str (SInt i) = int_str i"
| "sql_str (SReal x) = float_repr x"
| "sql_str (SText s) = s"

fun sql_int :: "sqlval \<Rightarrow> exn + int" where
  "sql_int SNull = Inl (TypeError ''int() argument must be a string or a number'')"
| "sql_int (SInt i) = Inr i"
| "sql_int (SReal x) = py_int_of (PFloat x)"
| "sql_int (SText s) = py_int_of (PStr s)"

definition sql_or :: "sqlval \<Rightarrow> sqlval \<Rightarrow> sqlval" where
  "sql_or a b = (if sql_truthy a then a else b)"

definition sql_eq_int :: "sqlval \<Rightarrow> int \<Rightarrow> bool" where
  "sql_eq_int v n = (case v of SInt i \<Rightarrow> i = n | SReal (Fin x) \<Rightarrow> x = of_int n | _ \<Rightarrow> False)"

definition row_get :: "row \<Rightarrow> string \<Rightarrow> sqlval" where
  "row_get row k = dict_get row k SNull"

section \<open>One record\<close>

text \<open>What a record means: nothing to report, or (corrected, label, threshold, component).\<close>

type_synonym judgement = "(bool \<times> string \<times> int \<times> string) option"

definition err_type :: "row \<Rightarrow> string" where
  "err_type row = py_lower (sql_str (dict_get row ''err_type'' (SText [])))"

definition bit61 :: "int \<Rightarrow> bool" where
  "bit61 n = ((n div 2 ^ 61) mod 2 = 1)"

definition mce_corrected :: "row \<Rightarrow> exn + bool" where
  "mce_corrected row = (if row_get row ''status'' = SNull then Inr False
     else ebind (sql_int (row_get row ''status'')) (\<lambda>n. Inr (\<not> bit61 n)))"

definition judge_row :: "options \<Rightarrow> string \<Rightarrow> row \<Rightarrow> exn + judgement" where
  "judge_row opts table row =
    (if table = ''mc_event'' then
       if err_type row = ''info'' then Inr None
       else Inr (Some (err_type row = ''corrected'',
         (if sql_truthy (row_get row ''label'') then sql_str (row_get row ''label'')
          else ''controller '' @ sql_str (dict_get row ''mc'' (SText ''?''))),
         ce_fail opts, ''Memory''))
     else if table = ''mce_record'' then
       ebind (mce_corrected row) (\<lambda>corrected. Inr (Some (corrected,
         ''socket '' @ sql_str (dict_get row ''socketid'' (SText ''?'')) @ '' bank '' @ sql_str (dict_get row ''bank'' (SText ''?'')),
         mce_fail opts, ''CPU/Memory'')))
     else if table = ''aer_event'' then
       Inr (Some (err_type row = ''corrected'',
         (if sql_truthy (row_get row ''dev_name'') then sql_str (row_get row ''dev_name'') else ''unknown PCIe device''),
         aer_fail opts, ''PCIe''))
     else if sql_eq_int (row_get row ''severity'') 3 then Inr None
     else Inr (Some (sql_eq_int (row_get row ''severity'') 2,
         (if sql_truthy (row_get row ''fru_text'') then sql_str (row_get row ''fru_text'') else ''firmware hardware event''),
         mce_fail opts, ''Platform'')))"

definition row_count :: "row \<Rightarrow> exn + int" where
  "row_count row = ebind (sql_int (sql_or (row_get row ''err_count'') (sql_or (row_get row ''error_count'') (SInt 1))))
     (\<lambda>n. Inr (max 1 n))"

definition corrected_str :: "bool \<Rightarrow> string" where
  "corrected_str corrected = (if corrected then ''corrected'' else ''uncorrected'')"

definition ras_key :: "string \<Rightarrow> string \<Rightarrow> bool \<Rightarrow> string" where
  "ras_key table label corrected = ''ras:'' @ table @ '':'' @ label @ '':'' @ corrected_str corrected"

text \<open>\<open>dumps\<close> is \<open>json.dumps\<close> of the row with sorted keys.\<close>

definition ras_event :: "(row \<Rightarrow> string) \<Rightarrow> string \<Rightarrow> row \<Rightarrow> int \<Rightarrow> bool \<times> string \<times> int \<times> string \<Rightarrow> event" where
  "ras_event dumps table row n j = (case j of (corrected, label, threshold, compo) \<Rightarrow>
     (event (ras_key table label corrected) (if corrected then WARN else FAIL) compo
        (''rasdaemon '' @ corrected_str corrected @ '' error: '' @ label))
       \<lparr>ev_count := n, ev_recommendation := (if compo = ''PCIe'' then REC_PCIE else REC_CPU_MEM), ev_evidence := [dumps row]\<rparr>)"

definition ras_record :: "(row \<Rightarrow> string) \<Rightarrow> string \<Rightarrow> string \<Rightarrow> row \<Rightarrow> ctx \<Rightarrow> outcome" where
  "ras_record dumps now table row c =
    (case ebind (row_count row) (\<lambda>n. ebind (judge_row (c_opts c) table row) (\<lambda>j. Inr (n, j))) of
       Inl e \<Rightarrow> raise e c
     | Inr (n, None) \<Rightarrow> ok c
     | Inr (n, Some j) \<Rightarrow>
         let c1 = ctx_add now (ras_event dumps table row n j) c
         in ok (if fst j then ctx_escalate_at (fst (snd (snd j))) (ras_key table (fst (snd j)) True) c1 else c1))"

section \<open>A poll\<close>

definition RAS_TABLES :: "string list" where
  "RAS_TABLES = [''mc_event'', ''mce_record'', ''aer_event'', ''extlog_event'']"

definition rows_after :: "ras_db \<Rightarrow> string \<Rightarrow> int \<Rightarrow> (int \<times> row) list" where
  "rows_after db table cursor = sort_key fst (filter (\<lambda>r. cursor < fst r) (db_rows db table))"

definition max_id :: "ras_db \<Rightarrow> string \<Rightarrow> int" where
  "max_id db table = (if db_rows db table = [] then 0 else Max (set (map fst (db_rows db table))))"

definition ras_row :: "(row \<Rightarrow> string) \<Rightarrow> string \<Rightarrow> string \<Rightarrow> int \<times> row \<Rightarrow> ctx \<Rightarrow> outcome" where
  "ras_row dumps now table r c = andthen (ras_record dumps now table (snd r) c)
     (\<lambda>c. ok (put_seen ''rasdaemon'' table (Count (fst r)) c))"

definition ras_table :: "(row \<Rightarrow> string) \<Rightarrow> string \<Rightarrow> ras_db \<Rightarrow> string \<Rightarrow> ctx \<Rightarrow> outcome" where
  "ras_table dumps now db table c =
    (if table \<notin> set (db_tables db) then ok c
     else let cursor = seen_count (seen ''rasdaemon'' c) table in
       if max_id db table < cursor then raise (RuntimeError (''rasdaemon '' @ table @ '' was reset during the test'')) c
       else for_each (ras_row dumps now table) (rows_after db table cursor) c)"

text \<open>The state of rasdaemon: whether its unit is active, and its database (\<open>None\<close>: no file;
  \<open>Inl\<close>: it cannot be opened).\<close>

record ras_state =
  rs_active :: bool
  rs_db :: "(exn + ras_db) option"

definition ras_poll :: "(row \<Rightarrow> string) \<Rightarrow> string \<times> ras_state \<Rightarrow> ctx \<Rightarrow> outcome" where
  "ras_poll dumps r c =
    (if \<not> rs_active (snd r) then raise (RuntimeError ''rasdaemon is not active; trace-only hardware errors may be missed'') c
     else (case rs_db (snd r) of
       None \<Rightarrow> raise (RuntimeError ''rasdaemon database is missing; enable --record'') c
     | Some (Inl e) \<Rightarrow> raise e c
     | Some (Inr db) \<Rightarrow>
         if set (db_tables db) \<inter> set RAS_TABLES = {}
         then raise (RuntimeError ''rasdaemon has no supported hardware event tables'') c
         else for_each (ras_table dumps (fst r) db) RAS_TABLES c))"

section \<open>The contract\<close>

lemma row_count_pos: "row_count row = Inr n \<Longrightarrow> 1 \<le> n"
  by (auto simp: row_count_def)

lemma ras_event_fields [simp]:
  "ev_count (ras_event d t row n j) = n"
  "ev_severity (ras_event d t row n j) = (if fst j then WARN else FAIL)"
  "ev_key (ras_event d t row n j) = ras_key t (fst (snd j)) (fst j)"
  by (simp_all add: ras_event_def split: prod.split)

lemma ras_record_keeps: "keeps c (snd (ras_record dumps now table row c))"
  by (auto simp: ras_record_def Let_def legal_def intro!: keeps_then dest!: row_count_pos
      split: sum.split option.split)

lemma ras_row_keeps: "keeps c (snd (ras_row dumps now table r c))"
  unfolding ras_row_def by (rule keeps_seq [OF ras_record_keeps]) simp

lemma ras_table_keeps: "keeps c (snd (ras_table dumps now db table c))"
  by (simp add: ras_table_def Let_def keeps_for_each ras_row_keeps)

interpretation ras: hardware_monitor "ras_poll dumps" for dumps
  by unfold_locales (simp add: ras_poll_def keeps_for_each ras_table_keeps split: option.split sum.split)

section \<open>Uncorrected errors fail at once, corrected ones at their limit\<close>

lemma record_uncorrected:
  assumes "row_count row = Inr n" "judge_row (c_opts c) table row = Inr (Some (False, label, threshold, compo))"
  shows "verdict (c_findings (snd (ras_record dumps now table row c))) inc = FAILED"
proof -
  let ?e = "ras_event dumps table row n (False, label, threshold, compo)"
  have "snd (ras_record dumps now table row c) = ctx_add now ?e c"
    using assms by (simp add: ras_record_def)
  then show ?thesis using add_FAIL_verdict [of ?e now "c_findings c" inc] by simp
qed

text \<open>The columns the code converts to integers hold integers, or nothing.\<close>

definition int_column :: "row \<Rightarrow> string \<Rightarrow> bool" where
  "int_column row k = (case map_of row k of None \<Rightarrow> True | Some SNull \<Rightarrow> True | Some (SInt i) \<Rightarrow> True | _ \<Rightarrow> False)"

definition plain_row :: "string \<Rightarrow> row \<Rightarrow> bool" where
  "plain_row table row \<longleftrightarrow> int_column row ''err_count'' \<and> int_column row ''error_count'' \<and>
     (table = ''mce_record'' \<longrightarrow> int_column row ''status'')"

text \<open>
  What each table says about an error that hardware did not correct: the error type of the memory
  and PCIe events is a text other than ``corrected'' and (for memory) ``info'' in any case of
  letters, or missing; a machine check has bit 61 of its status set, or no status; a firmware record has
  a severity other than corrected (2) and informational (3), or none.
\<close>

definition type_is :: "string list \<Rightarrow> row \<Rightarrow> bool" where
  "type_is names row = (case map_of row ''err_type'' of
     Some (SText s) \<Rightarrow> py_lower s \<in> set names | Some SNull \<Rightarrow> False | Some _ \<Rightarrow> True | None \<Rightarrow> False)"

definition uncorrected_row :: "string \<Rightarrow> row \<Rightarrow> bool" where
  "uncorrected_row table row =
    (if table = ''mc_event'' then \<not> type_is [''corrected'', ''info''] row
     else if table = ''aer_event'' then \<not> type_is [''corrected''] row
     else if table = ''mce_record'' then (case map_of row ''status'' of Some (SInt s) \<Rightarrow> odd (s div 2 ^ 61) | _ \<Rightarrow> True)
     else (case map_of row ''severity'' of Some (SInt n) \<Rightarrow> n \<noteq> 2 \<and> n \<noteq> 3 | Some (SReal x) \<Rightarrow> False | _ \<Rightarrow> True))"

lemma plain_count: "plain_row table row \<Longrightarrow> \<exists>n. row_count row = Inr n"
  by (auto simp: plain_row_def int_column_def row_count_def sql_or_def row_get_def dict_get_def
      split: option.splits sqlval.splits)

lemma plain_corrected:
  assumes "int_column row ''status''"
  shows "mce_corrected row = Inr (case map_of row ''status'' of Some (SInt s) \<Rightarrow> \<not> odd (s div 2 ^ 61) | _ \<Rightarrow> False)"
  using assms
  by (auto simp: int_column_def mce_corrected_def row_get_def dict_get_def bit61_def odd_iff_mod_2_eq_one
      split: option.splits sqlval.splits)

lemma plain_judge: "plain_row table row \<Longrightarrow> \<exists>j. judge_row opts table row = Inr j"
  by (auto simp: judge_row_def plain_row_def plain_corrected)

lemma other_type:
  "\<not> type_is names row \<Longrightarrow> set names \<subseteq> {''corrected'', ''info''} \<Longrightarrow> err_type row \<notin> set names"
proof -
  have "py_lower ''None'' = ''none''" "py_lower [] = []" by code_simp+
  then show "\<not> type_is names row \<Longrightarrow> set names \<subseteq> {''corrected'', ''info''} \<Longrightarrow> err_type row \<notin> set names"
    by (auto simp: type_is_def err_type_def dict_get_def split: option.splits sqlval.splits)
qed

lemma judge_uncorrected:
  assumes "uncorrected_row table row" "plain_row table row"
  shows "\<exists>label threshold compo. judge_row opts table row = Inr (Some (False, label, threshold, compo))"
proof -
  have "err_type row \<noteq> ''corrected'' \<and> err_type row \<noteq> ''info''" if "table = ''mc_event''"
    using other_type [of "[''corrected'', ''info'']" row] assms(1) that by (auto simp: uncorrected_row_def)
  moreover have "err_type row \<noteq> ''corrected''" if "table = ''aer_event''"
    using other_type [of "[''corrected'']" row] assms(1) that by (auto simp: uncorrected_row_def)
  moreover have "mce_corrected row = Inr False" if "table = ''mce_record''"
    using assms that by (auto simp: uncorrected_row_def plain_row_def plain_corrected split: option.splits sqlval.splits)
  moreover have "\<not> sql_eq_int (row_get row ''severity'') 3 \<and> \<not> sql_eq_int (row_get row ''severity'') 2"
    if "table \<notin> {''mc_event'', ''aer_event'', ''mce_record''}"
    using assms(1) that
    by (auto simp: uncorrected_row_def sql_eq_int_def row_get_def dict_get_def split: option.splits sqlval.splits)
  ultimately show ?thesis by (simp add: judge_row_def)
qed

lemma row_plain:
  "plain_row table (snd r) \<Longrightarrow> fst (ras_row dumps now table r c) = None"
  using plain_count [of table "snd r"] plain_judge [of table "snd r" "c_opts c"]
  by (auto simp: ras_row_def ras_record_def Let_def split: option.split)

lemma row_fails:
  assumes "uncorrected_row table (snd r)" "plain_row table (snd r)"
  shows "verdict (c_findings (snd (ras_row dumps now table r c))) inc = FAILED"
proof -
  obtain n l t k where j: "row_count (snd r) = Inr n" "judge_row (c_opts c) table (snd r) = Inr (Some (False, l, t, k))"
    using plain_count assms judge_uncorrected by blast
  from record_uncorrected [OF j] show ?thesis
    using j by (simp add: ras_row_def ras_record_def Let_def)
qed

lemma rows_fail:
  "\<forall>q \<in> set rs. plain_row table (snd q) \<Longrightarrow> findings_ok (c_findings c) \<Longrightarrow>
   fst (for_each (ras_row dumps now table) rs c) = None \<and>
   (r \<in> set rs \<longrightarrow> uncorrected_row table (snd r) \<longrightarrow>
     verdict (c_findings (snd (for_each (ras_row dumps now table) rs c))) inc = FAILED)"
proof (induction rs arbitrary: c)
  case (Cons q rs)
  define d where "d = snd (ras_row dumps now table q c)"
  have q: "ras_row dumps now table q c = ok d"
    using row_plain [of table q dumps now c] Cons.prems(1) by (cases "ras_row dumps now table q c") (simp add: d_def ok_def)
  have k: "findings_ok (c_findings d)" using keeps_ok [OF ras_row_keeps] Cons.prems(2) by (simp add: d_def)
  have g: "grows d (snd (for_each (ras_row dumps now table) rs d))"
    by (intro grows_for_each keepsD(1) ras_row_keeps)
  have "verdict (c_findings d) inc = FAILED" if "uncorrected_row table (snd q)"
    using row_fails [OF that] Cons.prems(1) by (simp add: d_def)
  then show ?case using Cons.IH [OF _ k] Cons.prems(1) FAILED_le [OF g k] by (auto simp: q)
qed simp

text \<open>A machine check record counts as corrected exactly when it has a status and bit 61
  (uncorrected error) of it is clear, also when SQLite reports the register as a negative number.\<close>

theorem mce_status_bit:
  "mce_corrected [(''status'', SInt (s - 2 ^ 64 * w))] = Inr (\<not> odd (s div 2 ^ 61)) \<and> mce_corrected [] = Inr False"
proof -
  have "s - 2 ^ 64 * w = s + 2 ^ 61 * (- 8 * w)" by simp
  also have "\<dots> div 2 ^ 61 = - 8 * w + s div 2 ^ 61" by (rule div_mult_self2) simp
  also have "odd \<dots> = odd (s div 2 ^ 61)" by simp
  finally have "bit61 (s - 2 ^ 64 * w) = odd (s div 2 ^ 61)" by (simp only: bit61_def odd_iff_mod_2_eq_one)
  then show ?thesis by (simp only: mce_corrected_def row_get_def dict_get_def map_of.simps fst_conv snd_conv
        fun_upd_same option.case sqlval.distinct if_False if_True sql_int.simps ebind_simps simp_thms)
qed

section \<open>No record is read twice\<close>

lemma seen_record: "seen g (snd (ras_record dumps now table row c)) = seen g c"
  by (simp add: ras_record_def Let_def split: sum.split option.split prod.split)

lemma fst_record_ok: "fst r = None \<Longrightarrow> r = ok (snd r)"
  by (cases r) (simp add: ok_def)

lemma row_cursor:
  "fst (ras_row dumps now table r c) = None \<Longrightarrow>
   seen_count (seen ''rasdaemon'' (snd (ras_row dumps now table r c))) t =
     (if t = table then fst r else seen_count (seen ''rasdaemon'' c) t)"
  using seen_record [of "''rasdaemon''" dumps now table "snd r" c]
  by (cases "ras_record dumps now table (snd r) c")
    (auto simp: ras_row_def andthen_def ok_def seen_count_def dict_simps split: option.splits)

lemma rows_cursor:
  "fst (for_each (ras_row dumps now table) rs c) = None \<Longrightarrow>
   seen_count (seen ''rasdaemon'' (snd (for_each (ras_row dumps now table) rs c))) t =
     (if t = table \<and> rs \<noteq> [] then fst (last rs) else seen_count (seen ''rasdaemon'' c) t)"
proof (induction rs arbitrary: c)
  case (Cons r rs)
  then have n: "fst (ras_row dumps now table r c) = None"
    by (auto simp: andthen_def split: prod.splits option.splits)
  from fst_record_ok [OF this] obtain c1 where c1: "ras_row dumps now table r c = ok c1" by blast
  from Cons.prems have m: "fst (for_each (ras_row dumps now table) rs c1) = None" using c1 by simp
  have "seen_count (seen ''rasdaemon'' c1) t = (if t = table then fst r else seen_count (seen ''rasdaemon'' c) t)"
    using row_cursor [OF n, of t] c1 by simp
  with Cons.IH [OF m] show ?case using c1 by auto
qed simp

lemma sorted_le_last: "sorted xs \<Longrightarrow> x \<in> set xs \<Longrightarrow> x \<le> last (xs :: int list)"
  by (induction xs) auto

lemma rows_after_last:
  "rows_after db table cursor \<noteq> [] \<Longrightarrow> \<forall>r \<in> set (db_rows db table). fst r \<le> max cursor (fst (last (rows_after db table cursor)))"
proof
  fix r assume ne: "rows_after db table cursor \<noteq> []" and r: "r \<in> set (db_rows db table)"
  show "fst r \<le> max cursor (fst (last (rows_after db table cursor)))"
  proof (cases "fst r \<le> cursor")
    case False
    then have "r \<in> set (rows_after db table cursor)" using r by (simp add: rows_after_def)
    then have "fst r \<in> set (map fst (rows_after db table cursor))" by simp
    moreover have "sorted (map fst (rows_after db table cursor))" by (simp add: rows_after_def)
    ultimately have "fst r \<le> last (map fst (rows_after db table cursor))" by (rule sorted_le_last [rotated])
    then show ?thesis using ne by (simp add: last_map)
  qed simp
qed

text \<open>The cursor of a table is at or beyond all its rows.\<close>

definition caught_up :: "ras_db \<Rightarrow> string \<Rightarrow> ctx \<Rightarrow> bool" where
  "caught_up db table c \<longleftrightarrow> (\<forall>r \<in> set (db_rows db table). fst r \<le> seen_count (seen ''rasdaemon'' c) table)"

lemma table_catches_up:
  assumes "fst (ras_table dumps now db table c) = None" "table \<in> set (db_tables db)"
  shows "caught_up db table (snd (ras_table dumps now db table c))"
proof -
  let ?k = "seen_count (seen ''rasdaemon'' c) table"
  let ?rs = "rows_after db table ?k"
  have t: "ras_table dumps now db table c = for_each (ras_row dumps now table) ?rs c"
    using assms by (auto simp: ras_table_def Let_def split: if_splits)
  have last: "seen_count (seen ''rasdaemon'' (snd (for_each (ras_row dumps now table) ?rs c))) table =
      (if ?rs \<noteq> [] then fst (last ?rs) else ?k)"
    using rows_cursor [of dumps now table ?rs c table] assms(1) t by simp
  show ?thesis
  proof (cases "?rs = []")
    case True
    then have "\<forall>r \<in> set (db_rows db table). fst r \<le> ?k"
      by (metis filter_empty_conv length_0_conv length_sort linorder_not_less rows_after_def)
    then show ?thesis using True last by (simp add: caught_up_def t)
  next
    case False
    have "last ?rs \<in> set ?rs" using False by simp
    then have "?k < fst (last ?rs)" by (simp add: rows_after_def)
    then show ?thesis using rows_after_last [OF False] last False by (auto simp: caught_up_def t max_def)
  qed
qed

lemma table_other:
  "t \<noteq> table \<Longrightarrow> fst (ras_table dumps now db table c) = None \<Longrightarrow>
   seen_count (seen ''rasdaemon'' (snd (ras_table dumps now db table c))) t = seen_count (seen ''rasdaemon'' c) t"
  by (auto simp: ras_table_def Let_def rows_cursor split: if_splits)

lemma tables_catch_up:
  "fst (for_each (ras_table dumps now db) ts c) = None \<Longrightarrow> distinct ts \<Longrightarrow>
   (\<forall>t \<in> set ts. t \<in> set (db_tables db) \<longrightarrow> caught_up db t (snd (for_each (ras_table dumps now db) ts c))) \<and>
   (\<forall>t. t \<notin> set ts \<longrightarrow> seen_count (seen ''rasdaemon'' (snd (for_each (ras_table dumps now db) ts c))) t
      = seen_count (seen ''rasdaemon'' c) t)"
proof (induction ts arbitrary: c)
  case (Cons x ts)
  then have n: "fst (ras_table dumps now db x c) = None"
    by (auto simp: andthen_def split: prod.splits option.splits)
  from fst_record_ok [OF this] obtain c1 where c1: "ras_table dumps now db x c = ok c1" by blast
  have "caught_up db x c1" if "x \<in> set (db_tables db)" using table_catches_up [OF n that] c1 by simp
  moreover have "seen_count (seen ''rasdaemon'' c1) t = seen_count (seen ''rasdaemon'' c) t" if "t \<noteq> x" for t
    using table_other [OF that n] c1 by simp
  ultimately show ?case using Cons.IH [of c1] Cons.prems c1 by (auto simp: caught_up_def)
qed simp

lemma caught_up_skips:
  assumes "caught_up db table c" "\<not> max_id db table < seen_count (seen ''rasdaemon'' c) table \<or> table \<notin> set (db_tables db)"
  shows "ras_table dumps now db table c = ok c"
proof -
  have "filter (\<lambda>r. seen_count (seen ''rasdaemon'' c) table < fst r) (db_rows db table) = []"
    using assms(1) by (auto simp: caught_up_def filter_empty_conv)
  then have "rows_after db table (seen_count (seen ''rasdaemon'' c) table) = []"
    by (simp add: rows_after_def)
  then show ?thesis using assms(2) by (auto simp: ras_table_def Let_def)
qed

text \<open>The cursor of a table never passes its largest id, when it does not start beyond it.\<close>

lemma table_not_reset:
  assumes "fst (ras_table dumps now db table c) = None" "table \<in> set (db_tables db)"
  shows "seen_count (seen ''rasdaemon'' (snd (ras_table dumps now db table c))) table \<le> max_id db table"
proof -
  let ?k = "seen_count (seen ''rasdaemon'' c) table"
  let ?rs = "rows_after db table ?k"
  have t: "ras_table dumps now db table c = for_each (ras_row dumps now table) ?rs c" "?k \<le> max_id db table"
    using assms by (auto simp: ras_table_def Let_def split: if_splits)
  have last: "seen_count (seen ''rasdaemon'' (snd (for_each (ras_row dumps now table) ?rs c))) table =
      (if ?rs \<noteq> [] then fst (last ?rs) else ?k)"
    using rows_cursor [of dumps now table ?rs c table] assms(1) t by simp
  have "fst (last ?rs) \<le> max_id db table" if "?rs \<noteq> []"
  proof -
    have "last ?rs \<in> set (db_rows db table)" using last_in_set [OF that] by (simp add: rows_after_def)
    then show ?thesis by (auto simp: max_id_def)
  qed
  then show ?thesis using last t by simp
qed

text \<open>What a successful poll leaves behind for the tables it has read.\<close>

definition settled :: "ras_db \<Rightarrow> string \<Rightarrow> ctx \<Rightarrow> bool" where
  "settled db t c \<longleftrightarrow> (t \<in> set (db_tables db) \<longrightarrow>
     caught_up db t c \<and> seen_count (seen ''rasdaemon'' c) t \<le> max_id db t)"

lemma settled_cong:
  "seen_count (seen ''rasdaemon'' c') t = seen_count (seen ''rasdaemon'' c) t \<Longrightarrow> settled db t c' = settled db t c"
  by (simp add: settled_def caught_up_def)

lemma tables_settled:
  "fst (for_each (ras_table dumps now db) ts c) = None \<Longrightarrow> distinct ts \<Longrightarrow>
   (\<forall>t \<in> set ts. settled db t (snd (for_each (ras_table dumps now db) ts c))) \<and>
   (\<forall>t. t \<notin> set ts \<longrightarrow> seen_count (seen ''rasdaemon'' (snd (for_each (ras_table dumps now db) ts c))) t
      = seen_count (seen ''rasdaemon'' c) t)"
proof (induction ts arbitrary: c)
  case (Cons x ts)
  then have n: "fst (ras_table dumps now db x c) = None"
    by (auto simp: andthen_def split: prod.splits option.splits)
  from fst_record_ok [OF this] obtain c1 where c1: "ras_table dumps now db x c = ok c1" by blast
  have x: "settled db x c1" using table_catches_up [OF n] table_not_reset [OF n] c1 by (simp add: settled_def)
  have other: "seen_count (seen ''rasdaemon'' c1) t = seen_count (seen ''rasdaemon'' c) t" if "t \<noteq> x" for t
    using table_other [OF that n] c1 by simp
  have "fst (for_each (ras_table dumps now db) ts c1) = None" using Cons.prems c1 by simp
  note ih = Cons.IH [OF this]
  define d where "d = snd (for_each (ras_table dumps now db) ts c1)"
  have e: "snd (for_each (ras_table dumps now db) (x # ts) c) = d" using c1 by (simp add: d_def)
  have ts: "\<forall>t \<in> set ts. settled db t d" "\<And>t. t \<notin> set ts \<Longrightarrow> seen_count (seen ''rasdaemon'' d) t = seen_count (seen ''rasdaemon'' c1) t"
    using ih Cons.prems(2) by (auto simp: d_def)
  have "settled db x d" using settled_cong [OF ts(2)] x Cons.prems(2) by simp
  then show ?case unfolding e using ts other by auto
qed simp

text \<open>A table whose cursor is not beyond its rows, and whose rows can be read.\<close>

definition readable :: "ras_db \<Rightarrow> string \<Rightarrow> ctx \<Rightarrow> bool" where
  "readable db t c \<longleftrightarrow> (t \<in> set (db_tables db) \<longrightarrow>
     seen_count (seen ''rasdaemon'' c) t \<le> max_id db t \<and> (\<forall>q \<in> set (db_rows db t). plain_row t (snd q)))"

text \<open>A row of the database that no poll has read yet and that hardware did not correct.\<close>

definition unread_failure :: "ras_db \<Rightarrow> string \<Rightarrow> ctx \<Rightarrow> bool" where
  "unread_failure db t c \<longleftrightarrow> t \<in> set (db_tables db) \<and>
     (\<exists>(i, row) \<in> set (db_rows db t). seen_count (seen ''rasdaemon'' c) t < i \<and> uncorrected_row t row)"

lemma table_fails:
  assumes "readable db t c" "findings_ok (c_findings c)"
  shows "fst (ras_table dumps now db t c) = None"
    "unread_failure db t c \<Longrightarrow> verdict (c_findings (snd (ras_table dumps now db t c))) inc = FAILED"
proof -
  let ?rs = "rows_after db t (seen_count (seen ''rasdaemon'' c) t)"
  have t: "ras_table dumps now db t c = for_each (ras_row dumps now t) ?rs c" if "t \<in> set (db_tables db)"
    using assms(1) that by (simp add: ras_table_def readable_def Let_def)
  have plain: "\<forall>q \<in> set ?rs. plain_row t (snd q)" if "t \<in> set (db_tables db)"
    using assms(1) that by (simp add: readable_def rows_after_def)
  show "fst (ras_table dumps now db t c) = None"
    using t rows_fail [OF plain assms(2)] by (cases "t \<in> set (db_tables db)") (simp_all add: ras_table_def)
  assume u: "unread_failure db t c"
  then obtain q where "q \<in> set ?rs" "uncorrected_row t (snd q)"
    by (force simp: unread_failure_def rows_after_def)
  then show "verdict (c_findings (snd (ras_table dumps now db t c))) inc = FAILED"
    using u t rows_fail [OF plain assms(2)] by (auto simp: unread_failure_def)
qed

lemma tables_fail:
  "\<forall>t \<in> set ts. readable db t c \<Longrightarrow> distinct ts \<Longrightarrow> findings_ok (c_findings c) \<Longrightarrow>
   fst (for_each (ras_table dumps now db) ts c) = None \<and>
   ((\<exists>t \<in> set ts. unread_failure db t c) \<longrightarrow>
     verdict (c_findings (snd (for_each (ras_table dumps now db) ts c))) inc = FAILED)"
proof (induction ts arbitrary: c)
  case (Cons x ts)
  define d where "d = snd (ras_table dumps now db x c)"
  have n: "fst (ras_table dumps now db x c) = None" using table_fails(1) Cons.prems by simp
  then have x: "ras_table dumps now db x c = ok d" using fst_record_ok by (simp add: d_def)
  have same: "seen_count (seen ''rasdaemon'' d) t = seen_count (seen ''rasdaemon'' c) t" if "t \<in> set ts" for t
    using table_other [OF _ n, of t] Cons.prems(2) that by (auto simp: d_def)
  have k: "findings_ok (c_findings d)" using keeps_ok [OF ras_table_keeps] Cons.prems(3) by (simp add: d_def)
  have g: "grows d (snd (for_each (ras_table dumps now db) ts d))"
    by (intro grows_for_each keepsD(1) ras_table_keeps)
  have "\<forall>t \<in> set ts. readable db t d" using Cons.prems(1) same by (simp add: readable_def)
  then have ih: "fst (for_each (ras_table dumps now db) ts d) = None"
    "\<exists>t \<in> set ts. unread_failure db t d \<Longrightarrow> verdict (c_findings (snd (for_each (ras_table dumps now db) ts d))) inc = FAILED"
    using Cons.IH [OF _ _ k] Cons.prems(2) by auto
  have "verdict (c_findings d) inc = FAILED" if "unread_failure db x c"
    using table_fails(2) [OF _ Cons.prems(3) that] Cons.prems(1) by (simp add: d_def)
  moreover have "unread_failure db t d" if "t \<in> set ts" "unread_failure db t c" for t
    using that same by (simp add: unread_failure_def)
  ultimately show ?case using ih FAILED_le [OF g k] by (auto simp: x)
qed simp

text \<open>C34: an error that hardware did not correct fails the machine.  When the event database holds,
  in any of the four tables and beyond what was read before, a record that by its own columns was
  not corrected, the next poll runs to its end and the verdict is FAILED, whatever other records
  stand before and after it.\<close>

theorem uncorrected_record_fails:
  assumes "rs_active r" "rs_db r = Some (Inr db)"
    and "table \<in> {''mc_event'', ''mce_record'', ''aer_event'', ''extlog_event''}" "table \<in> set (db_tables db)"
    and "(i, row) \<in> set (db_rows db table)" "seen_count (seen ''rasdaemon'' c) table < i" "uncorrected_row table row"
    and "\<forall>t \<in> set RAS_TABLES. readable db t c" "findings_ok (c_findings c)"
  shows "fst (ras_poll dumps (now, r) c) = None \<and> verdict (c_findings (snd (ras_poll dumps (now, r) c))) inc = FAILED"
proof -
  have "table \<in> set RAS_TABLES" using assms(3) by (auto simp: RAS_TABLES_def)
  then have "unread_failure db table c" "set (db_tables db) \<inter> set RAS_TABLES \<noteq> {}"
    using assms(4-7) by (auto simp: unread_failure_def)
  moreover have "distinct RAS_TABLES" by (simp add: RAS_TABLES_def)
  ultimately show ?thesis
    using tables_fail [OF assms(8) _ assms(9), of dumps now inc] \<open>table \<in> set RAS_TABLES\<close> assms(1,2)
    by (auto simp: ras_poll_def)
qed

lemma skip_settled: "settled db t c \<Longrightarrow> ras_table dumps now db t c = ok c"
  by (cases "t \<in> set (db_tables db)") (simp add: settled_def caught_up_skips, simp add: ras_table_def)

lemma settled_tables_skip:
  "(\<forall>t \<in> set ts. settled db t c) \<Longrightarrow> for_each (ras_table dumps now db) ts c = ok c"
proof (induction ts)
  case (Cons x ts)
  then have "ras_table dumps now db x c = ok c" using skip_settled by simp
  then show ?case using Cons by simp
qed (simp add: ok_def)

lemma repoll_is_idle:
  assumes "ras_poll dumps (now, r) c = ok c1"
  shows "ras_poll dumps (later, r) c1 = ok c1"
proof -
  obtain db where db: "rs_active r" "rs_db r = Some (Inr db)" "set (db_tables db) \<inter> set RAS_TABLES \<noteq> {}"
    "for_each (ras_table dumps now db) RAS_TABLES c = ok c1"
    using assms by (auto simp: ras_poll_def ok_def raise_def split: option.splits sum.splits if_splits)
  have "\<forall>t \<in> set RAS_TABLES. settled db t c1"
    using tables_settled [of dumps now db RAS_TABLES c] db(4) by (simp add: RAS_TABLES_def)
  from settled_tables_skip [OF this] show ?thesis using db(1-3) by (simp add: ras_poll_def)
qed

text \<open>A poll that succeeded has consumed the database: polling the same database again, at
  any later time, records nothing, so that no hardware error is counted twice.\<close>

theorem no_record_read_twice:
  "ras_poll dumps (now, r) c = ok c1 \<Longrightarrow> ras_poll dumps (later, r) c1 = ok c1"
  by (rule repoll_is_idle)

section \<open>Witnesses\<close>

definition ras_sample :: ras_db where
  "ras_sample = \<lparr>db_tables = [''aer_event''],
     db_rows = (\<lambda>_. [(7, [(''id'', SInt 7), (''err_type'', SText ''Fatal''), (''dev_name'', SText ''0000:01:00.0'')])])\<rparr>"

lemma sample_row:
  "row_count [(''id'', SInt 7), (''err_type'', SText ''Fatal''), (''dev_name'', SText ''0000:01:00.0'')] = Inr 1"
  "judge_row opts ''aer_event'' [(''id'', SInt 7), (''err_type'', SText ''Fatal''), (''dev_name'', SText ''0000:01:00.0'')]
     = Inr (Some (False, ''0000:01:00.0'', aer_fail opts, ''PCIe''))"
  by (simp_all add: row_count_def judge_row_def sql_or_def row_get_def dict_get_def err_type_def py_lower_def
      lower_char_def code_point_def)

theorem uncorrected_record_fails_witness:
  "verdict (c_findings (snd (ras_poll (\<lambda>_. []) (''t'', \<lparr>rs_active = True, rs_db = Some (Inr ras_sample)\<rparr>) blank_ctx))) False = FAILED"
proof -
  have u: "uncorrected_row ''aer_event'' [(''id'', SInt 7), (''err_type'', SText ''Fatal''), (''dev_name'', SText ''0000:01:00.0'')]"
    by code_simp
  have "\<forall>t \<in> set RAS_TABLES. readable ras_sample t blank_ctx"
    by (simp add: readable_def ras_sample_def max_id_def seen_count_def plain_row_def int_column_def)
  then show ?thesis
    using uncorrected_record_fails [where r = "\<lparr>rs_active = True, rs_db = Some (Inr ras_sample)\<rparr>" and db = ras_sample
        and table = "''aer_event''" and i = 7 and c = blank_ctx, OF _ _ _ _ _ _ u]
    by (simp add: ras_sample_def seen_count_def)
qed

lemma sample_poll: "\<exists>c1. ras_poll (\<lambda>_. []) (''t'', \<lparr>rs_active = True, rs_db = Some (Inr ras_sample)\<rparr>) blank_ctx = ok c1"
  by (simp add: ras_poll_def ras_sample_def RAS_TABLES_def ras_table_def max_id_def rows_after_def seen_count_def
      ras_row_def ras_record_def sample_row Let_def, rule exI, rule refl)

theorem no_record_read_twice_witness:
  "\<exists>c1. ras_poll (\<lambda>_. []) (''t'', \<lparr>rs_active = True, rs_db = Some (Inr ras_sample)\<rparr>) blank_ctx = ok c1 \<and>
     ras_poll (\<lambda>_. []) (''t2'', \<lparr>rs_active = True, rs_db = Some (Inr ras_sample)\<rparr>) c1 = ok c1"
  using sample_poll no_record_read_twice by blast

end
