(* ===== verification/MonitorSet.thy ===== *)
theory MonitorSet
  imports Ras DiskFrame
begin

text \<open>
  Models the heartbeat of \<open>monitors.py\<close> (lines 450-484) and the choice of the monitors that run
  (\<open>start_monitors\<close> in \<open>orchestrator.py\<close>).  \<open>monitor_poll\<close> is the poll of any of them; all of
  them satisfy the contract \<open>hardware_monitor\<close>.
\<close>

section \<open>Heartbeat\<close>

text \<open>\<open>round(x)\<close> and \<open>round(x, 1)\<close>.\<close>

definition py_round :: "pyfloat \<Rightarrow> exn + int" where
  "py_round x = (case x of Fin r \<Rightarrow> Inr (round_half_even r)
     | NaN \<Rightarrow> Inl (ValueError ''cannot convert float NaN to integer'')
     | _ \<Rightarrow> Inl (OverflowError ''cannot convert float infinity to integer''))"

definition round_tenth :: "rat \<Rightarrow> rat" where
  "round_tenth x = fl (of_int (round_half_even (x * 10)) / 10)"

text \<open>\<open>hb_csv\<close> is the exception with which appending to \<open>telemetry.csv\<close> fails, if it does.\<close>

record heartbeat_env =
  hb_now :: string
  hb_sys :: sys
  hb_load1 :: rat
  hb_procs :: procs
  hb_csv :: "exn option"

definition telemetry_of :: "bool \<Rightarrow> heartbeat_env \<Rightarrow> int \<Rightarrow> ctx \<Rightarrow> telemetry" where
  "telemetry_of sensors env up c = (let temps = (if sensors then c_temps c else []) in
     \<lparr>te_time = hb_now env, te_uptime = up, te_phase = fs_current_phase (c_findings c), te_cpu_temp = map_of temps ''cpu'',
      te_drive_temp = map_of temps ''drive'', te_board_temp = map_of temps ''board'', te_load1 = round_tenth (hb_load1 env),
      te_mem_available_mib = dict_get (meminfo (hb_sys env)) ''MemAvailable'' 0 div 2 ^ 20\<rparr>)"

definition fmt_temp :: "pyfloat option \<Rightarrow> string" where
  "fmt_temp v = (case v of None \<Rightarrow> [] | Some x \<Rightarrow> pf_fixed 0 x)"

definition CSV_HEADER :: string where
  "CSV_HEADER = ''time,uptime_s,phase,cpu_temp_c,drive_temp_c,board_temp_c,load1,mem_available_mib''"

definition csv_line :: "telemetry \<Rightarrow> string" where
  "csv_line t = join '','' [te_time t, int_str (te_uptime t), te_phase t, fmt_temp (te_cpu_temp t), fmt_temp (te_drive_temp t),
     fmt_temp (te_board_temp t), fixed 0 (te_load1 t), int_str (te_mem_available_mib t)]"

text \<open>What the heartbeat leaves on disk and in the session; \<open>sensors\<close> says that the sensor monitor runs.\<close>

definition heartbeat_save :: "heartbeat_env \<Rightarrow> telemetry \<Rightarrow> ctx \<Rightarrow> ctx" where
  "heartbeat_save env t c =
    (let c1 = (if c_dm c = None then c else save_progress (hb_now env) (hb_procs env) c);
         c2 = c1\<lparr>c_findings := findings_flush False (c_findings c1)\<rparr>
     in ctx_session (session_update (\<lambda>st. st\<lparr>st_last_heartbeat := te_time t, st_telemetry := Some t\<rparr>)) c2)"

definition heartbeat_poll :: "bool \<Rightarrow> heartbeat_env \<Rightarrow> ctx \<Rightarrow> outcome" where
  "heartbeat_poll sensors env c = lift_ex (py_round (uptime (hb_sys env))) (\<lambda>up c.
     let t = telemetry_of sensors env up c; c1 = c\<lparr>c_telemetry := Some t\<rparr> in
     (case hb_csv env of Some e \<Rightarrow> raise e c1 | None \<Rightarrow> ok (heartbeat_save env t c1))) c"

section \<open>The monitors of a run\<close>

datatype monitor = M_edac | M_aer | M_throttle | M_sensors | M_ipmi | M_nic | M_ras | M_heartbeat

fun monitor_name :: "monitor \<Rightarrow> string" where
  "monitor_name M_edac = ''EdacMonitor''"
| "monitor_name M_aer = ''AerMonitor''"
| "monitor_name M_throttle = ''ThrottleMonitor''"
| "monitor_name M_sensors = ''SensorMonitor''"
| "monitor_name M_ipmi = ''IpmiMonitor''"
| "monitor_name M_nic = ''NicMonitor''"
| "monitor_name M_ras = ''RasMonitor''"
| "monitor_name M_heartbeat = ''Heartbeat''"

fun monitor_available :: "(string \<Rightarrow> bool) \<Rightarrow> sys \<Rightarrow> monitor \<Rightarrow> bool" where
  "monitor_available have' sy M_edac = (glob sy ''/sys/devices/system/edac/mc/mc[0-9]*'' \<noteq> [])"
| "monitor_available have' sy M_aer = (glob sy ''/sys/bus/pci/devices/*/aer_dev_correctable'' \<noteq> [])"
| "monitor_available have' sy M_throttle = (glob sy ''/sys/devices/system/cpu/cpu0/thermal_throttle'' \<noteq> [])"
| "monitor_available have' sy M_sensors = have' ''sensors''"
| "monitor_available have' sy M_ipmi = (have' ''ipmitool'' \<and> glob sy ''/dev/ipmi*'' \<noteq> [])"
| "monitor_available have' sy M_nic = (physical_nics sy \<noteq> [])"
| "monitor_available have' sy M_ras = True"
| "monitor_available have' sy M_heartbeat = True"

definition CANDIDATES :: "(monitor \<times> string option) list" where
  "CANDIDATES = [(M_edac, Some ''edac''), (M_aer, Some ''aer''), (M_throttle, Some ''throttle''), (M_sensors, None),
     (M_ipmi, None), (M_nic, None), (M_ras, None)]"

text \<open>
  The running monitors, the heartbeat last, and the counters that they own: kernel messages about
  the same hardware do not count again.
\<close>

definition start_monitors :: "(string \<Rightarrow> bool) \<Rightarrow> sys \<Rightarrow> ctx \<Rightarrow> monitor list \<times> ctx" where
  "start_monitors have' sy c = (let running = filter (monitor_available have' sy \<circ> fst) CANDIDATES in
     (map fst running @ [M_heartbeat],
      c\<lparr>c_sysfs_counters := fold List.insert (List.map_filter snd running) (c_sysfs_counters c)\<rparr>))"

text \<open>What the polls read: the tools and files, the database of rasdaemon, the hash of the event log
  lines, the text of a database row and whether the heartbeat sees the sensors.\<close>

record monitor_env =
  me_env :: "string \<times> sys"
  me_json :: "string \<Rightarrow> pyval option"
  me_sha1 :: "string \<Rightarrow> string"
  me_dumps :: "row \<Rightarrow> string"
  me_ras :: ras_state
  me_sensors :: bool
  me_heartbeat :: heartbeat_env

fun monitor_poll :: "monitor \<Rightarrow> monitor_env \<Rightarrow> ctx \<Rightarrow> outcome" where
  "monitor_poll M_edac e = edac_poll (me_env e)"
| "monitor_poll M_aer e = aer_poll (me_env e)"
| "monitor_poll M_throttle e = throttle_poll (me_env e)"
| "monitor_poll M_sensors e = sensor_poll (me_json e) (me_env e)"
| "monitor_poll M_ipmi e = ipmi_poll (me_sha1 e) (me_env e)"
| "monitor_poll M_nic e = nic_poll (me_env e)"
| "monitor_poll M_ras e = ras_poll (me_dumps e) (fst (me_env e), me_ras e)"
| "monitor_poll M_heartbeat e = heartbeat_poll (me_sensors e) (me_heartbeat e)"

section \<open>Every monitor satisfies the contract\<close>

lemma keeps_flush: "keeps c c' \<Longrightarrow> keeps c (c'\<lparr>c_findings := findings_flush b (c_findings c')\<rparr>)"
  by (rule keeps_trans, assumption)
    (simp add: keeps_def keeps_evidence_def grows_def orchestration_def storable_def flush_ready)

lemma heartbeat_save_keeps: "keeps c (heartbeat_save env t c)"
proof -
  have "keeps c (if c_dm c = None then c else save_progress n p c)" for n p by simp
  from keeps_flush [OF this] show ?thesis unfolding heartbeat_save_def Let_def
    by (rule keeps_then(7)) (simp add: minor_def)
qed

interpretation heartbeat: hardware_monitor "heartbeat_poll sensors" for sensors
proof
  fix c e
  have "keeps c (c\<lparr>c_telemetry := t\<rparr>)" for t by (rule keeps_same) simp_all
  with keeps_trans [OF this heartbeat_save_keeps] show "keeps c (snd (heartbeat_poll sensors e c))"
    unfolding heartbeat_poll_def by (intro keeps_lift) (simp_all add: Let_def split: option.split)
qed

interpretation every: hardware_monitor "monitor_poll m" for m
  by unfold_locales (cases m; simp add: edac.poll_keeps aer.poll_keeps throttle.poll_keeps sensors.poll_keeps ipmi.poll_keeps
      nic.poll_keeps ras.poll_keeps heartbeat.poll_keeps)

section \<open>The heartbeat survives a reset\<close>

lemma resume_previous: "s_previous_state (resume boot clk s) = Some \<lparr>pv_last_heartbeat = st_last_heartbeat (s_state s),
    pv_telemetry = st_telemetry (s_state s), pv_running_phase = running_phase (s_state s)\<rparr>"
  by (simp add: resume_def Let_def split: option.split)

lemma heartbeat_save_state: "the_state (heartbeat_save env t c) = (the_state d)\<lparr>st_last_heartbeat := te_time t, st_telemetry := Some t\<rparr>"
  if "d = (if c_dm c = None then c else save_progress (hb_now env) (hb_procs env) c)" for d
  using that by (simp add: heartbeat_save_def Let_def the_state_def session_update_def)

lemma heartbeat_saved:
  assumes "storable c"
  shows "\<exists>n. state_at (s_fs (c_session (heartbeat_save env t c))) (s_dir (c_session (heartbeat_save env t c))) =
    Some (the_state (heartbeat_save env t c), n)"
proof -
  let ?c1 = "if c_dm c = None then c else save_progress (hb_now env) (hb_procs env) c"
  have "keeps c ?c1" by simp
  then have "storable ?c1" using assms keepsD(4) evidenceD(2) by blast
  then show ?thesis using ready_saves [of "upd_state f (c_session ?c1)" for f]
    by (simp add: heartbeat_save_def Let_def the_state_def session_update_def storable_def)
qed

text \<open>C30: what the last successful heartbeat recorded is what the next boot reads back after a reset:
  the time of the heartbeat, the telemetry and the phase that was running.\<close>

theorem heartbeat_survives_reset:
  assumes "storable c" "heartbeat_poll sensors env c = ok d"
  shows "\<exists>st n up. state_at (s_fs (c_session d)) (s_dir (c_session d)) = Some (st, n) \<and>
    py_round (uptime (hb_sys env)) = Inr up \<and>
    s_previous_state (resume boot clk (make_session base (s_dir (c_session d)) st n fs)) =
      Some \<lparr>pv_last_heartbeat = hb_now env, pv_telemetry = Some (telemetry_of sensors env up c),
            pv_running_phase = running_phase (the_state d)\<rparr>"
proof -
  obtain up where up: "py_round (uptime (hb_sys env)) = Inr up" "hb_csv env = None"
    and d: "d = heartbeat_save env (telemetry_of sensors env up c) (c\<lparr>c_telemetry := Some (telemetry_of sensors env up c)\<rparr>)"
    using assms(2) by (auto simp: heartbeat_poll_def Let_def lift_ex_def ok_def raise_def split: sum.splits option.splits)
  have "storable (c\<lparr>c_telemetry := t\<rparr>)" for t using assms(1) by (simp add: storable_def)
  from heartbeat_saved [OF this] obtain n where "state_at (s_fs (c_session d)) (s_dir (c_session d)) = Some (the_state d, n)"
    unfolding d by blast
  moreover have "st_last_heartbeat (the_state d) = hb_now env" "st_telemetry (the_state d) = Some (telemetry_of sensors env up c)"
    unfolding d by (simp_all add: heartbeat_save_state [OF refl] telemetry_of_def Let_def)
  ultimately show ?thesis using up(1) by (auto simp: resume_previous make_session_def)
qed

definition sample_heartbeat :: heartbeat_env where
  "sample_heartbeat = \<lparr>hb_now = ''t1'', hb_sys = quiet_sys, hb_load1 = 37 / 20, hb_procs = \<lambda>_. (None, []), hb_csv = None\<rparr>"

text \<open>A fresh session whose findings file stands where the program puts it.\<close>

definition fresh_ctx :: ctx where
  "fresh_ctx = blank_ctx\<lparr>c_findings := findings_init (path_join (s_dir first_session) ''findings.json'') blank_disk\<rparr>"

lemma fresh_storable: "storable fresh_ctx"
  by (simp add: storable_def store_ready_def session_ready_def fresh_ctx_def) (simp add: findings_init_def case_prod_beta Let_def)

lemma heartbeat_survives_reset_witness:
  "\<exists>d st n. heartbeat_poll True sample_heartbeat fresh_ctx = ok d \<and> state_at (s_fs (c_session d)) (s_dir (c_session d)) = Some (st, n)"
proof -
  have "split_ws [] = []" by code_simp
  then have "uptime quiet_sys = Fin 0" by (simp add: uptime_def quiet_sys_def)
  then have "\<exists>d. heartbeat_poll True sample_heartbeat fresh_ctx = ok d"
    by (simp add: heartbeat_poll_def sample_heartbeat_def py_round_def Let_def ok_def)
  then show ?thesis using heartbeat_survives_reset [OF fresh_storable] by blast
qed

end
