(* ===== verification/Orchestrator.thy ===== *)
theory Orchestrator
  imports ReportText MonitorSet
begin

text \<open>
  Models \<open>orchestrator.py\<close>: the record of a reset, the disk tests, the sequencing of the phases
  with their status, planned reboots, and the final analysis.  \<open>run_phases\<close> is a function of
  the bodies of the phases; the locale \<open>phase_runner\<close> (theory \<open>Sequencing\<close>) is the contract it needs from
  them.  The web server, the dashboard, turbostat and logging are left out.
\<close>

section \<open>Resets\<close>

text \<open>\<open>f"{value}"\<close> of an optional float.\<close>

definition opt_float :: "pyfloat option \<Rightarrow> string" where
  "opt_float v = (case v of None \<Rightarrow> ''None'' | Some x \<Rightarrow> float_repr x)"

definition telemetry_line :: "telemetry option \<Rightarrow> string" where
  "telemetry_line t = (case t of
     None \<Rightarrow> ''last telemetry: CPU NoneC, drives NoneC, load None, phase None''
   | Some tel \<Rightarrow> ''last telemetry: CPU '' @ opt_float (te_cpu_temp tel) @ ''C, drives '' @ opt_float (te_drive_temp tel) @
       ''C, load '' @ float_repr (Fin (te_load1 tel)) @ '', phase '' @ te_phase tel)"

text \<open>\<open>TITLES.get(phase, phase or 'unknown')\<close>.\<close>

definition phase_title :: "string option \<Rightarrow> string" where
  "phase_title phase = (case phase of None \<Rightarrow> ''unknown''
     | Some p \<Rightarrow> dict_get TITLES p (if p = [] then ''unknown'' else p))"

definition reset_event :: "int \<Rightarrow> previous_state \<Rightarrow> event" where
  "reset_event n prev = (event (''unexpected-reboot-'' @ int_str n) FAIL ''System''
     (''Machine reset unexpectedly during '' @ quoted (phase_title (pv_running_phase prev))))
     \<lparr>ev_detail := ''The system rebooted or lost power while the test was running. This is exactly the failure seen in production. Correlate with the crash log (pstore), BMC events and the last telemetry below: high temperatures suggest cooling; heavy-load phases suggest PSU/VRM or CPU; idle/transient phases suggest power delivery or C-state problems; memory phases suggest DIMMs.'',
      ev_recommendation := ''Check the PSU and power cabling, CPU/VRM cooling, reseat DIMMs/CPU, update BIOS; swap components one at a time and re-run the test.'',
      ev_evidence := [''last heartbeat '' @ pv_last_heartbeat prev @ '' (up to 30 s before the reset)'', telemetry_line (pv_telemetry prev)],
      ev_phase := Some (the_default [] (pv_running_phase prev))\<rparr>"

definition resumed_event :: "int \<Rightarrow> event" where
  "resumed_event n = event ''powercycle-progress'' INFO ''System'' (''Resumed after planned reboot #'' @ int_str n)"

definition restart_event :: "string option \<Rightarrow> event" where
  "restart_event phase = (event ''orchestrator-restart'' WARN ''Test'' ''Test software restarted (not a hardware reboot)'')
     \<lparr>ev_evidence := [''during phase '' @ (case phase of None \<Rightarrow> ''None'' | Some p \<Rightarrow> p)]\<rparr>"

definition incident_of :: "string \<Rightarrow> previous_state \<Rightarrow> incident" where
  "incident_of now prev = \<lparr>in_type = ''unexpected reboot'', in_detected_at = now, in_running_phase = pv_running_phase prev,
     in_last_heartbeat = pv_last_heartbeat prev, in_last_telemetry = pv_telemetry prev\<rparr>"

definition no_previous :: previous_state where
  "no_previous = \<lparr>pv_last_heartbeat = ''None'', pv_telemetry = None, pv_running_phase = None\<rparr>"

text \<open>The status of the phase that was running: back to pending for the inventory, else \<open>f\<close>.\<close>

definition reopen_phase :: "(phase_state \<Rightarrow> phase_state) \<Rightarrow> string option \<Rightarrow> ctx \<Rightarrow> ctx" where
  "reopen_phase f phase c = (case phase of None \<Rightarrow> c
     | Some p \<Rightarrow> if p = ''inventory'' then ctx_session (set_phase p (\<lambda>ps. ps\<lparr>ps_status := P_pending\<rparr>)) c
                 else if p \<noteq> [] then ctx_session (set_phase p f) c else c)"

definition record_incident :: "string \<Rightarrow> ctx \<Rightarrow> ctx" where
  "record_incident now c =
    (let s = c_session c; prev = the_default no_previous (s_previous_state s); phase = pv_running_phase prev;
         c' = (if s_unexpected_reboot s
               then reopen_phase (\<lambda>ps. ps\<lparr>ps_status := P_interrupted, ps_result := ''machine reset''\<rparr>) phase
                 (ctx_add now (reset_event (st_unexpected_reboots (s_state s)) prev)
                   (put_state (\<lambda>st. st\<lparr>st_incidents := st_incidents st @ [incident_of now prev]\<rparr>) c))
               else if s_planned_reboot s
               then ctx_add now (resumed_event (st_reboot_cycles_done (s_state s))) c
               else if s_orchestrator_restart s
               then reopen_phase (\<lambda>ps. ps\<lparr>ps_status := P_error, ps_result := ''orchestrator restarted''\<rparr>) phase
                 (ctx_add now (restart_event phase) c)
               else c)
     in save_ctx c')"

section \<open>Start of the program\<close>

definition config_event :: "string \<Rightarrow> event" where
  "config_event problem = (event (''config:'' @ problem) WARN ''Test'' (''Invalid test configuration: '' @ problem))
     \<lparr>ev_incomplete := True\<rparr>"

definition storage_ram_event :: "string \<Rightarrow> event" where
  "storage_ram_event why = (event ''storage-ram'' WARN ''Test'' ''Logs are kept in RAM only'')
     \<lparr>ev_detail := why, ev_recommendation := ''Prepare the USB stick with write-usb.sh so it has a PCCHECKDATA partition.'',
      ev_incomplete := True\<rparr>"

text \<open>
  \<open>main\<close> from the opened session to the recorded incident.  The options loaded at this start are
  replaced by those saved in the session, all fields of it, the validation errors included.
\<close>

definition session_options :: "session \<Rightarrow> options \<Rightarrow> options" where
  "session_options s opts = st_options (s_state s)"

definition start_events :: "options \<Rightarrow> bool \<Rightarrow> string \<Rightarrow> event list" where
  "start_events opts persistent why = map config_event (validation_errors opts) @
     (if \<not> persistent then [storage_ram_event why] else [])"

definition main_start :: "string \<Rightarrow> string \<Rightarrow> ctx \<Rightarrow> ctx" where
  "main_start now why c = (let opts = session_options (c_session c) (c_opts c) in
     record_incident now (add_events now (start_events opts (c_persistent c) why) (c\<lparr>c_opts := opts\<rparr>)))"

section \<open>Disk tests\<close>

definition cancelled_event :: event where
  "cancelled_event = event ''destructive-cancelled'' INFO ''Storage'' ''Destructive disk test cancelled by operator''"

definition erase_note :: "block_disk list \<Rightarrow> int \<Rightarrow> string" where
  "erase_note disks left = ''DESTRUCTIVE write test will ERASE: '' @ join '', '' (map (\<lambda>d. d_name d @ '' ('' @ d_model d @ '' '' @
     int_str (d_size d div 10 ^ 9) @ '' GB)'') disks) @ '' - starts in '' @ int_str left @ ''s, press 'n' to cancel''"

text \<open>A second of the countdown: the seconds left, what the other threads did in it, and whether the
  operator pressed the key.\<close>

fun confirm_loop :: "string \<Rightarrow> block_disk list \<Rightarrow> (int \<times> background list \<times> bool) list \<Rightarrow> ctx \<Rightarrow> bool \<times> ctx" where
  "confirm_loop now disks [] c = (\<not> stopped c, c)"
| "confirm_loop now disks ((left, bs, cancel) # ts) c =
    (if stopped c then (False, c)
     else let c1 = others bs (set_note (erase_note disks left) c) in
       if cancel then (False, ctx_add now cancelled_event
         (set_note ''destructive test cancelled by operator; read-only scan instead'' c1))
       else confirm_loop now disks ts c1)"

definition destructive_skip_event :: "block_disk \<Rightarrow> event" where
  "destructive_skip_event d = (event (''destructive-skip:'' @ d_name d) WARN ''Storage''
     (''Destructive test skipped on '' @ d_name d @ '' '' @ d_model d @ '': existing data, active use, or incomplete safety discovery''))
     \<lparr>ev_incomplete := True\<rparr>"

record disk_env =
  de_now :: string
  de_sys :: sys
  de_countdown :: "(int \<times> background list \<times> bool) list"
  de_spawn :: "string \<Rightarrow> exn option"

definition choose_disks :: "disk_env \<Rightarrow> block_disk list \<times> block_disk list \<Rightarrow> ctx \<Rightarrow> block_disk list \<times> ctx" where
  "choose_disks env = (\<lambda>(eligible, skipped) c.
     (let c1 = add_events (de_now env) (map destructive_skip_event skipped) c in
      if eligible = [] then ([], c1)
      else (case confirm_loop (de_now env) eligible (de_countdown env) c1 of
        (yes, c2) \<Rightarrow> (if yes then eligible else [], c2))))"

definition save_choice :: "block_disk list \<times> ctx \<Rightarrow> ctx" where
  "save_choice = (\<lambda>(chosen, c). save_ctx (put_state (\<lambda>st. st\<lparr>st_destructive_disks := Some (map d_name chosen),
     st_destructive_identities := dict_of_pairs (map (\<lambda>d. (disk_id d, d_size d)) chosen)\<rparr>) c))"

definition decide_destructive :: "(string \<Rightarrow> pyval option) \<Rightarrow> disk_env \<Rightarrow> ctx \<Rightarrow> outcome" where
  "decide_destructive json env c =
    (if st_destructive_disks (the_state c) \<noteq> None then ok c
     else if \<not> is_destructive (c_opts c) then ok (save_choice ([], c))
     else lift_ex (block_disks json (de_sys env) (dm_exclude (dm_of c))) (\<lambda>disks c.
       lift_ex (destructive_candidates json (de_sys env) c disks) (\<lambda>r c. ok (save_choice (choose_disks env r c))) c) c)"

definition confirmed :: "ctx \<Rightarrow> block_disk \<Rightarrow> bool" where
  "confirmed c d \<longleftrightarrow> map_of (st_destructive_identities (the_state c)) (disk_id d) = Some (d_size d)"

definition start_disk_tests :: "(string \<Rightarrow> pyval option) \<Rightarrow> disk_env \<Rightarrow> ctx \<Rightarrow> outcome" where
  "start_disk_tests json env c =
    (if st_disk_tests_finished (the_state c) then ok c
     else andthen (decide_destructive json env c) (\<lambda>c.
       lift_ex (block_disks json (de_sys env) (dm_exclude (dm_of c))) (\<lambda>disks c.
         start_scans json (de_spawn env) (de_now env, de_sys env) (filter (confirmed c) disks) c) c))"

text \<open>
  A turn of the waiting loop: the polls of the writers, the time left and the other threads; then the
  polls of the test that finds the time over.
\<close>

record finish_env =
  fe_now :: string
  fe_turns :: "(procs \<times> rat \<times> background list) list"
  fe_last :: procs
  fe_procs :: procs
  fe_sys :: sys
  fe_smart_turns :: "sys list"
  fe_report :: report_env
  fe_write_error :: "string \<Rightarrow> exn option"     \<comment> \<open>what a write to this path raises, if anything\<close>

fun wait_disks :: "string \<Rightarrow> procs \<Rightarrow> (procs \<times> rat \<times> background list) list \<Rightarrow> ctx \<Rightarrow> ctx" where
  "wait_disks now end_procs [] c = snd (all_done now end_procs c)"
| "wait_disks now end_procs ((procs, left, bs) # ts) c = (case all_done now procs c of (finished, c1) \<Rightarrow>
     if finished \<or> stopped c1 then c1
     else wait_disks now end_procs ts (others bs (set_note (''waiting for disk scans to finish (max '' @ fmt_duration left @ '')'') c1)))"

definition finish_disk_tests :: "(string \<Rightarrow> pyval option) \<Rightarrow> finish_env \<Rightarrow> ctx \<Rightarrow> outcome" where
  "finish_disk_tests json env c =
    (let c1 = (if c_dm c \<noteq> None \<and> \<not> stopped c then wait_disks (fe_now env) (fe_last env) (fe_turns env) c else c);
         aborted = stopped c1
     in andthen
       (if c_dm c = None then ok c1
        else smart_final json (if aborted then [] else fe_smart_turns env) (fe_now env, fe_sys env)
          (set_note ''collecting final SMART data'' (dm_stop_all (fe_now env) (fe_procs env) (set_note ''stopping disk tests'' c1))))
       (\<lambda>c. ok (save_ctx (put_state (\<lambda>st. st\<lparr>st_disk_tests_finished := True\<rparr>) c))))"

section \<open>Planned reboots\<close>

record reboot_env =
  rb_now :: string
  rb_procs :: procs
  rb_sys :: sys

text \<open>\<open>perform_reboot\<close>: what is saved, and the commands that bring the machine down.\<close>

definition reboot_save :: "reboot_env \<Rightarrow> ctx \<Rightarrow> ctx" where
  "reboot_save env c =
    (let c1 = c\<lparr>c_findings := findings_flush True (c_findings c)\<rparr>;
         c2 = (if c_dm c1 = None then c1 else save_progress (rb_now env) (rb_procs env) (snd (dm_pause (rb_procs env) c1)))
     in save_ctx c2)"

definition uses_ipmi :: "sys \<Rightarrow> options \<Rightarrow> bool" where
  "uses_ipmi sy opts \<longleftrightarrow> reboot_method opts = ''ipmi'' \<or> (reboot_method opts = ''auto'' \<and> path_exists sy ''/dev/ipmi0'')"

definition reboot_commands :: "sys \<Rightarrow> options \<Rightarrow> string list list" where
  "reboot_commands sy opts = (if uses_ipmi sy opts then [[''ipmitool'', ''chassis'', ''power'', ''cycle'']] else []) @
     [[''systemctl'', ''reboot''], [''reboot'', ''-f'']]"

section \<open>The sequence of phases\<close>

record phase_times =
  pt_start :: clock
  pt_end :: clock

definition elapsed_of :: "phase_times \<Rightarrow> int" where
  "elapsed_of t = trunc (fl (epoch (pt_end t) - epoch (pt_start t)))"

definition set_current_phase :: "string \<Rightarrow> ctx \<Rightarrow> ctx" where
  "set_current_phase name c = c\<lparr>c_findings := (c_findings c)\<lparr>fs_current_phase := name\<rparr>\<rparr>"

definition put_phase :: "string \<Rightarrow> (phase_state \<Rightarrow> phase_state) \<Rightarrow> ctx \<Rightarrow> ctx" where
  "put_phase name f c = ctx_session (set_phase name f) c"

text \<open>\<open>s.phase_state(name)\<close> enters a missing phase as pending.\<close>

definition enter_phase :: "string \<Rightarrow> ctx \<Rightarrow> ctx" where
  "enter_phase name c = ctx_session (snd \<circ> phase_state_of name) c"

definition phase_error_event :: "string \<Rightarrow> exn \<Rightarrow> event" where
  "phase_error_event name e = (event (''phase-error:'' @ name) WARN ''Test''
     (''Internal error in phase '' @ name @ '': '' @ exn_str e))\<lparr>ev_incomplete := True\<rparr>"

definition result_status :: "bool \<Rightarrow> finding list \<Rightarrow> phase_status" where
  "result_status aborted fs =
    (if aborted then P_aborted
     else if \<exists>f \<in> set fs. f_incomplete f then P_error
     else if \<exists>f \<in> set fs. f_severity f = FAIL then P_failed
     else if \<exists>f \<in> set fs. f_severity f = WARN then P_warn
     else P_done)"

definition result_text :: "finding list \<Rightarrow> string" where
  "result_text fs = nat_str (length (filter (\<lambda>f. f_severity f = FAIL) fs)) @ '' fail, '' @
     nat_str (length (filter (\<lambda>f. f_severity f = WARN) fs)) @ '' warn''"

text \<open>The end of a phase that raised, and of one that returned.\<close>

definition phase_crashed :: "phase_times \<Rightarrow> string \<Rightarrow> exn \<Rightarrow> ctx \<Rightarrow> ctx" where
  "phase_crashed t name e c = put_phase name
     (\<lambda>ps. ps\<lparr>ps_status := P_error, ps_elapsed := elapsed_of t, ps_result := take 200 (exn_str e)\<rparr>)
     (ctx_add (now_iso (pt_end t)) (phase_error_event name e) c)"

definition phase_done :: "phase_times \<Rightarrow> string \<Rightarrow> ctx \<Rightarrow> ctx" where
  "phase_done t name c = (let fs = by_phase name (c_findings c) in put_phase name
     (\<lambda>ps. ps\<lparr>ps_status := result_status (stopped c) fs, ps_elapsed := elapsed_of t, ps_finished := now_iso (pt_end t),
        ps_result := result_text fs\<rparr>) c)"

definition phase_started :: "phase_times \<Rightarrow> string \<Rightarrow> ctx \<Rightarrow> ctx" where
  "phase_started t name c = put_phase name (\<lambda>ps. ps\<lparr>ps_status := P_running, ps_started := now_iso (pt_start t)\<rparr>) c"

text \<open>
  One phase: \<open>True\<close> when the loop goes on.  A reboot request (a positive cycle number) ends the
  run; the phase stays pending for the next boot.
\<close>

definition run_one :: "(string \<Rightarrow> phase_times) \<Rightarrow> reboot_env \<Rightarrow> (string \<Rightarrow> int \<Rightarrow> ctx \<Rightarrow> outcome) \<Rightarrow> plan_item \<Rightarrow> ctx \<Rightarrow> bool \<times> ctx" where
  "run_one tm rb body p c =
    (let name = pl_name p; t = tm name; r = body name (pl_duration p) (phase_started t name c);
         c1 = set_note [] (snd r)
     in case fst r of
       Some e \<Rightarrow> (True, phase_crashed t name e c1)
     | None \<Rightarrow>
         if c_reboot_request c1 \<noteq> None
         then (False, reboot_save rb (put_phase name (\<lambda>ps. ps\<lparr>ps_status := P_pending, ps_elapsed := elapsed_of t\<rparr>) c1))
         else (True, phase_done t name c1))"

definition too_many_reboots :: "ctx \<Rightarrow> bool" where
  "too_many_reboots c \<longleftrightarrow> st_unexpected_reboots (the_state c) \<ge> max_unexpected_reboots (c_opts c)"

definition skip_phase :: "string \<Rightarrow> ctx \<Rightarrow> ctx" where
  "skip_phase name c = put_phase name (\<lambda>ps. ps\<lparr>ps_status := P_skipped, ps_result := ''too many unexpected reboots''\<rparr>) c"

definition needs_disks_done :: "string \<Rightarrow> ctx \<Rightarrow> bool" where
  "needs_disks_done name c \<longleftrightarrow> name = ''powercycle'' \<and> \<not> st_disk_tests_finished (the_state c)"

text \<open>A turn of the loop: an exception that leaves it, or whether it goes on with the next phase.\<close>

definition phase_turn :: "(string \<Rightarrow> phase_times) \<Rightarrow> reboot_env \<Rightarrow> (ctx \<Rightarrow> outcome) \<Rightarrow> (string \<Rightarrow> int \<Rightarrow> ctx \<Rightarrow> outcome) \<Rightarrow>
    plan_item \<Rightarrow> ctx \<Rightarrow> (exn + bool) \<times> ctx" where
  "phase_turn tm rb disks_end body p c =
    (let name = pl_name p; c0 = enter_phase name c in
     if ps_status (dict_get (st_phases (the_state c0)) name pending_state) \<noteq> P_pending then (Inr True, c0)
     else if stopped c0 then (Inr False, c0)
     else if too_many_reboots c0 then (Inr True, skip_phase name c0)
     else let c1 = set_current_phase name c0; needed = needs_disks_done name c1; r = (if needed then disks_end c1 else ok c1) in
       (case fst r of
         Some e \<Rightarrow> (Inl e, snd r)
       | None \<Rightarrow> if needed \<and> stopped (snd r) then (Inr False, snd r)
           else (case run_one tm rb body p (snd r) of (goes, c') \<Rightarrow> (Inr goes, c'))))"

fun run_phases :: "(string \<Rightarrow> phase_times) \<Rightarrow> reboot_env \<Rightarrow> (ctx \<Rightarrow> outcome) \<Rightarrow> (string \<Rightarrow> int \<Rightarrow> ctx \<Rightarrow> outcome) \<Rightarrow>
    plan_item list \<Rightarrow> ctx \<Rightarrow> outcome" where
  "run_phases tm rb disks_end body [] c = ok c"
| "run_phases tm rb disks_end body (p # ps) c = (case phase_turn tm rb disks_end body p c of
     (Inl e, c') \<Rightarrow> raise e c'
   | (Inr True, c') \<Rightarrow> run_phases tm rb disks_end body ps c'
   | (Inr False, c') \<Rightarrow> ok c')"

section \<open>The phases of the program\<close>

record inventory_env =
  iv_env :: "string \<times> sys"
  iv_have :: "string \<Rightarrow> bool"
  iv_files :: "(string, string) dict"
  iv_cpus :: "int option"
  iv_disks :: disk_env

definition run_inventory_phase :: "(string \<Rightarrow> pyval option) \<Rightarrow> inventory_env \<Rightarrow> ctx \<Rightarrow> outcome" where
  "run_inventory_phase json env c =
    andthen (run_inventory json (iv_have env) (iv_files env) (iv_env env) (set_note ''collecting inventory'' c)) (\<lambda>c.
    andthen (if reboot_cycles (c_opts c) \<noteq> 0 \<and> st_powercycle_baseline (the_state c) = None
             then lift_ex (take_snapshot json (snd (iv_env env)) (iv_cpus env)) (\<lambda>b c.
               ok (save_ctx (put_state (\<lambda>st. st\<lparr>st_powercycle_baseline := Some b\<rparr>) c))) c
             else ok c) (\<lambda>c.
    andthen (smart_baseline json (iv_env env) (set_note ''reading SMART data'' c)) (\<lambda>c.
      ok (start_selftests (iv_env env) (pi_long_selftest (profile_info (c_opts c))) c))))"

record phase_inputs =
  px_now :: string
  px_json :: "string \<Rightarrow> pyval option"
  px_inventory :: inventory_env
  px_cpu :: "turn list"
  px_memory :: memory_env
  px_mprime :: mprime_env
  px_ycruncher :: yc_env
  px_transient :: transient_env
  px_idle :: idle_env
  px_combined :: combined_env
  px_cycle :: cycle_env

text \<open>\<open>PHASES[name](ctx, duration).run()\<close>, and the inventory with the start of the disk tests.\<close>

definition phase_body :: "phase_inputs \<Rightarrow> string \<Rightarrow> int \<Rightarrow> ctx \<Rightarrow> outcome" where
  "phase_body x name duration c = (let ph = \<lparr>ph_name = name, ph_duration = duration\<rparr>; now = px_now x in
     if name = ''inventory'' then andthen (run_inventory_phase (px_json x) (px_inventory x) c)
       (start_disk_tests (px_json x) (iv_disks (px_inventory x)))
     else if name = ''cpu'' then cpu_run now ph (px_cpu x) c
     else if name = ''memory'' then memory_run now ph (px_memory x) c
     else if name = ''mprime'' then mprime_run now ph (px_mprime x) c
     else if name = ''ycruncher'' then ycruncher_run now (px_ycruncher x) c
     else if name = ''transient'' then transient_run now ph (px_transient x) c
     else if name = ''idle'' then idle_run now (px_idle x) c
     else if name = ''combined'' then combined_run (px_json x) now ph (px_combined x) c
     else if name = ''powercycle'' then powercycle_run (px_json x) (px_cycle x) c
     else raise (KeyError name) c)"

section \<open>The final analysis\<close>

text \<open>A monitor at the end: what its last poll reads, the error of its last failed poll and that of
  the export of its database, if there is one.\<close>

record final_monitor =
  fm_monitor :: monitor
  fm_env :: monitor_env
  fm_last_error :: "string option"
  fm_export :: "exn option"

definition monitor_final_event :: "string \<Rightarrow> event" where
  "monitor_final_event name = (event (''monitor-final:'' @ name) WARN ''Test''
     (''Final monitoring evidence unavailable: '' @ name))\<lparr>ev_incomplete := True\<rparr>"

definition final_sample :: "string \<Rightarrow> final_monitor \<Rightarrow> ctx \<Rightarrow> ctx" where
  "final_sample now m c = (let name = monitor_name (fm_monitor m);
       c1 = snd (sample name now (monitor_poll (fm_monitor m) (fm_env m)) (fm_last_error m, c))
     in if fm_monitor m = M_ras \<and> fm_export m \<noteq> None then ctx_add now (monitor_final_event name) c1 else c1)"

definition pcie_unavailable_event :: event where
  "pcie_unavailable_event = (event ''pcie-final-unavailable'' WARN ''Test'' ''Final PCIe inventory could not be read'')
     \<lparr>ev_incomplete := True\<rparr>"

definition LSPCI :: "string list" where
  "LSPCI = [''lspci'', ''-vvv'', ''-nn'']"

definition final_pcie :: "string \<times> sys \<Rightarrow> ctx \<Rightarrow> outcome" where
  "final_pcie env c = (let res = run_cmd (snd env) LSPCI; baseline = st_pcie_links (the_state c) in
     lift_ex (parse_pcie_links (stdout res)) (\<lambda>links c.
       ok (if returncode res \<noteq> 0 then ctx_add (fst env) pcie_unavailable_event c
           else if baseline \<noteq> [] then check_pcie_links (fst env) links baseline c else c)) c)"

definition final_disks :: "(string \<Rightarrow> pyval option) \<Rightarrow> finish_env \<Rightarrow> ctx \<Rightarrow> outcome" where
  "final_disks json env c =
    (if \<not> st_disk_tests_finished (the_state c) then finish_disk_tests json env c
     else if c_dm c \<noteq> None then smart_final json [] (fe_now env, fe_sys env) c else ok c)"

text \<open>The store is flushed, the session is finished, and the report is built from what was saved.\<close>

definition close_session :: "clock \<Rightarrow> ctx \<Rightarrow> ctx" where
  "close_session clk c = ctx_session (finish (if stopped c then S_aborted else S_complete) clk)
     (c\<lparr>c_findings := findings_flush True (c_findings c)\<rparr>)"

definition report_verdict :: "ctx \<Rightarrow> bool \<Rightarrow> verdict option" where
  "report_verdict c inc = (case fs_disk (c_findings c) of None \<Rightarrow> None
     | Some d \<Rightarrow> Some (snd (snd (build (s_fs (c_session c)) d (s_dir (c_session c)) inc))))"

definition FINAL_LOGS :: "(string \<times> string list) list" where
  "FINAL_LOGS = [(''ras-mc-ctl-summary.txt'', [''ras-mc-ctl'', ''--summary'']), (''ras-mc-ctl-errors.txt'', [''ras-mc-ctl'', ''--errors'']),
     (''dmesg-final.txt'', [''dmesg'', ''-T'']), (''ipmi-sel-final.txt'', [''ipmitool'', ''sel'', ''elist'']),
     (''journal.txt'', [''journalctl'', ''-b'', ''--no-pager''])]"

text \<open>The copies of the system's logs, by file name; the event log of the BMC only where there is one.\<close>

definition final_logs :: "sys \<Rightarrow> (string \<times> string) list" where
  "final_logs sy = map (\<lambda>(name, cmd). (name, stdout (run_cmd sy cmd)))
     (filter (\<lambda>(name, cmd). hd cmd \<noteq> ''ipmitool'' \<or> path_exists sy ''/dev/ipmi0'') FINAL_LOGS)"

fun first_error :: "(string \<Rightarrow> exn option) \<Rightarrow> string list \<Rightarrow> exn option" where
  "first_error f [] = None"
| "first_error f (p # ps) = (case f p of Some e \<Rightarrow> Some e | None \<Rightarrow> first_error f ps)"

definition save_logs :: "finish_env \<Rightarrow> sys \<Rightarrow> ctx \<Rightarrow> outcome" where
  "save_logs fe sy c = (first_error (fe_write_error fe)
     (map (\<lambda>l. path_join (path_join (s_dir (c_session c)) ''logs'') (fst l)) (final_logs sy)), c)"

text \<open>The three reports are written and the result is appended to \<open>index.csv\<close>; a write that raises, or a page that
  cannot be rendered, ends the program without a verdict.\<close>

definition final_report :: "finish_env \<Rightarrow> ctx \<Rightarrow> bool \<Rightarrow> exn + verdict option" where
  "final_report fe c inc = (case fs_disk (c_findings c) of None \<Rightarrow> Inr None
   | Some d \<Rightarrow> (case write_reports (fe_report fe) (s_fs (c_session c)) d (s_dir (c_session c)) inc of (written, r) \<Rightarrow>
      (case first_error (fe_write_error fe) (map fst written) of Some e \<Rightarrow> Inl e | None \<Rightarrow>
        ebind r (\<lambda>(v, body). case fe_write_error fe (path_join (s_base (c_session c)) ''index.csv'') of
          Some e \<Rightarrow> Inl e | None \<Rightarrow> Inr (Some v)))))"

definition conclude :: "finish_env \<Rightarrow> clock \<Rightarrow> ctx \<Rightarrow> outcome" where
  "conclude fe clk c = (let c2 = close_session clk c in case final_report fe c2 (stopped c) of
     Inl e \<Rightarrow> (Some e, c2)
   | Inr v \<Rightarrow> ok (c2\<lparr>c_final_verdict := v, c_status_note := []\<rparr>))"

definition finalize :: "(string \<Rightarrow> pyval option) \<Rightarrow> finish_env \<Rightarrow> final_monitor list \<Rightarrow> clock \<Rightarrow> string \<times> sys \<Rightarrow> ctx \<Rightarrow> outcome" where
  "finalize json fe monitors clk env c =
    andthen (final_disks json fe (set_current_phase ''final'' c)) (\<lambda>c.
    andthen (final_pcie env (fold (final_sample (fst env)) monitors (set_note ''final hardware checks'' c))) (\<lambda>c.
    andthen (save_logs fe (snd env) (snd (check_taint env (Some (the_default 0 (st_taint (the_state c)))) c))) (conclude fe clk)))"

definition identify_command :: "sys \<Rightarrow> options \<Rightarrow> verdict \<Rightarrow> string list option" where
  "identify_command sy opts v = (if v = FAILED \<and> identify opts \<and> path_exists sy ''/dev/ipmi0''
     then Some [''ipmitool'', ''chassis'', ''identify'', ''force''] else None)"

definition index_line :: "clock \<Rightarrow> state \<Rightarrow> verdict \<Rightarrow> string" where
  "index_line clk st v = join '','' [now_iso clk, the_default ''None'' (map_of (st_identity st) ''display_serial''),
     the_default ''None'' (map_of (st_identity st) ''system_product''), st_profile st, verdict_str v, st_session st]"

section \<open>The run of the program\<close>

text \<open>
  \<open>main\<close> after the monitors have started: a resumed session goes on with its disk scans, then the
  phases and, unless the machine is going down for a planned reboot, the final analysis.
\<close>

record main_env =
  mn_times :: "string \<Rightarrow> phase_times"
  mn_reboot :: reboot_env
  mn_phases :: phase_inputs
  mn_disks :: disk_env          \<comment> \<open>of \<open>start_disk_tests\<close> in a resumed session\<close>
  mn_before_cycles :: finish_env
  mn_finish :: finish_env
  mn_monitors :: "final_monitor list"
  mn_clock :: clock
  mn_env :: "string \<times> sys"

definition resumes_disks :: "ctx \<Rightarrow> bool" where
  "resumes_disks c \<longleftrightarrow> (case map_of (st_phases (the_state c)) ''inventory'' of None \<Rightarrow> False
     | Some ps \<Rightarrow> ps_status ps \<noteq> P_pending)"

definition main_run :: "(string \<Rightarrow> pyval option) \<Rightarrow> main_env \<Rightarrow> ctx \<Rightarrow> outcome" where
  "main_run json env c =
    andthen (if resumes_disks c then start_disk_tests json (mn_disks env) c else ok c) (\<lambda>c.
    andthen (run_phases (mn_times env) (mn_reboot env) (finish_disk_tests json (mn_before_cycles env))
      (phase_body (mn_phases env)) (st_plan (the_state c)) c) (\<lambda>c.
    if c_reboot_request c \<noteq> None then ok c
    else finalize json (mn_finish env) (mn_monitors env) (mn_clock env) (mn_env env) c))"

end
