(* ===== verification/Sequencing.thy ===== *)
theory Sequencing
  imports Orchestrator
begin

text \<open>
  The run of the phases.  The locale \<open>phase_runner\<close> states what \<open>run_phases\<close> needs of the bodies of
  the phases and of the end of the disk tests; it is interpreted on the phases of the program.
  \<open>run_phases\<close> refines an abstract life cycle of the phases, of which at most one runs at a
  time and none is run again once it has ended.
\<close>

section \<open>The operations of the orchestrator keep the frame\<close>

lemma note_then: "keeps c c' \<Longrightarrow> keeps c (set_note s c')"
  by (rule keeps_trans [OF _ keeps_note])

lemma legal_phase [simp]: "legal (e\<lparr>ev_phase := p\<rparr>) = legal e"
  by (simp add: legal_def)

lemma legal_orchestrator_events [simp]:
  "legal (reset_event n p)" "legal (resumed_event n)" "legal (restart_event ph)" "legal (config_event s)"
  "legal (storage_ram_event s)" "legal cancelled_event" "legal (destructive_skip_event d)" "legal (phase_error_event nm e)"
  "legal (monitor_final_event nm)" "legal pcie_unavailable_event"
  by (simp_all add: reset_event_def resumed_event_def restart_event_def config_event_def storage_ram_event_def cancelled_event_def
      destructive_skip_event_def phase_error_event_def monitor_final_event_def pcie_unavailable_event_def)

lemma confirm_loop_keeps: "keeps c (snd (confirm_loop now disks ts c))"
proof (induction ts arbitrary: c)
  case (Cons t ts)
  obtain left bs cancel where t: "t = (left, bs, cancel)" by (cases t)
  let ?c1 = "others bs (set_note (erase_note disks left) c)"
  have k: "keeps c ?c1" by (rule keeps_trans [OF keeps_note keeps_others])
  from keeps_trans [OF this Cons.IH] keeps_trans [OF note_then [OF this] keeps_add [of cancelled_event]] show ?case
    by (simp add: t Let_def)
qed simp

lemma choose_disks_keeps: "keeps c (snd (choose_disks env r c))"
proof -
  obtain eligible skipped where r: "r = (eligible, skipped)" by (cases r)
  let ?c1 = "add_events (de_now env) (map destructive_skip_event skipped) c"
  have "keeps c ?c1" by (rule keeps_events) auto
  with keeps_trans [OF this confirm_loop_keeps] show ?thesis by (simp add: choose_disks_def r Let_def case_prod_beta)
qed

lemma save_choice_keeps: "keeps c (snd p) \<Longrightarrow> keeps c (save_choice p)"
  unfolding save_choice_def case_prod_beta
  by (rule keeps_trans [OF keeps_trans [OF _ keeps_state] keeps_save]) (simp_all add: orchestration_eq)

lemma decide_destructive_keeps: "keeps c (snd (decide_destructive json env c))"
  unfolding decide_destructive_def by (auto intro!: keeps_lift save_choice_keeps choose_disks_keeps)

lemma start_disk_tests_keeps: "keeps c (snd (start_disk_tests json env c))"
proof -
  have "keeps c' (snd (lift_ex (block_disks json sy ex) (\<lambda>disks c. start_scans json sp e (filter (confirmed c) disks) c) c'))"
    for c' sy ex sp e by (rule keeps_lift [OF start_scans_keeps keeps_refl])
  then show ?thesis unfolding start_disk_tests_def by (simp add: keeps_seq [OF decide_destructive_keeps])
qed

lemma wait_disks_keeps: "keeps c (wait_disks now fin ts c)"
proof (induction ts arbitrary: c)
  case (Cons t ts)
  obtain procs left bs where t: "t = (procs, left, bs)" by (cases t)
  obtain finished c1 where a: "all_done now procs c = (finished, c1)" by force
  have k: "keeps c c1" using all_done_keeps [of c now procs] a by simp
  from keeps_trans [OF keeps_trans [OF note_then [OF this] keeps_others] Cons.IH] k show ?case by (simp add: t a)
qed (simp add: all_done_keeps)

lemma finished_keeps: "keeps c (save_ctx (put_state (\<lambda>st. st\<lparr>st_disk_tests_finished := b\<rparr>) c))"
  by (rule keeps_trans [OF keeps_state keeps_save]) (simp add: orchestration_eq)

lemma stop_disks_keeps:
  assumes "keeps c c1"
  shows "keeps c (snd (if P then ok c1 else smart_final json ts e (set_note m (dm_stop_all n p (set_note s c1)))))"
  using assms keeps_trans [OF note_then [OF keeps_trans [OF note_then [OF assms] dm_stop_all_keeps]] smart_final_keeps] by simp

lemma finish_disk_tests_keeps: "keeps c (snd (finish_disk_tests json env c))"
  unfolding finish_disk_tests_def Let_def
  by (rule keeps_seq [OF stop_disks_keeps]) (simp_all add: wait_disks_keeps finished_keeps)

lemma run_inventory_phase_keeps: "keeps c (snd (run_inventory_phase json env c))"
proof -
  have base: "keeps c' (save_ctx (put_state (\<lambda>st. st\<lparr>st_powercycle_baseline := b\<rparr>) c'))" for b c'
    by (rule keeps_trans [OF keeps_state keeps_save]) (simp add: orchestration_eq)
  have b: "keeps c' (snd (if P c' then lift_ex v (\<lambda>b c. ok (save_ctx (put_state (\<lambda>st. st\<lparr>st_powercycle_baseline := Some b\<rparr>) c))) c' else ok c'))" for P v c'
    by (simp add: keeps_lift base)
  have s: "keeps c' (snd (andthen (smart_baseline json e (set_note s c')) (\<lambda>c. ok (start_selftests e (l c) c))))" for e s l c'
    by (rule keeps_seq [OF keeps_trans [OF keeps_note smart_baseline_keeps]]) (simp add: start_selftests_keeps)
  show ?thesis unfolding run_inventory_phase_def
    by (rule keeps_seq [OF keeps_trans [OF keeps_note run_inventory_keeps]], rule keeps_seq [OF b], rule s)
qed

lemma phase_body_keeps: "keeps c (snd (phase_body x name duration c))"
  by (simp add: phase_body_def Let_def keeps_seq [OF run_inventory_phase_keeps start_disk_tests_keeps]
      cpu_run_def cpu_loop_keeps memory_run_keeps mprime_run_keeps ycruncher_run_keeps transient_run_keeps idle_run_keeps combined_run_keeps powercycle_run_keeps)

section \<open>The life cycle of the phases\<close>

text \<open>
  The abstract specification: a table of the status of every phase.  A phase starts or is skipped
  only while no other runs; a running phase ends, or goes back to pending for a planned reboot.
\<close>

type_synonym table = "string \<Rightarrow> phase_status"

definition idle :: "table \<Rightarrow> bool" where
  "idle T \<longleftrightarrow> (\<forall>n. T n \<noteq> P_running)"

definition ended :: "phase_status \<Rightarrow> bool" where
  "ended s \<longleftrightarrow> s \<noteq> P_pending \<and> s \<noteq> P_running"

definition results :: "phase_status set" where
  "results = {P_done, P_warn, P_failed, P_error, P_aborted}"

inductive life_step :: "table \<Rightarrow> table \<Rightarrow> bool" where
  start: "idle T \<Longrightarrow> T n = P_pending \<Longrightarrow> life_step T (T(n := P_running))"
| skip: "idle T \<Longrightarrow> T n = P_pending \<Longrightarrow> life_step T (T(n := P_skipped))"
| finish: "T n = P_running \<Longrightarrow> s \<in> results \<Longrightarrow> life_step T (T(n := s))"
| reboot: "T n = P_running \<Longrightarrow> life_step T (T(n := P_pending))"

inductive_cases life_stepE: "life_step T T'"

definition single :: "table \<Rightarrow> bool" where
  "single T \<longleftrightarrow> (\<forall>m n. T m = P_running \<longrightarrow> T n = P_running \<longrightarrow> m = n)"

lemma idle_single: "idle T \<Longrightarrow> single T"
  by (simp add: idle_def single_def)

lemma step_single: "life_step T T' \<Longrightarrow> single T \<Longrightarrow> single T'"
  by (erule life_stepE) (auto simp: single_def idle_def results_def)

lemma step_ended: "life_step T T' \<Longrightarrow> ended (T n) \<Longrightarrow> T' n = T n"
  by (erule life_stepE) (auto simp: ended_def)

lemma life_single: "life_step\<^sup>*\<^sup>* T T' \<Longrightarrow> single T \<Longrightarrow> single T'"
  by (induction rule: rtranclp_induct) (auto intro: step_single)

lemma life_ended: "life_step\<^sup>*\<^sup>* T T' \<Longrightarrow> ended (T n) \<Longrightarrow> T' n = T n"
  by (induction rule: rtranclp_induct) (simp, metis step_ended)

lemma run_to_result: "idle T \<Longrightarrow> T n = P_pending \<Longrightarrow> s \<in> results \<Longrightarrow> life_step\<^sup>*\<^sup>* T (T(n := s))"
  using life_step.start [of T n] life_step.finish [of "T(n := P_running)" n s]
  by (simp add: rtranclp.rtrancl_into_rtrancl [of _ T "T(n := P_running)"])

lemma run_to_reboot: "idle T \<Longrightarrow> T n = P_pending \<Longrightarrow> life_step\<^sup>*\<^sup>* T (T(n := P_pending))"
  by (simp add: fun_upd_idem)

text \<open>The table of a context.\<close>

definition entry :: "ctx \<Rightarrow> string \<Rightarrow> phase_state" where
  "entry c n = dict_get (st_phases (the_state c)) n pending_state"

definition table :: "ctx \<Rightarrow> table" where
  "table c n = ps_status (entry c n)"

lemma keeps_entry: "keeps c c' \<Longrightarrow> entry c' = entry c"
  by (auto dest!: keepsD(2) simp: orchestration_eq entry_def)

lemma keeps_table: "keeps c c' \<Longrightarrow> table c' = table c"
  by (rule ext) (simp add: table_def keeps_entry)

lemma put_phase_entry [simp]: "entry (put_phase n f c) = (entry c)(n := f (entry c n))"
  by (rule ext) (simp add: put_phase_def entry_def the_state_def set_phase_def dict_get_def dict_simps split: option.split)

lemma enter_phase_entry [simp]: "entry (enter_phase n c) = entry c"
  by (rule ext) (auto simp: enter_phase_def entry_def the_state_def phase_state_of_def dict_get_def dict_setdefault_def dict_simps split: option.split)

lemma enter_status: "ps_status (dict_get (st_phases (the_state (enter_phase n c))) n pending_state) = table c n"
  unfolding table_def enter_phase_entry [of n c, symmetric] by (simp only: entry_def)

lemma entry_frame [simp]: "entry (ctx_add now e c) = entry c" "entry (set_note s c) = entry c" "entry (set_current_phase n c) = entry c"
  by (rule ext, simp add: entry_def the_state_def set_current_phase_def)+

lemma put_phase_table: "table (put_phase n f c) = (table c)(n := ps_status (f (entry c n)))"
  by (rule ext) (simp add: table_def)

lemma evidence_put_phase: "keeps_evidence c (put_phase n f c)"
  unfolding put_phase_def by (rule evidence_session) simp_all

lemma evidence_enter: "keeps_evidence c (enter_phase n c)"
  unfolding enter_phase_def by (rule evidence_session) (simp_all add: phase_state_of_def)

lemma evidence_current [simp]: "keeps_evidence c (set_current_phase n c)"
  by (simp add: keeps_evidence_def set_current_phase_def grows_def storable_def)
    (use ready_cong [of "(c_findings c)\<lparr>fs_current_phase := n\<rparr>" "c_findings c"] in simp)

text \<open>The last act of \<open>perform_reboot\<close> is to save the session.\<close>

lemma reboot_save_saves: "\<exists>c2. reboot_save rb c = save_ctx c2 \<and> keeps c c2"
proof -
  have 1: "keeps c (c\<lparr>c_findings := findings_flush True (c_findings c)\<rparr>)" using keeps_flush [OF keeps_refl] .
  have 2: "keeps c' (save_progress now procs (snd (dm_pause procs c')))" for c' now procs
    by (rule keeps_trans [OF _ save_progress_keeps]) (simp add: dm_pause_def)
  show ?thesis unfolding reboot_save_def Let_def using 1 keeps_trans [OF 1 2] by auto
qed

lemma reboot_save_keeps: "keeps c (reboot_save rb c)"
  using reboot_save_saves [of rb c] keeps_trans [OF _ keeps_save] by auto

section \<open>The contract of the phases\<close>

locale phase_runner =
  fixes body :: "string \<Rightarrow> int \<Rightarrow> ctx \<Rightarrow> outcome" and disks_end :: "ctx \<Rightarrow> outcome"
  assumes body_keeps: "keeps c (snd (body n d c))"
    and disks_end_keeps: "keeps c (snd (disks_end c))"
begin

text \<open>One phase, started while no other runs.\<close>

lemma ran_evidence: "keeps_evidence c (set_note [] (snd (body n d (phase_started t n c))))"
  using evidence_trans [OF evidence_put_phase keepsD(4) [OF keeps_trans [OF body_keeps keeps_note]]]
  unfolding phase_started_def .

lemma run_one_evidence: "keeps_evidence c (snd (run_one tm rb body p c))"
proof -
  let ?r = "body (pl_name p) (pl_duration p) (phase_started (tm (pl_name p)) (pl_name p) c)" let ?c1 = "set_note [] (snd ?r)"
  have 1: "keeps_evidence c ?c1" by (rule ran_evidence)
  have 2: "keeps_evidence c (phase_crashed t n e ?c1)" for t n e
    unfolding phase_crashed_def by (rule evidence_trans [OF evidence_trans [OF 1 evidence_add] evidence_put_phase]) simp
  have 3: "keeps_evidence c (phase_done t n ?c1)" for t n
    unfolding phase_done_def Let_def by (rule evidence_trans [OF 1 evidence_put_phase])
  have 4: "keeps_evidence c (reboot_save rb (put_phase n f ?c1))" for n f
    by (rule evidence_trans [OF evidence_trans [OF 1 evidence_put_phase] keepsD(4) [OF reboot_save_keeps]])
  show ?thesis unfolding run_one_def Let_def by (cases "fst ?r") (simp_all add: 2 3 4)
qed

lemma run_one_table:
  assumes "run_one tm rb body p c = (goes, c')"
  shows "\<exists>s. table c' = (table c)(pl_name p := s) \<and> (if goes then s \<in> results else s = P_pending \<and> c_reboot_request c' \<noteq> None)"
proof -
  let ?n = "pl_name p" let ?r = "body ?n (pl_duration p) (phase_started (tm ?n) ?n c)" let ?c1 = "set_note [] (snd ?r)"
  have e: "entry (snd ?r) = (entry c)(?n := entry c ?n\<lparr>ps_status := P_running, ps_started := now_iso (pt_start (tm ?n))\<rparr>)"
    unfolding keeps_entry [OF body_keeps] by (simp add: phase_started_def)
  have t: "table (put_phase ?n f ?c1) = (table c)(?n := ps_status (f (entry ?c1 ?n)))" for f
    by (rule ext) (simp add: table_def e)
  have a: "table (put_phase ?n f (ctx_add now ev ?c1)) = (table c)(?n := ps_status (f (entry ?c1 ?n)))" for f now ev
    by (rule ext) (simp add: table_def e)
  have k: "table (reboot_save rb d) = table d" for d by (rule keeps_table [OF reboot_save_keeps])
  have "keeps_evidence d (reboot_save rb (put_phase ?n f d))" for d f
    by (rule evidence_trans [OF evidence_put_phase keepsD(4) [OF reboot_save_keeps]])
  then have q: "c_reboot_request (reboot_save rb (put_phase ?n f d)) = None \<Longrightarrow> c_reboot_request d = None" for d f
    by (rule evidenceD(4))
  have r: "result_status b fs \<in> results" for b fs by (simp add: result_status_def results_def)
  show ?thesis
  proof (cases "fst ?r")
    case (Some x)
    then have "goes" "c' = phase_crashed (tm ?n) ?n x ?c1" using assms by (simp_all add: run_one_def Let_def)
    then show ?thesis by (simp add: phase_crashed_def a) (auto simp: results_def)
  next
    case None
    show ?thesis
    proof (cases "c_reboot_request ?c1 = None")
      case True
      then have "goes" "c' = phase_done (tm ?n) ?n ?c1" using assms None by (simp_all add: run_one_def Let_def)
      then show ?thesis by (simp add: phase_done_def Let_def t) (use r in blast)
    next
      case False
      then have c': "\<not> goes" "c' = reboot_save rb (put_phase ?n (\<lambda>ps. ps\<lparr>ps_status := P_pending, ps_elapsed := elapsed_of (tm ?n)\<rparr>) ?c1)"
        using assms None by (simp_all add: run_one_def Let_def)
      have "c_reboot_request c' \<noteq> None"
      proof
        assume "c_reboot_request c' = None"
        then have "c_reboot_request ?c1 = None" unfolding c'(2) by (rule q)
        with False show False ..
      qed
      moreover have "table c' = (table c)(?n := P_pending)" unfolding c'(2) k t by simp
      ultimately show ?thesis using c'(1) by auto
    qed
  qed
qed

text \<open>A turn of the loop.\<close>

lemma disks_part: "keeps c (snd (if needed then disks_end c else ok c))"
  by (simp add: disks_end_keeps)

lemma turn_evidence: "keeps_evidence c (snd (phase_turn tm rb disks_end body p c))"
proof -
  let ?n = "pl_name p" let ?c0 = "enter_phase ?n c" let ?c1 = "set_current_phase ?n ?c0"
  obtain r where r: "r = (if needs_disks_done ?n ?c1 then disks_end ?c1 else ok ?c1)" by blast
  have 1: "keeps_evidence c (snd r)"
    unfolding r by (rule evidence_trans [OF evidence_trans [OF evidence_enter evidence_current] keepsD(4) [OF disks_part]])
  have 2: "keeps_evidence c (snd (run_one tm rb body p (snd r)))" by (rule evidence_trans [OF 1 run_one_evidence])
  have 3: "keeps_evidence c (skip_phase n ?c0)" for n
    unfolding skip_phase_def by (rule evidence_trans [OF evidence_enter evidence_put_phase])
  from 1 2 3 evidence_enter show ?thesis
    unfolding phase_turn_def Let_def r [symmetric] by (simp add: case_prod_beta split: option.split)
qed

lemma turn_table:
  assumes "idle (table c)" "phase_turn tm rb disks_end body p c = (r, c')"
  shows "life_step\<^sup>*\<^sup>* (table c) (table c') \<and> idle (table c') \<and>
    (r = Inr True \<longrightarrow> ended (table c' (pl_name p))) \<and> (r = Inr False \<longrightarrow> c_abort c' \<or> c_reboot_request c' \<noteq> None)"
proof -
  let ?n = "pl_name p" let ?c0 = "enter_phase ?n c" let ?c1 = "set_current_phase ?n ?c0"
  let ?r = "if needs_disks_done ?n ?c1 then disks_end ?c1 else ok ?c1"
  have t0: "table ?c0 = table c" by (rule ext) (simp add: table_def)
  have "table ?c1 = table c" by (rule ext) (simp add: table_def)
  then have t1: "table (snd ?r) = table c" using keeps_table [OF disks_part] by simp
  have idle_upd: "s \<noteq> P_running \<Longrightarrow> idle ((table c)(?n := s))" for s using assms(1) by (simp add: idle_def)
  consider (left) "table c ?n \<noteq> P_pending" | (aborted) "table c ?n = P_pending" "stopped ?c0"
    | (skipped) "table c ?n = P_pending" "\<not> stopped ?c0" "too_many_reboots ?c0"
    | (run) "table c ?n = P_pending" "\<not> stopped ?c0" "\<not> too_many_reboots ?c0" by blast
  then show ?thesis
  proof cases
    case run
    have d: "phase_turn tm rb disks_end body p c = (case fst ?r of Some e \<Rightarrow> (Inl e, snd ?r)
       | None \<Rightarrow> if needs_disks_done ?n ?c1 \<and> stopped (snd ?r) then (Inr False, snd ?r)
           else (case run_one tm rb body p (snd ?r) of (goes, c') \<Rightarrow> (Inr goes, c')))"
      unfolding phase_turn_def Let_def enter_status using run by simp
    consider (out) "c' = snd ?r" "r = Inr False \<longrightarrow> c_abort c'" "r \<noteq> Inr True"
      | (ran) goes where "run_one tm rb body p (snd ?r) = (goes, c')" "r = Inr goes"
      using assms(2) unfolding d by (auto simp: stopped_def split: option.splits if_splits prod.splits)
    then show ?thesis
    proof cases
      case out
      then show ?thesis using assms(1) t1 by auto
    next
      case ran
      obtain s where s: "table c' = (table c)(?n := s)" "if goes then s \<in> results else s = P_pending \<and> c_reboot_request c' \<noteq> None"
        using run_one_table [OF ran(1)] t1 by auto
      then have "life_step\<^sup>*\<^sup>* (table c) (table c')" "s \<noteq> P_running" "goes \<longrightarrow> ended s"
        using run_to_result [OF assms(1)] run_to_reboot [OF assms(1)] run(1) by (auto simp: ended_def results_def split: if_splits)
      then show ?thesis using s idle_upd ran(2) by auto
    qed
  next
    case left
    then have "phase_turn tm rb disks_end body p c = (Inr True, ?c0)"
      unfolding phase_turn_def Let_def enter_status by simp
    with assms left t0 show ?thesis by (auto simp: idle_def ended_def)
  next
    case aborted
    then have "phase_turn tm rb disks_end body p c = (Inr False, ?c0)"
      unfolding phase_turn_def Let_def enter_status by simp
    with assms aborted t0 show ?thesis by (auto simp: stopped_def)
  next
    case skipped
    then have "phase_turn tm rb disks_end body p c = (Inr True, skip_phase ?n ?c0)"
      unfolding phase_turn_def Let_def enter_status by simp
    moreover have "table (skip_phase ?n ?c0) = (table c)(?n := P_skipped)" by (simp add: skip_phase_def put_phase_table t0)
    ultimately show ?thesis using assms skipped life_step.skip [OF assms(1) skipped(1)] idle_upd by (auto simp: ended_def)
  qed
qed

text \<open>The whole loop.\<close>

lemma loop_cases:
  obtains (goes) c1 where "phase_turn tm rb disks_end body p c = (Inr True, c1)"
      "run_phases tm rb disks_end body (p # ps) c = run_phases tm rb disks_end body ps c1"
    | (stops) r c1 where "phase_turn tm rb disks_end body p c = (r, c1)" "r \<noteq> Inr True"
      "snd (run_phases tm rb disks_end body (p # ps) c) = c1"
      "fst (run_phases tm rb disks_end body (p # ps) c) = None \<Longrightarrow> r = Inr False"
proof -
  obtain r c1 where t: "phase_turn tm rb disks_end body p c = (r, c1)" by force
  show thesis
  proof (cases "r = Inr True")
    case True
    then show thesis using goes [of c1] t by simp
  next
    case False
    then show thesis using stops [of r c1] t by (cases r) auto
  qed
qed

lemma run_phases_evidence: "keeps_evidence c (snd (run_phases tm rb disks_end body ps c))"
proof (induction ps arbitrary: c)
  case (Cons p ps)
  have t: "keeps_evidence c c1" if "phase_turn tm rb disks_end body p c = (r, c1)" for r c1
    using turn_evidence [of c tm rb p] that by simp
  show ?case
  proof (cases rule: loop_cases [of tm rb p c ps])
    case (goes c1)
    show ?thesis unfolding goes(2) by (rule evidence_trans [OF t [OF goes(1)] Cons.IH])
  next
    case (stops r c1)
    show ?thesis unfolding stops(3) by (rule t [OF stops(1)])
  qed
qed simp

lemma run_phases_life:
  "idle (table c) \<Longrightarrow> life_step\<^sup>*\<^sup>* (table c) (table (snd (run_phases tm rb disks_end body ps c))) \<and>
     idle (table (snd (run_phases tm rb disks_end body ps c)))"
proof (induction ps arbitrary: c)
  case (Cons p ps)
  show ?case
  proof (cases rule: loop_cases [of tm rb p c ps])
    case (goes c1)
    from turn_table [OF Cons.prems goes(1)] Cons.IH [of c1] show ?thesis unfolding goes(2) by (blast intro: rtranclp_trans)
  next
    case (stops r c1)
    from turn_table [OF Cons.prems stops(1)] show ?thesis unfolding stops(3) by blast
  qed
qed simp

lemma run_phases_complete:
  assumes "idle (table c)" "fst (run_phases tm rb disks_end body ps c) = None"
    "\<not> c_abort (snd (run_phases tm rb disks_end body ps c))" "c_reboot_request (snd (run_phases tm rb disks_end body ps c)) = None"
    "p \<in> set ps"
  shows "ended (table (snd (run_phases tm rb disks_end body ps c)) (pl_name p))"
  using assms
proof (induction ps arbitrary: c)
  case (Cons q ps)
  show ?case
  proof (cases rule: loop_cases [of tm rb q c ps])
    case (goes c1)
    have t: "idle (table c1)" "ended (table c1 (pl_name q))" using turn_table [OF Cons.prems(1) goes(1)] by auto
    show ?thesis
    proof (cases "p = q")
      case True
      have "life_step\<^sup>*\<^sup>* (table c1) (table (snd (run_phases tm rb disks_end body ps c1)))" using run_phases_life [OF t(1)] by blast
      from life_ended [OF this t(2)] t(2) show ?thesis unfolding goes(2) True by simp
    next
      case False
      with Cons.prems(5) have "p \<in> set ps" by simp
      then show ?thesis using Cons.IH [OF t(1)] Cons.prems(2-4) unfolding goes(2) by blast
    qed
  next
    case (stops r c1)
    from turn_table [OF Cons.prems(1) stops(1)] stops(4) Cons.prems(2-4) show ?thesis unfolding stops(3) by blast
  qed
qed simp

text \<open>The body of a phase that has ended is never looked at.\<close>

lemma run_phases_skips_ended:
  assumes "idle (table c)" "ended (table c n)" "\<And>m d c. m \<noteq> n \<Longrightarrow> body' m d c = body m d c"
  shows "run_phases tm rb disks_end body' ps c = run_phases tm rb disks_end body ps c"
  using assms(1,2)
proof (induction ps arbitrary: c)
  case (Cons p ps)
  have t: "phase_turn tm rb disks_end body' p c = phase_turn tm rb disks_end body p c"
  proof (cases "pl_name p = n")
    case True
    then show ?thesis using Cons.prems(2) unfolding phase_turn_def Let_def enter_status by (simp add: ended_def)
  next
    case False
    then have "run_one tm rb body' p = run_one tm rb body p" using assms(3) by (intro ext) (simp add: run_one_def)
    then show ?thesis unfolding phase_turn_def by (simp only:)
  qed
  obtain r c1 where r: "phase_turn tm rb disks_end body p c = (r, c1)" by force
  have "idle (table c1)" "ended (table c1 n)"
    using turn_table [OF Cons.prems(1) r] life_ended [of "table c" "table c1" n] Cons.prems(2) by auto
  from Cons.IH [OF this] show ?case by (simp add: t r split: sum.split bool.split)
qed simp

end

interpretation program: phase_runner "phase_body x" "finish_disk_tests json env" for x json env
  by unfold_locales (rule phase_body_keeps finish_disk_tests_keeps)+

section \<open>The run of the program\<close>

text \<open>C6: the sequence of phases implements the life cycle: from a table in which no phase runs, every
  change of a status is a step of the life cycle, so at most one phase runs at a time and a phase
  that has ended keeps its status; when the sequence returns no phase is left running.\<close>

theorem phases_follow_life_cycle:
  assumes "idle (table c)"
  shows "life_step\<^sup>*\<^sup>* (table c) (table (snd (run_phases tm rb (finish_disk_tests json env) (phase_body x) ps c))) \<and>
    idle (table (snd (run_phases tm rb (finish_disk_tests json env) (phase_body x) ps c)))"
  by (rule program.run_phases_life [OF assms])

lemma fresh_idle: "idle (table (fresh_ctx))"
  by (simp add: idle_def table_def entry_def fresh_ctx_def the_state_def first_session_def make_session_def new_state_def
      dict_get_def dict_of_pairs_def pending_state_def)

lemma phases_follow_life_cycle_witness:
  "\<forall>tm rb json env x. idle (table (snd (run_phases tm rb (finish_disk_tests json env) (phase_body x) [\<lparr>pl_name = ''idle'', pl_duration = 60\<rparr>] fresh_ctx)))"
  using phases_follow_life_cycle [OF fresh_idle] by blast

text \<open>C7: when the sequence of phases returns normally, without an abort and without a planned reboot
  under way, every phase of the plan has ended: none is left pending or running.\<close>

theorem every_phase_ends:
  assumes "idle (table c)" "run_phases tm rb (finish_disk_tests json env) (phase_body x) ps c = ok d"
    and "\<not> c_abort d" "c_reboot_request d = None" "p \<in> set ps"
  shows "ended (table d (pl_name p))"
  using program.run_phases_complete [OF assms(1), of tm rb json env x ps p] assms(2-5) by simp

lemma crashed_frame [simp]: "c_abort (phase_crashed t n e c) = c_abort c" "c_reboot_request (phase_crashed t n e c) = c_reboot_request c"
    "c_abort (phase_started t n c) = c_abort c" "c_reboot_request (phase_started t n c) = c_reboot_request c"
    "c_abort (enter_phase n c) = c_abort c" "c_reboot_request (enter_phase n c) = c_reboot_request c"
    "c_abort (skip_phase n c) = c_abort c" "c_reboot_request (skip_phase n c) = c_reboot_request c"
    "c_abort (set_current_phase n c) = c_abort c" "c_reboot_request (set_current_phase n c) = c_reboot_request c"
    "c_abort fresh_ctx = False" "c_reboot_request fresh_ctx = None"
  by (simp_all add: phase_crashed_def phase_started_def put_phase_def enter_phase_def skip_phase_def set_current_phase_def fresh_ctx_def)

text \<open>A plan with a phase that the program does not know: it ends with the status \<open>error\<close>.\<close>

lemma every_phase_ends_witness:
  "\<forall>tm rb json env x. \<exists>d. run_phases tm rb (finish_disk_tests json env) (phase_body x) [\<lparr>pl_name = ''gpu'', pl_duration = 60\<rparr>] fresh_ctx = ok d \<and>
     ended (table d ''gpu'')"
proof (intro allI)
  fix tm rb json env x
  let ?p = "\<lparr>pl_name = ''gpu'', pl_duration = 60\<rparr>"
  have s: "table fresh_ctx n = P_pending" for n
    by (simp add: table_def entry_def fresh_ctx_def the_state_def first_session_def make_session_def new_state_def
        dict_get_def dict_of_pairs_def pending_state_def)
  have "\<exists>d. run_phases tm rb (finish_disk_tests json env) (phase_body x) [?p] fresh_ctx = ok d \<and> \<not> c_abort d \<and> c_reboot_request d = None"
    by (simp add: phase_turn_def Let_def enter_status s stopped_def too_many_reboots_def needs_disks_done_def run_one_def phase_body_def)
      (auto simp: ok_def)
  then obtain d where d: "run_phases tm rb (finish_disk_tests json env) (phase_body x) [?p] fresh_ctx = ok d" "\<not> c_abort d"
    "c_reboot_request d = None" by blast
  have "ended (table d ''gpu'')" using every_phase_ends [OF fresh_idle d, of ?p] by simp
  with d(1)
  show "\<exists>d. run_phases tm rb (finish_disk_tests json env) (phase_body x) [?p] fresh_ctx = ok d \<and> ended (table d ''gpu'')" by blast
qed

text \<open>C8: a phase that has already ended is neither run again nor touched: its status stays, and the
  outcome of the whole sequence is the same whatever its body would do.\<close>

theorem ended_phase_not_rerun:
  assumes "idle (table c)" "ended (table c n)" "\<And>m d c. m \<noteq> n \<Longrightarrow> body' m d c = phase_body x m d c"
  shows "run_phases tm rb (finish_disk_tests json env) body' ps c = run_phases tm rb (finish_disk_tests json env) (phase_body x) ps c \<and>
    table (snd (run_phases tm rb (finish_disk_tests json env) (phase_body x) ps c)) n = table c n"
  using program.run_phases_skips_ended [OF assms] life_ended [OF conjunct1 [OF program.run_phases_life [OF assms(1)]] assms(2)]
  by blast

definition resumed_ctx :: ctx where
  "resumed_ctx = put_phase ''cpu'' (\<lambda>ps. ps\<lparr>ps_status := P_done\<rparr>) fresh_ctx"

lemma resumed_table: "table resumed_ctx = (table fresh_ctx)(''cpu'' := P_done)"
  by (simp add: resumed_ctx_def put_phase_table)

lemma ended_phase_not_rerun_witness:
  "\<forall>tm rb json env x. table (snd (run_phases tm rb (finish_disk_tests json env) (phase_body x) [\<lparr>pl_name = ''cpu'', pl_duration = 60\<rparr>] resumed_ctx)) ''cpu'' = P_done"
proof -
  have "idle (table resumed_ctx)" using fresh_idle by (simp add: resumed_table idle_def)
  moreover have "ended (table resumed_ctx ''cpu'')" by (simp add: resumed_table ended_def)
  ultimately have "table (snd (run_phases tm rb (finish_disk_tests json env) (phase_body x) [\<lparr>pl_name = ''cpu'', pl_duration = 60\<rparr>] resumed_ctx)) ''cpu'' =
      table resumed_ctx ''cpu''" for tm rb json env x by (rule conjunct2 [OF ended_phase_not_rerun]) (rule refl)
  then show ?thesis by (simp add: resumed_table)
qed

end
