(* ===== verification/Outcome.thy ===== *)
theory Outcome
  imports Sequencing
begin

text \<open>
  What the final report says.  The final analysis keeps all evidence, the verdict read back from the
  storage is that of the evidence in memory, a machine reset makes every report of the session
  FAIL, and the planned power cycles come to an end.
\<close>

section \<open>The final analysis keeps the evidence\<close>

lemma final_sample_keeps: "keeps c (final_sample now m c)"
proof -
  have k: "keeps c (snd (sample n now (monitor_poll (fm_monitor m) (fm_env m)) (l, c)))" for n l
    using every.sample_keeps [of "(l, c)" n now "fm_monitor m" "fm_env m"] by simp
  show ?thesis unfolding final_sample_def Let_def
  proof (cases "fm_monitor m = M_ras \<and> fm_export m \<noteq> None")
    case True
    show "keeps c (if fm_monitor m = M_ras \<and> fm_export m \<noteq> None
        then ctx_add now (monitor_final_event n) (snd (sample n now (monitor_poll (fm_monitor m) (fm_env m)) (l, c)))
        else snd (sample n now (monitor_poll (fm_monitor m) (fm_env m)) (l, c)))" for n l
      by (simp only: if_P [OF True], rule keeps_then(4) [OF k]) simp
  next
    case False
    show "keeps c (if fm_monitor m = M_ras \<and> fm_export m \<noteq> None
        then ctx_add now (monitor_final_event n) (snd (sample n now (monitor_poll (fm_monitor m) (fm_env m)) (l, c)))
        else snd (sample n now (monitor_poll (fm_monitor m) (fm_env m)) (l, c)))" for n l
      by (simp only: if_not_P [OF False], rule k)
  qed
qed

lemma final_pcie_keeps: "keeps c (snd (final_pcie env c))"
  unfolding final_pcie_def Let_def by (rule keeps_lift) (simp_all add: check_pcie_keeps)

lemma final_disks_keeps: "keeps c (snd (final_disks json env c))"
  by (simp add: final_disks_def finish_disk_tests_keeps smart_final_keeps)

lemma reopen_evidence: "keeps_evidence c (reopen_phase f phase c)"
  using evidence_put_phase unfolding put_phase_def by (auto simp: reopen_phase_def split: option.split)

lemma evidence_add_then: "keeps_evidence c c' \<Longrightarrow> legal e \<Longrightarrow> keeps_evidence c (ctx_add now e c')"
  by (rule evidence_trans [OF _ evidence_add])

lemma evidence_incidents: "keeps_evidence c (put_state (\<lambda>st. st\<lparr>st_incidents := f st\<rparr>) c)"
  by (rule keepsD(4) [OF keeps_state]) (simp add: orchestration_eq)

lemma record_incident_evidence: "keeps_evidence c (record_incident now c)"
proof -
  have s: "keeps_evidence c (save_ctx c')" if "keeps_evidence c c'" for c' by (rule evidence_trans [OF that keepsD(4) [OF keeps_save]])
  have 1: "keeps_evidence c (reopen_phase f phase (ctx_add now (reset_event n p) (put_state (\<lambda>st. st\<lparr>st_incidents := g st\<rparr>) c)))"
    for f phase n p g by (rule evidence_trans [OF evidence_add_then [OF evidence_incidents] reopen_evidence]) simp
  have 2: "keeps_evidence c (reopen_phase f phase (ctx_add now (restart_event p) c))" for f phase p
    by (rule evidence_trans [OF evidence_add reopen_evidence]) simp
  show ?thesis unfolding record_incident_def Let_def by (rule s) (simp add: 1 2)
qed

lemma start_events_legal: "\<forall>e \<in> set (start_events opts p why). legal e"
  by (auto simp: start_events_def)

lemma opts_evidence: "keeps_evidence c (c\<lparr>c_opts := opts\<rparr>)"
  by (simp add: keeps_evidence_def grows_same storable_def)

lemma main_start_evidence: "keeps_evidence c (main_start now why c)"
  unfolding main_start_def Let_def
  by (rule evidence_trans [OF evidence_trans [OF opts_evidence keepsD(4) [OF keeps_events [OF start_events_legal]]] record_incident_evidence])

text \<open>A detected reset is on record as a failure when \<open>main\<close> starts the monitors.\<close>

lemma record_reset:
  "s_unexpected_reboot (c_session c) \<Longrightarrow> \<exists>n p c1. keeps_evidence (ctx_add now (reset_event n p) c1) (record_incident now c)"
  unfolding record_incident_def Let_def
  by (simp only: if_True) (intro exI, rule evidence_trans [OF reopen_evidence keepsD(4) [OF keeps_save]])

lemma main_start_reset:
  "s_unexpected_reboot (c_session c) \<Longrightarrow> \<exists>n p c1. keeps_evidence (ctx_add now (reset_event n p) c1) (main_start now why c)"
  unfolding main_start_def Let_def by (rule record_reset) simp

section \<open>The report reads what the program knows\<close>

lemma final_verdict_cong: "fs_items F = fs_items G \<Longrightarrow> final_verdict s F inc = final_verdict s G inc"
  using verdict_cong [of F G] by (simp add: final_verdict_def coverage_gaps_def findings_all_def)

lemma finish_saves: "session_ready s \<Longrightarrow> state_at (s_fs (finish r clk s)) (s_dir (finish r clk s)) =
    Some (s_state (finish r clk s), s_seq s + 1)"
  using ready_saves [of "upd_state f s" for f] by (simp add: finish_def Let_def state_at_def)

lemma close_session_report:
  assumes "storable c" "findings_ok (c_findings c)"
  shows "report_verdict (close_session clk c) inc =
    Some (final_verdict (Some (the_state (close_session clk c))) (c_findings (close_session clk c)) inc)"
proof -
  let ?F = "c_findings c" let ?F1 = "findings_flush True ?F"
  obtain d where d: "fs_disk ?F = Some d" "writable d" "disk_ok ?F" using assms(1) by (auto simp: storable_def store_ready_def)
  obtain d' where s: "saved ?F1 d'" using flush_saves [OF d, of True] by blast
  have p: "fs_path ?F1 = path_join (s_dir (c_session (close_session clk c))) ''findings.json''"
    using assms(1) by (simp add: storable_def close_session_def finish_def Let_def)
  have "fs_items (findings_init (path_join (s_dir (c_session (close_session clk c))) ''findings.json'') d') = fs_items ?F1"
    using saved_reload [OF s] assms(2) p by simp
  from final_verdict_cong [OF this] have v: "final_verdict st (findings_init (path_join (s_dir (c_session (close_session clk c))) ''findings.json'') d') inc =
      final_verdict st ?F1 inc" for st .
  have "saved_state (s_fs (c_session (close_session clk c))) (s_dir (c_session (close_session clk c))) =
      Some (the_state (close_session clk c))"
    using finish_saves [of "c_session c"] assms(1) by (simp add: saved_state_def close_session_def storable_def the_state_def)
  moreover have "fs_disk (c_findings (close_session clk c)) = Some d'" "c_findings (close_session clk c) = ?F1"
    using s by (simp_all add: saved_def close_session_def)
  ultimately show ?thesis unfolding report_verdict_def build_def Let_def by (simp add: v)
qed

lemma first_error_None: "first_error f ps = None \<longleftrightarrow> (\<forall>p \<in> set ps. f p = None)"
  by (induction ps) (auto split: option.splits)

lemma final_report_verdict:
  assumes "final_report fe c inc = Inr v"
  shows "v = report_verdict c inc"
proof (cases "fs_disk (c_findings c)")
  case None then show ?thesis using assms by (simp add: final_report_def report_verdict_def)
next
  case (Some d)
  then obtain written v' body where "write_reports (fe_report fe) (s_fs (c_session c)) d (s_dir (c_session c)) inc = (written, Inr (v', body))"
    "v = Some v'" using assms by (auto simp: final_report_def split: option.splits prod.splits sum.splits elim!: ebind_eq_Inr [THEN iffD1, elim_format])
  then show ?thesis using Some
    by (auto simp: write_reports_def report_verdict_def Let_def split: prod.splits sum.splits)
qed

lemma conclude_ok:
  assumes "conclude fe clk c = ok d"
  shows "d = (close_session clk c)\<lparr>c_final_verdict := report_verdict (close_session clk c) (stopped c), c_status_note := []\<rparr>"
  using assms final_report_verdict [of fe "close_session clk c" "stopped c"]
  by (auto simp: conclude_def Let_def ok_def split: sum.splits)

lemma finalize_steps:
  assumes "finalize json fe monitors clk env c = ok d"
  obtains c1 where "keeps_evidence c c1" "conclude fe clk c1 = ok d"
    "d = (close_session clk c1)\<lparr>c_final_verdict := report_verdict (close_session clk c1) (stopped c1), c_status_note := []\<rparr>"
proof -
  obtain c2 where c2: "final_disks json fe (set_current_phase ''final'' c) = ok c2"
    and r2: "andthen (final_pcie env (fold (final_sample (fst env)) monitors (set_note ''final hardware checks'' c2))) (\<lambda>c.
      andthen (save_logs fe (snd env) (snd (check_taint env (Some (the_default 0 (st_taint (the_state c)))) c))) (conclude fe clk)) = ok d"
    using okD [OF assms [unfolded finalize_def]] by blast
  obtain c3 where c3: "final_pcie env (fold (final_sample (fst env)) monitors (set_note ''final hardware checks'' c2)) = ok c3"
    and r3: "andthen (save_logs fe (snd env) (snd (check_taint env (Some (the_default 0 (st_taint (the_state c3)))) c3))) (conclude fe clk) = ok d"
    using okD [OF r2] by blast
  let ?c1 = "snd (check_taint env (Some (the_default 0 (st_taint (the_state c3)))) c3)"
  have d: "conclude fe clk ?c1 = ok d" using okD [OF r3] by (auto simp: save_logs_def ok_def)
  have "keeps_evidence c c2"
    using evidence_trans [OF evidence_current keepsD(4) [OF final_disks_keeps]] c2 by (metis andthen_simps(3))
  moreover have "keeps c2 (fold (final_sample (fst env)) monitors (set_note ''final hardware checks'' c2))"
    by (rule keeps_trans [OF keeps_note keeps_fold]) (rule final_sample_keeps)
  from keeps_trans [OF keeps_trans [OF this final_pcie_keeps] check_taint_keeps] have "keeps c2 ?c1" using c3 by (metis andthen_simps(3))
  ultimately have "keeps_evidence c ?c1" using evidence_trans keepsD(4) by blast
  then show thesis using d conclude_ok [OF d] by (rule that)
qed

lemma finalize_verdict:
  assumes "finalize json fe monitors clk env c = ok d" "storable c" "findings_ok (c_findings c)"
  shows "c_final_verdict d = Some (final_verdict (Some (the_state d)) (c_findings d) (c_abort d))"
proof -
  obtain c1 where c1: "keeps_evidence c c1"
    and d: "d = (close_session clk c1)\<lparr>c_final_verdict := report_verdict (close_session clk c1) (stopped c1), c_status_note := []\<rparr>"
    by (rule finalize_steps [OF assms(1)])
  have "storable c1" "findings_ok (c_findings c1)"
    using evidenceD(2) [OF c1 assms(2)] evidenceD(1) [OF c1] assms(3) by (simp_all add: grows_def)
  from close_session_report [OF this] show ?thesis by (simp add: d the_state_def close_session_def stopped_def)
qed

text \<open>C5: the verdict that the program shows at the end, computed from the session and the findings read
  back from the log storage, is the verdict of the session and the findings in memory.\<close>

theorem report_matches_memory:
  assumes "finalize json fe monitors clk env c = ok d" "storable c" "findings_ok (c_findings c)"
  shows "c_final_verdict d = Some (final_verdict (Some (the_state d)) (c_findings d) (c_abort d))"
  by (rule finalize_verdict [OF assms])

text \<open>A copy of a log that cannot be written ends the program before the report, with the verdict still open and
  the session still running.\<close>

lemma failed_log_copy_ends_run:
  assumes "l \<in> set (final_logs sy)" "fe_write_error fe (path_join (path_join (s_dir (c_session c)) ''logs'') (fst l)) \<noteq> None"
  shows "\<exists>e. andthen (save_logs fe sy c) (conclude fe clk) = (Some e, c)"
proof -
  have "first_error (fe_write_error fe) (map (\<lambda>l. path_join (path_join (s_dir (c_session c)) ''logs'') (fst l)) (final_logs sy)) \<noteq> None"
    using assms by (auto simp: first_error_None)
  then show ?thesis by (auto simp: save_logs_def andthen_def)
qed

text \<open>The verdict on the screen is the one of the reports, which are then on the log storage.\<close>

lemma finalize_writes_reports:
  assumes "finalize json fe monitors clk env c = ok d" "c_final_verdict d = Some v"
  obtains written body disk where
    "write_reports (fe_report fe) (s_fs (c_session d)) disk (s_dir (c_session d)) (stopped d) = (written, Inr (v, body))"
    "fs_disk (c_findings d) = Some disk" "\<forall>p \<in> set (map fst written). fe_write_error fe p = None"
proof -
  obtain c1 where "conclude fe clk c1 = ok d" by (rule finalize_steps [OF assms(1)])
  then have d: "final_report fe (close_session clk c1) (stopped c1) = Inr (Some v)" "stopped d = stopped c1"
      "c_session d = c_session (close_session clk c1)" "c_findings d = c_findings (close_session clk c1)"
    using assms(2) by (auto simp: conclude_def Let_def ok_def stopped_def close_session_def split: sum.splits)
  then show thesis
    by (auto simp: final_report_def first_error_None split: option.splits prod.splits sum.splits
        elim!: ebind_eq_Inr [THEN iffD1, elim_format] intro!: that)
qed

lemma final_verdict_failed: "(\<And>b. verdict F b = FAILED) \<Longrightarrow> final_verdict s F inc = FAILED"
  by (simp add: final_verdict_def)

lemma close_evidence: "keeps_evidence c (close_session clk c)"
proof -
  have "session_ready (finish r clk s) = session_ready (session_save (upd_state f s))"
    if "f = (\<lambda>st. st\<lparr>st_run_status := r, st_finished_at := Some (now_iso clk)\<rparr>)" for r s f
    by (simp add: that finish_def Let_def session_ready_def can_save_def session_bounded_def)
  then have "keeps_evidence c' (ctx_session (finish r clk) c')" for r c'
    by (intro evidence_session) (simp_all add: finish_def Let_def)
  from evidence_trans [OF keepsD(4) [OF keeps_flush [OF keeps_refl]] this] show ?thesis unfolding close_session_def by simp
qed

lemma finalize_evidence: "finalize json fe monitors clk env c = ok d \<Longrightarrow> keeps_evidence c d"
proof -
  assume "finalize json fe monitors clk env c = ok d"
  then obtain c1 where "keeps_evidence c c1" and d: "d = (close_session clk c1)\<lparr>
      c_final_verdict := report_verdict (close_session clk c1) (stopped c1), c_status_note := []\<rparr>"
    by (rule finalize_steps)
  moreover have "keeps_evidence c' (c'\<lparr>c_final_verdict := v, c_status_note := n\<rparr>)" for c' v n
    by (simp add: keeps_evidence_def grows_same storable_def)
  ultimately show ?thesis using evidence_trans close_evidence by blast
qed

text \<open>A failure on record before the final analysis is the verdict of the report.\<close>

lemma finalize_failed:
  assumes "finalize json fe monitors clk env c = ok d" "storable c" "findings_ok (c_findings c)"
    and "keeps_evidence (ctx_add now e c0) c" "ev_severity e = FAIL"
  shows "c_final_verdict d = Some FAILED"
proof -
  obtain c1 where c1: "keeps_evidence c c1"
    and d: "d = (close_session clk c1)\<lparr>c_final_verdict := report_verdict (close_session clk c1) (stopped c1), c_status_note := []\<rparr>"
    by (rule finalize_steps [OF assms(1)])
  have r: "storable c1" "findings_ok (c_findings c1)"
    using evidenceD(2) [OF c1 assms(2)] evidenceD(1) [OF c1] assms(3) by (simp_all add: grows_def)
  have "grows (ctx_add now e c0) (close_session clk c1)"
    by (rule evidenceD(1) [OF evidence_trans [OF evidence_trans [OF assms(4) c1] close_evidence]])
  from FAIL_survives [OF this assms(5)] final_verdict_failed have "final_verdict s (c_findings (close_session clk c1)) inc = FAILED" for s inc
    by blast
  then show ?thesis using close_session_report [OF r] by (simp add: d)
qed

section \<open>A reset fails the machine\<close>

lemma run_evidence: "keeps_evidence c (snd (andthen (if resumes_disks c then start_disk_tests json de c else ok c) (\<lambda>c.
    run_phases tm rb (finish_disk_tests json fe) (phase_body x) (st_plan (the_state c)) c)))"
proof -
  let ?r = "if resumes_disks c then start_disk_tests json de c else ok c"
  have "keeps c (snd ?r)" by (simp add: start_disk_tests_keeps)
  then have 1: "keeps_evidence c (snd ?r)" by (rule keepsD(4))
  from this evidence_trans [OF this program.run_phases_evidence] show ?thesis
    unfolding snd_andthen by (cases "fst ?r") simp_all
qed

lemma main_run_finalizes:
  assumes "main_run json env c = ok d" "c_reboot_request d = None"
  obtains c1 where "keeps_evidence c c1"
    "finalize json (mn_finish env) (mn_monitors env) (mn_clock env) (mn_env env) c1 = ok d"
proof -
  obtain c0 where 0: "(if resumes_disks c then start_disk_tests json (mn_disks env) c else ok c) = ok c0"
    and r: "andthen (run_phases (mn_times env) (mn_reboot env) (finish_disk_tests json (mn_before_cycles env))
      (phase_body (mn_phases env)) (st_plan (the_state c0)) c0) (\<lambda>c. if c_reboot_request c \<noteq> None then ok c
        else finalize json (mn_finish env) (mn_monitors env) (mn_clock env) (mn_env env) c) = ok d"
    using okD [OF assms(1) [unfolded main_run_def]] by blast
  obtain c1 where 1: "run_phases (mn_times env) (mn_reboot env) (finish_disk_tests json (mn_before_cycles env))
      (phase_body (mn_phases env)) (st_plan (the_state c0)) c0 = ok c1"
    and f: "(if c_reboot_request c1 \<noteq> None then ok c1
        else finalize json (mn_finish env) (mn_monitors env) (mn_clock env) (mn_env env) c1) = ok d"
    using okD [OF r] by blast
  have "c_reboot_request c1 = None" using f assms(2) by (auto simp: ok_def split: if_splits)
  moreover have "keeps_evidence c c1"
    using run_evidence [of c json "mn_disks env" "mn_times env" "mn_reboot env" "mn_before_cycles env" "mn_phases env"]
    by (simp add: 0 1)
  ultimately show thesis using that f by simp
qed

lemma main_run_evidence:
  assumes "main_run json env (main_start now why c) = ok d" "c_reboot_request d = None"
  obtains c1 where "keeps_evidence (main_start now why c) c1" "keeps_evidence c c1"
    "finalize json (mn_finish env) (mn_monitors env) (mn_clock env) (mn_env env) c1 = ok d"
proof -
  obtain c1 where "keeps_evidence (main_start now why c) c1"
    "finalize json (mn_finish env) (mn_monitors env) (mn_clock env) (mn_env env) c1 = ok d"
    by (rule main_run_finalizes [OF assms])
  then show thesis using that evidence_trans [OF main_start_evidence] by blast
qed

lemma reset_run_failed:
  assumes "s_unexpected_reboot (c_session c)" "storable c" "findings_ok (c_findings c)"
    and "main_run json env (main_start now why c) = ok d" "c_reboot_request d = None"
  shows "c_final_verdict d = Some FAILED"
proof -
  obtain c1 where c1: "keeps_evidence (main_start now why c) c1" and s: "keeps_evidence c c1"
    and f: "finalize json (mn_finish env) (mn_monitors env) (mn_clock env) (mn_env env) c1 = ok d"
    by (rule main_run_evidence [OF assms(4,5)])
  obtain n p c0 where e: "keeps_evidence (ctx_add now (reset_event n p) c0) (main_start now why c)"
    using main_start_reset [OF assms(1)] by blast
  show ?thesis
  proof (rule finalize_failed [OF f _ _ evidence_trans [OF e c1]])
    show "storable c1" by (rule evidenceD(2) [OF s assms(2)])
    show "findings_ok (c_findings c1)" using evidenceD(1) [OF s] assms(3) by (simp add: grows_def)
  qed (simp add: reset_event_def)
qed

text \<open>C3: a machine that was reset while a test was running never leaves the program with a verdict
  other than FAIL: whatever happens afterwards, when the run ends the report read back from the
  log storage says FAIL.\<close>

theorem reset_fails_run:
  assumes "s_unexpected_reboot (c_session c)" "storable c" "findings_ok (c_findings c)"
    and "main_run json env (main_start now why c) = ok d" "c_reboot_request d = None"
  shows "c_final_verdict d = Some FAILED"
  by (rule reset_run_failed [OF assms])

text \<open>C2: a passing verdict was earned.  When the program ends with PASS or PASS WITH WARNINGS, the machine was not
  reset, nobody aborted the run, neither before nor during this start was a failure or missing
  coverage on record, every phase of the plan was completed, and every disk scan and drive self-test of the session is complete.\<close>

theorem pass_was_earned:
  assumes "main_run json env (main_start now why c) = ok d" "c_reboot_request d = None"
    and "storable c" "findings_ok (c_findings c)" "c_final_verdict d = Some v" "badness v < 2"
  shows "\<not> s_unexpected_reboot (c_session c) \<and> \<not> c_abort d \<and>
    (\<forall>f \<in> set (findings_all (c_findings c)) \<union> set (findings_all (c_findings d)). f_severity f \<noteq> FAIL \<and> \<not> f_incomplete f) \<and>
    st_plan (the_state d) \<noteq> [] \<and> skip_phases (st_options (the_state d)) = [] \<and>
    (\<forall>p \<in> set (st_plan (the_state d)). completed_status (phase_status_of (the_state d) (pl_name p))) \<and>
    (\<forall>(k, e) \<in> set (st_disk_scans (the_state d)). sc_done e) \<and>
    (\<forall>(k, t) \<in> set (st_selftests (the_state d)). st_status t = ''complete'')"
proof -
  obtain c1 where s: "keeps_evidence c c1"
    and f: "finalize json (mn_finish env) (mn_monitors env) (mn_clock env) (mn_env env) c1 = ok d"
    by (rule main_run_evidence [OF assms(1,2)])
  have r: "storable c1" "findings_ok (c_findings c1)"
    using evidenceD(2) [OF s assms(3)] evidenceD(1) [OF s] assms(4) by (simp_all add: grows_def)
  have g: "grows c d" by (rule evidenceD(1) [OF evidence_trans [OF s finalize_evidence [OF f]]])
  have "v = final_verdict (Some (the_state d)) (c_findings d) (c_abort d)" using finalize_verdict [OF f r] assms(5) by simp
  from assms(6) [unfolded this final_verdict_passes] have d: "findings_counts (c_findings d) FAIL = 0" "\<not> c_abort d"
    "\<forall>f \<in> set (findings_all (c_findings d)). \<not> f_incomplete f" "fully_covered (the_state d)" by auto
  have c: "findings_counts (c_findings c) FAIL = 0" "\<forall>f \<in> set (findings_all (c_findings c)). \<not> f_incomplete f"
    using grows_verdict [OF g assms(4), of False] verdict_passes [of "c_findings d" False] verdict_passes [of "c_findings c" False] d
    by auto
  have reset: "\<not> s_unexpected_reboot (c_session c)"
    using reset_run_failed [OF _ assms(3,4,1,2)] assms(5,6) by fastforce
  have no_failure: "\<forall>f \<in> set (findings_all F). f_severity f \<noteq> FAIL" if "findings_counts F FAIL = 0" for F
    using that unfolding counts_zero_iff by (metis imageI)
  have "\<forall>f \<in> set (findings_all (c_findings c)) \<union> set (findings_all (c_findings d)). f_severity f \<noteq> FAIL \<and> \<not> f_incomplete f"
    using c(2) d(3) no_failure [OF c(1)] no_failure [OF d(1)] by blast
  with reset show ?thesis using d(2) d(4) [unfolded fully_covered_def] by (intro conjI) simp_all
qed

text \<open>C9: a phase whose body raises ends with the status error, and the session can no longer pass,
  whatever is reported afterwards.\<close>

theorem crashed_phase_never_passes:
  assumes "phase_body x (pl_name p) (pl_duration p) (phase_started (tm (pl_name p)) (pl_name p) c) = raise e c1"
    and "keeps_evidence (snd (run_one tm rb (phase_body x) p c)) d"
  shows "table (snd (run_one tm rb (phase_body x) p c)) (pl_name p) = P_error \<and> 2 \<le> badness (verdict (c_findings d) inc)"
proof -
  have r: "snd (run_one tm rb (phase_body x) p c) = phase_crashed (tm (pl_name p)) (pl_name p) e (set_note [] c1)"
    by (simp add: run_one_def assms(1) Let_def)
  have "keeps_evidence (ctx_add (now_iso (pt_end (tm (pl_name p)))) (phase_error_event (pl_name p) e) (set_note [] c1)) d"
    using evidence_trans [OF evidence_put_phase assms(2) [unfolded r phase_crashed_def]] .
  from incomplete_survives [OF evidenceD(1) [OF this]] show ?thesis unfolding r
    by (simp add: phase_error_event_def phase_crashed_def put_phase_table)
qed

text \<open>A session that was reset: no plan left, no disk manager, no tool installed.\<close>

definition reset_ctx :: ctx where
  "reset_ctx = fresh_ctx\<lparr>c_session := first_session\<lparr>s_unexpected_reboot := True\<rparr>\<rparr>"

definition bare_finish :: finish_env where
  "bare_finish = \<lparr>fe_now = ''t'', fe_turns = [], fe_last = \<lambda>_. (None, []), fe_procs = \<lambda>_. (None, []), fe_sys = quiet_sys, fe_smart_turns = [],
     fe_report = plain_env, fe_write_error = \<lambda>_. None\<rparr>"

lemma reset_storable: "storable reset_ctx" "findings_ok (c_findings reset_ctx)" "s_unexpected_reboot (c_session reset_ctx)"
  using fresh_storable
  by (simp_all add: reset_ctx_def storable_def session_ready_def can_save_def session_bounded_def fresh_ctx_def)

lemma quiet_pcie: "\<exists>links. parse_pcie_links (stdout (run_cmd quiet_sys LSPCI)) = Inr links"
proof -
  have "parse_pcie_links [] = Inr []" by code_simp
  then show ?thesis by (simp add: quiet_sys_def)
qed

lemma add_events_reboot [simp]: "c_reboot_request (add_events now es c) = c_reboot_request c"
  by (induction es arbitrary: c) simp_all

lemma check_taint_reboot [simp]: "c_reboot_request (snd (check_taint env s c)) = c_reboot_request c"
  by (cases env) (simp add: check_taint_def)

lemma no_reboot_frame [simp]:
  "c_reboot_request (close_session clk c) = c_reboot_request c" "c_reboot_request (set_current_phase n c) = c_reboot_request c"
  "c_reboot_request (check_pcie_links now l b c) = c_reboot_request c"
  by (simp_all add: close_session_def check_pcie_links_def set_current_phase_def)

lemma some_ok: "c_reboot_request c = None \<Longrightarrow> \<exists>d. ok c = ok d \<and> c_reboot_request d = None"
  by blast

lemma conclude_bare: "c_reboot_request c = None \<Longrightarrow> \<exists>d. andthen (save_logs bare_finish sy c) (conclude bare_finish clk) = ok d \<and> c_reboot_request d = None"
proof -
  assume r: "c_reboot_request c = None"
  let ?c = "close_session clk c"
  have "first_error (\<lambda>_. None) ps = None" for ps by (simp add: first_error_None)
  moreover obtain v where "final_report bare_finish ?c (stopped c) = Inr v"
  proof (cases "fs_disk (c_findings ?c)")
    case (Some d)
    obtain written v body where "write_reports plain_env (s_fs (c_session ?c)) d (s_dir (c_session ?c)) (stopped c) = (written, Inr (v, body))"
      using plain_reports by blast
    with Some that calculation show thesis by (simp add: final_report_def bare_finish_def)
  qed (simp add: final_report_def that)
  moreover have "fe_write_error bare_finish = (\<lambda>_. None)" by (simp add: bare_finish_def)
  ultimately show ?thesis using r by (simp add: save_logs_def conclude_def Let_def andthen_simps(1) [unfolded ok_def] ok_def)
qed

lemma finalize_bare:
  assumes "c_dm c = None" "c_reboot_request c = None"
  shows "\<exists>d. finalize json bare_finish [] clk (''t'', quiet_sys) c = ok d \<and> c_reboot_request d = None"
proof -
  obtain links where "parse_pcie_links (stdout (run_cmd quiet_sys LSPCI)) = Inr links" using quiet_pcie by blast
  then show ?thesis using assms
    by (simp add: finalize_def final_disks_def finish_disk_tests_def final_pcie_def Let_def set_current_phase_def quiet_sys_def)
      (intro conjI impI; rule conclude_bare; simp add: set_current_phase_def)
qed

lemma report_matches_memory_witness:
  "\<forall>json. \<exists>d. finalize json bare_finish [] clock0 (''t'', quiet_sys) fresh_ctx = ok d \<and>
     c_final_verdict d = Some (final_verdict (Some (the_state d)) (c_findings d) (c_abort d))"
proof -
  have c: "c_dm fresh_ctx = None" "c_reboot_request fresh_ctx = None" "findings_ok (c_findings fresh_ctx)" by (simp_all add: fresh_ctx_def)
  then show ?thesis using finalize_bare [OF c(1,2)] report_matches_memory [OF _ fresh_storable c(3)] by blast
qed

definition bare_env :: "phase_inputs \<Rightarrow> disk_env \<Rightarrow> main_env" where
  "bare_env x de = \<lparr>mn_times = \<lambda>_. \<lparr>pt_start = clock0, pt_end = clock0\<rparr>,
     mn_reboot = \<lparr>rb_now = ''t'', rb_procs = \<lambda>_. (None, []), rb_sys = quiet_sys\<rparr>,
     mn_phases = x, mn_disks = de, mn_before_cycles = bare_finish, mn_finish = bare_finish, mn_monitors = [],
     mn_clock = clock0, mn_env = (''t'', quiet_sys)\<rparr>"

lemma first_fields: "st_plan (s_state first_session) = []" "st_phases (s_state first_session) = []"
    "validation_errors (st_options (s_state first_session)) = []" "s_previous_state first_session = None"
  by (simp_all add: first_session_def make_session_def new_state_def default_options_def dict_of_pairs_def)

lemma reset_start: "main_start ''t'' [] reset_ctx = save_ctx (ctx_add ''t'' (reset_event 0 no_previous)
    (put_state (\<lambda>st. st\<lparr>st_incidents := st_incidents st @ [incident_of ''t'' no_previous]\<rparr>)
      (reset_ctx\<lparr>c_opts := st_options (s_state first_session)\<rparr>)))"
  by (simp add: main_start_def record_incident_def reopen_phase_def Let_def start_events_def session_options_def reset_ctx_def first_fields)
    (simp add: no_previous_def fresh_ctx_def first_fields)

lemma reset_fails_run_witness:
  "\<forall>json x de. \<exists>d. main_run json (bare_env x de) (main_start ''t'' [] reset_ctx) = ok d \<and> c_final_verdict d = Some FAILED"
proof (intro allI)
  fix json x de
  let ?c = "main_start ''t'' [] reset_ctx"
  have "st_plan (the_state ?c) = []" "c_dm ?c = None" "c_reboot_request ?c = None" "\<not> resumes_disks ?c"
    unfolding resumes_disks_def reset_start by (simp_all add: reset_ctx_def the_state_def first_fields save_ctx_def fresh_ctx_def put_state_def)
  then have "\<exists>d. main_run json (bare_env x de) ?c = ok d \<and> c_reboot_request d = None"
    using finalize_bare [of ?c json clock0] by (simp add: main_run_def bare_env_def)
  then show "\<exists>d. main_run json (bare_env x de) ?c = ok d \<and> c_final_verdict d = Some FAILED" using reset_fails_run [OF reset_storable(3,1,2)] by blast
qed

text \<open>A session whose only phase is done, without a finding.\<close>

definition done_ctx :: ctx where
  "done_ctx = fresh_ctx\<lparr>c_session := first_session\<lparr>s_state := (s_state first_session)\<lparr>
     st_plan := [\<lparr>pl_name = ''idle'', pl_duration = 60\<rparr>],
     st_phases := [(''idle'', \<lparr>ps_status = P_done, ps_started = ''t0'', ps_finished = ''t1'', ps_elapsed = 60, ps_result = ''0 fail, 0 warn''\<rparr>)],
     st_disk_tests_finished := True\<rparr>\<rparr>\<rparr>"

lemma done_storable: "storable done_ctx" "findings_ok (c_findings done_ctx)"
  using fresh_storable
  by (simp_all add: done_ctx_def storable_def session_ready_def can_save_def session_bounded_def fresh_ctx_def)

lemma quiet_taint: "check_taint (''t'', quiet_sys) s c = (0, c)"
proof -
  have "taint_value quiet_sys = 0" by code_simp
  moreover have "concat (map (taint_flag 0 s) TAINT_FLAGS) = []" by (simp add: TAINT_FLAGS_def taint_flag_def)
  ultimately have "concat (map (taint_flag (taint_value quiet_sys) s) TAINT_FLAGS) = []" "taint_value quiet_sys = 0" by simp_all
  then show ?thesis unfolding check_taint_def by (simp only: prod.case) simp
qed

lemma first_boot: "\<not> s_unexpected_reboot first_session" "\<not> s_planned_reboot first_session" "\<not> s_orchestrator_restart first_session"
    "st_pcie_links (s_state first_session) = []" "st_disk_scans (s_state first_session) = []" "st_selftests (s_state first_session) = []"
    "skip_phases (st_options (s_state first_session)) = []"
  by (simp_all add: first_session_def make_session_def new_state_def default_options_def)

lemma done_start: "main_start ''t'' [] done_ctx = save_ctx (done_ctx\<lparr>c_opts := st_options (s_state first_session)\<rparr>)"
  by (simp add: main_start_def record_incident_def Let_def start_events_def session_options_def done_ctx_def first_fields fresh_ctx_def first_boot)

text \<open>What the remaining run of such a session starts from.\<close>

definition all_done :: "ctx \<Rightarrow> bool" where
  "all_done c \<longleftrightarrow> storable c \<and> fs_items (c_findings c) = [] \<and> the_state c = the_state done_ctx \<and> c_dm c = None \<and>
     c_reboot_request c = None \<and> \<not> c_abort c"

lemma done_all: "all_done (main_start ''t'' [] done_ctx)"
proof -
  have "storable (main_start ''t'' [] done_ctx)" by (rule evidenceD(2) [OF main_start_evidence done_storable(1)])
  moreover have "fs_items (findings_init p blank_disk) = []" for p
    by (simp add: findings_init_def empty_findings_def blank_disk_def read_rotating_eq load_raw_def Let_def)
  ultimately show ?thesis
    by (simp add: all_done_def done_start save_ctx_def the_state_def) (simp add: done_ctx_def fresh_ctx_def)
qed

lemma done_phases: "all_done c \<Longrightarrow> \<exists>c'. run_phases tm rb de body (st_plan (the_state c)) c = ok c' \<and> all_done c'"
proof -
  assume c: "all_done c"
  let ?c = "enter_phase ''idle'' c"
  have p: "st_plan (the_state c) = [\<lparr>pl_name = ''idle'', pl_duration = 60\<rparr>]"
    "st_phases (the_state c) = [(''idle'', \<lparr>ps_status = P_done, ps_started = ''t0'', ps_finished = ''t1'', ps_elapsed = 60, ps_result = ''0 fail, 0 warn''\<rparr>)]"
    using c by (simp_all add: all_done_def done_ctx_def the_state_def)
  have s: "the_state ?c = the_state c"
    using p(2) by (simp add: enter_phase_def phase_state_of_def the_state_def dict_setdefault_def)
  have "ps_status (dict_get (st_phases (the_state ?c)) ''idle'' pending_state) = P_done" by (simp add: s p(2) dict_get_def)
  then have "run_phases tm rb de body (st_plan (the_state c)) c = ok ?c" by (simp add: p(1) phase_turn_def)
  moreover have "all_done ?c"
    using c s evidenceD(2) [OF evidence_enter] by (simp add: all_done_def) (simp add: enter_phase_def)
  ultimately show ?thesis by blast
qed

lemma done_finalize: "all_done c \<Longrightarrow> \<exists>d. finalize json bare_finish [] clock0 (''t'', quiet_sys) c = ok d \<and>
    (\<exists>v. c_final_verdict d = Some v \<and> badness v < 2) \<and> c_reboot_request d = None"
proof -
  assume c: "all_done c"
  let ?c = "set_note ''final hardware checks'' (set_current_phase ''final'' c)"
  obtain links where l: "parse_pcie_links [] = Inr links" using quiet_pcie by (auto simp: quiet_sys_def)
  have st: "st_disk_tests_finished (the_state c)" "c_dm c = None" "st_pcie_links (the_state c) = []" "c_reboot_request ?c = None"
    using c by (simp_all add: all_done_def done_ctx_def the_state_def first_boot set_current_phase_def)
  have f: "finalize json bare_finish [] clock0 (''t'', quiet_sys) c = andthen (save_logs bare_finish quiet_sys ?c) (conclude bare_finish clock0)"
    using st(1-3) l by (simp add: finalize_def final_disks_def final_pcie_def quiet_taint Let_def set_current_phase_def the_state_def)
      (simp add: quiet_sys_def)
  obtain d where d: "andthen (save_logs bare_finish quiet_sys ?c) (conclude bare_finish clock0) = ok d" "c_reboot_request d = None"
    using conclude_bare [OF st(4)] by blast
  have "storable c" "findings_ok (c_findings c)" using c by (simp_all add: all_done_def findings_ok_def)
  from finalize_verdict [OF f [unfolded d(1)] this]
  have v: "c_final_verdict d = Some (final_verdict (Some (the_state d)) (c_findings d) (c_abort d))" .
  have "conclude bare_finish clock0 ?c = ok d" using okD [OF d(1)] by (auto simp: save_logs_def ok_def)
  from conclude_ok [OF this] have e: "fs_items (c_findings d) = []" "\<not> c_abort d"
    "the_state d = (the_state c)\<lparr>st_run_status := S_complete, st_finished_at := Some (now_iso clock0)\<rparr>"
    using c by (simp_all add: all_done_def close_session_def stopped_def the_state_def finish_def Let_def set_current_phase_def)
  have "fully_covered (the_state d)"
    using c by (simp add: e(3) fully_covered_def all_done_def) (simp add: done_ctx_def the_state_def first_boot
      phase_status_of_def dict_get_def completed_status_def)
  then have "badness (final_verdict (Some (the_state d)) (c_findings d) (c_abort d)) < 2"
    unfolding final_verdict_passes using e by (simp add: findings_counts_def findings_all_def)
  with v d f show ?thesis by auto
qed

lemma pass_was_earned_witness:
  "\<forall>json x de. \<exists>d v. main_run json (bare_env x de) (main_start ''t'' [] done_ctx) = ok d \<and> c_final_verdict d = Some v \<and> \<not> c_abort d \<and>
     (\<forall>p \<in> set (st_plan (the_state d)). completed_status (phase_status_of (the_state d) (pl_name p)))"
proof (intro allI)
  fix json x de
  let ?c = "main_start ''t'' [] done_ctx" and ?env = "bare_env x de"
  have "\<not> resumes_disks ?c" using done_all by (simp add: resumes_disks_def all_done_def done_ctx_def the_state_def)
  moreover obtain c1 where "run_phases (mn_times ?env) (mn_reboot ?env) (finish_disk_tests json (mn_before_cycles ?env))
      (phase_body (mn_phases ?env)) (st_plan (the_state ?c)) ?c = ok c1" "all_done c1" using done_phases [OF done_all] by blast
  moreover from this(2) obtain d v where d: "finalize json bare_finish [] clock0 (''t'', quiet_sys) c1 = ok d"
    "c_final_verdict d = Some v" "badness v < 2" "c_reboot_request d = None" using done_finalize by blast
  ultimately have m: "main_run json ?env ?c = ok d" by (simp add: main_run_def bare_env_def all_done_def)
  show "\<exists>d v. main_run json ?env ?c = ok d \<and> c_final_verdict d = Some v \<and> \<not> c_abort d \<and>
     (\<forall>p \<in> set (st_plan (the_state d)). completed_status (phase_status_of (the_state d) (pl_name p)))"
    using pass_was_earned [OF m d(4) done_storable d(2,3)] m d(2) by blast
qed

definition unknown_phase :: plan_item where
  "unknown_phase = \<lparr>pl_name = ''gpu'', pl_duration = 60\<rparr>"

lemma crashed_phase_never_passes_witness:
  "\<forall>tm rb x. 2 \<le> badness (verdict (c_findings (snd (run_one tm rb (phase_body x) unknown_phase fresh_ctx))) False)"
  by (intro allI, rule conjunct2 [OF crashed_phase_never_passes [OF _ evidence_refl]]) (simp add: phase_body_def unknown_phase_def)

section \<open>Power cycles come to an end\<close>

text \<open>What the power-cycle phase and \<open>perform_reboot\<close> change of the session.\<close>

definition cycle_state :: "ctx \<Rightarrow> int \<times> planned option \<times> string option" where
  "cycle_state c = (st_reboot_cycles_done (the_state c), st_planned_reboot (the_state c), last_boot (the_state c))"

lemma cycle_state_frame [simp]:
  "cycle_state (ctx_add now e c) = cycle_state c" "cycle_state (set_note s c) = cycle_state c" "cycle_state (put_dm f c) = cycle_state c"
  "cycle_state (save_ctx c) = cycle_state c" "cycle_state (add_events now es c) = cycle_state c"
  "cycle_state (put_state (\<lambda>st. st\<lparr>st_powercycle_baseline := b\<rparr>) c) = cycle_state c"
  "cycle_state (put_state (\<lambda>st. st\<lparr>st_disk_scans := g st\<rparr>) c) = cycle_state c"
  by (simp_all add: cycle_state_def last_boot_def)

lemma cycle_state_scans [simp]: "cycle_state (put_scans f k c) = cycle_state c" "cycle_state (upd_entry k g c) = cycle_state c"
  by (simp_all add: put_scans_def upd_entry_def split: option.split)

lemma cycle_state_writers: "writer_finished now poll w c = (b, w', c') \<Longrightarrow> cycle_state c' = cycle_state c"
  by (auto simp: writer_finished_def split: if_splits option.splits)

lemma cycle_state_save: "save_writers now procs ws c = (ws', c') \<Longrightarrow> cycle_state c' = cycle_state c"
proof (induction ws arbitrary: c ws' c')
  case (Cons w ws)
  obtain b w' c1 where f: "writer_finished now (writer_poll procs w) w c = (b, w', c1)" by (cases "writer_finished now (writer_poll procs w) w c")
  show ?case using Cons cycle_state_writers [OF f] by (auto simp: f Let_def split: prod.splits if_splits)
qed simp

lemma cycle_state_progress [simp]: "cycle_state (save_progress now procs c) = cycle_state c"
proof -
  have "cycle_state (fold save_scan ss c) = cycle_state c" for ss c by (induction ss arbitrary: c) (simp_all add: save_scan_def)
  then show ?thesis by (auto simp: save_progress_def split: prod.split dest: cycle_state_save)
qed

lemma cycle_state_reboot [simp]: "cycle_state (reboot_save rb c) = cycle_state c"
proof -
  have "cycle_state (c\<lparr>c_findings := F\<rparr>) = cycle_state c" for F by (simp add: cycle_state_def the_state_def)
  then show ?thesis by (simp add: reboot_save_def Let_def dm_pause_def)
qed

lemma persistent_frame [simp]: "c_persistent (ctx_add now e c) = c_persistent c" "c_persistent (put_state g c) = c_persistent c"
    "c_persistent (add_events now es c) = c_persistent c"
proof -
  show 1: "c_persistent (ctx_add now e c) = c_persistent c" for e c by (simp add: ctx_add_def)
  show "c_persistent (add_events now es c) = c_persistent c" by (induction es arbitrary: c) (simp_all add: 1)
qed (simp add: put_state_def ctx_session_def)

lemma cycle_check_frame:
  "cycle_state (snd (cycle_check json env b c)) = cycle_state c" "c_persistent (snd (cycle_check json env b c)) = c_persistent c"
  "c_reboot_request (snd (cycle_check json env b c)) = c_reboot_request c" "c_opts (snd (cycle_check json env b c)) = c_opts c"
  by (simp_all add: cycle_check_def compare_snapshots_def Let_def lift_ex_def split: sum.split option.split)

text \<open>The phase either leaves the state of the cycles alone or requests the next cycle below the target.\<close>

definition requests_cycle :: "ctx \<Rightarrow> ctx \<Rightarrow> bool" where
  "requests_cycle c c' \<longleftrightarrow> c_persistent c \<and> st_reboot_cycles_done (the_state c) < cycle_target c \<and>
     (\<exists>p. pr_cycle p = st_reboot_cycles_done (the_state c) + 1 \<and>
       cycle_state c' = (st_reboot_cycles_done (the_state c), Some p, last_boot (the_state c)))"

lemma cycle_state_request: "cycle_state (request_reboot clk m c) = (st_reboot_cycles_done (the_state c),
    Some \<lparr>pr_cycle = m, pr_requested_epoch = epoch clk, pr_requested_at = now_iso clk\<rparr>, last_boot (the_state c))"
  by (simp add: cycle_state_def last_boot_def)

lemma cycle_next_cases:
  "cycle_state (cycle_next env c) = cycle_state c \<and> c_reboot_request (cycle_next env c) = c_reboot_request c \<or> requests_cycle c (cycle_next env c)"
  by (auto simp: cycle_next_def Let_def requests_cycle_def cycle_state_request)

lemma requests_cong:
  "cycle_state c1 = cycle_state c \<Longrightarrow> c_persistent c1 = c_persistent c \<Longrightarrow> c_opts c1 = c_opts c \<Longrightarrow> requests_cycle c1 d = requests_cycle c d"
  by (simp add: requests_cycle_def cycle_state_def cycle_target_def)

lemma powercycle_state:
  "cycle_state (snd (powercycle_run json env c)) = cycle_state c \<and> c_reboot_request (snd (powercycle_run json env c)) = c_reboot_request c \<or>
   requests_cycle c (snd (powercycle_run json env c))"
proof (cases "case st_powercycle_baseline (the_state c) of Some b \<Rightarrow> Inr b | None \<Rightarrow> take_snapshot json (cy_sys env) (cy_cpus env)")
  case (Inl e)
  then show ?thesis by (simp add: powercycle_run_def)
next
  case (Inr b)
  let ?c1 = "put_state (\<lambda>st. st\<lparr>st_powercycle_baseline := Some b\<rparr>) c" let ?r = "cycle_check json env b ?c1"
  have s: "snd (powercycle_run json env c) = (case fst ?r of None \<Rightarrow> cycle_next env (snd ?r) | Some _ \<Rightarrow> snd ?r)"
    by (simp add: powercycle_run_def Inr snd_andthen split: option.split)
  have f: "cycle_state (snd ?r) = cycle_state c" "c_persistent (snd ?r) = c_persistent c" "c_opts (snd ?r) = c_opts c"
    "c_reboot_request (snd ?r) = c_reboot_request c" by (simp_all add: cycle_check_frame)
  from cycle_next_cases [of env "snd ?r"] show ?thesis
    unfolding s requests_cong [OF f(1-3)] f(1,4) by (auto simp: f split: option.split)
qed

text \<open>
  A boot after the planned reboot: the session is read back from the storage and resumed; the
  findings, which the storage holds too, stay.  \<open>power_cycles\<close> runs the phase and the reboots it asks
  for over a list of boots; its result counts them.
\<close>

definition next_boot :: "string \<Rightarrow> clock \<Rightarrow> ctx \<Rightarrow> ctx" where
  "next_boot boot clk c = (let s = c_session c in case state_at (s_fs s) (s_dir s) of
     None \<Rightarrow> c
   | Some (st, n) \<Rightarrow> c\<lparr>c_session := resume boot clk (make_session (s_base s) (s_dir s) st n (s_fs s)),
       c_reboot_request := None, c_boot_id := boot\<rparr>)"

fun power_cycles :: "(string \<Rightarrow> pyval option) \<Rightarrow> reboot_env \<Rightarrow> (string \<times> clock \<times> cycle_env) list \<Rightarrow> ctx \<Rightarrow> nat \<times> ctx" where
  "power_cycles json rb [] c = (0, c)"
| "power_cycles json rb ((boot, clk, env) # bs) c =
    (let c1 = snd (powercycle_run json env c) in
     if c_reboot_request c1 = None then (0, c1)
     else (case power_cycles json rb bs (next_boot boot clk (reboot_save rb c1)) of (n, c') \<Rightarrow> (n + 1, c')))"

lemma ready_same: "s_fs s = s_fs t \<Longrightarrow> s_dir s = s_dir t \<Longrightarrow> s_seq s = s_seq t \<Longrightarrow> session_ready s = session_ready t"
  by (simp add: session_ready_def can_save_def session_bounded_def)

lemma ready_resume: "session_ready s \<Longrightarrow> session_ready (resume boot clk s)"
  unfolding resume_def Let_def
  by (rule session_ready(1), rule iffD2 [OF ready_same [of _ s]]) (simp_all split: option.split)

lemma next_boot_state:
  assumes "storable c" "cycle_state c = (n, Some p, prev)" "prev \<noteq> Some boot"
  shows "cycle_state (next_boot boot clk (reboot_save rb c)) = (pr_cycle p, None, Some boot) \<and>
    storable (next_boot boot clk (reboot_save rb c)) \<and> c_reboot_request (next_boot boot clk (reboot_save rb c)) = None \<and>
    c_opts (next_boot boot clk (reboot_save rb c)) = c_opts c"
proof -
  let ?d = "reboot_save rb c" let ?s = "c_session ?d"
  obtain c2 where c2: "?d = save_ctx c2" "keeps c c2" using reboot_save_saves by blast
  have st: "storable c2" "storable ?d"
    using evidenceD(2) [OF keepsD(4) [OF c2(2)] assms(1)] evidenceD(2) [OF keepsD(4) [OF reboot_save_keeps] assms(1)] .
  have at: "state_at (s_fs ?s) (s_dir ?s) = Some (s_state ?s, s_seq ?s)"
    using ready_saves [of "c_session c2"] st(1) by (simp add: c2(1) save_ctx_def storable_def)
  let ?m = "make_session (s_base ?s) (s_dir ?s) (s_state ?s) (s_seq ?s) (s_fs ?s)"
  have nb: "next_boot boot clk ?d = ?d\<lparr>c_session := resume boot clk ?m, c_reboot_request := None, c_boot_id := boot\<rparr>"
    by (simp add: next_boot_def Let_def at)
  have "session_ready ?m" using st(2) ready_same [of ?m ?s] by (simp add: make_session_def storable_def)
  from ready_resume [OF this] have "storable (next_boot boot clk ?d)"
    using st(2) by (simp add: nb storable_def) (simp add: make_session_def)
  moreover have "st_planned_reboot (s_state ?s) = Some p" "last_boot (s_state ?s) = prev"
    using assms(2) cycle_state_reboot [of rb c] unfolding cycle_state_def the_state_def by auto
  then have "cycle_state (next_boot boot clk ?d) = (pr_cycle p, None, Some boot)"
    using assms(3) by (simp add: nb cycle_state_def the_state_def resume_def make_session_def Let_def add_boot_def) (simp add: last_boot_def)
  moreover have "c_opts ?d = c_opts c" using keepsD(2) [OF reboot_save_keeps [of c rb]] by (simp add: orchestration_def)
  ultimately show ?thesis by (simp add: nb)
qed

lemma power_cycles_bound:
  "storable c \<Longrightarrow> c_reboot_request c = None \<Longrightarrow> distinct (map fst bs) \<Longrightarrow> last_boot (the_state c) \<notin> Some ` fst ` set bs \<Longrightarrow>
   fst (power_cycles json rb bs c) \<le> nat (cycle_target c - st_reboot_cycles_done (the_state c)) \<and>
   (nat (cycle_target c - st_reboot_cycles_done (the_state c)) < length bs \<longrightarrow> c_reboot_request (snd (power_cycles json rb bs c)) = None)"
proof (induction bs arbitrary: c)
  case (Cons b bs)
  obtain boot clk env where b: "b = (boot, clk, env)" by (cases b)
  let ?c1 = "snd (powercycle_run json env c)" let ?d = "next_boot boot clk (reboot_save rb ?c1)"
  show ?case
  proof (cases "c_reboot_request ?c1 = None")
    case False
    then obtain p where p: "st_reboot_cycles_done (the_state c) < cycle_target c" "pr_cycle p = st_reboot_cycles_done (the_state c) + 1"
      "cycle_state ?c1 = (st_reboot_cycles_done (the_state c), Some p, last_boot (the_state c))"
      using powercycle_state [of json env c] Cons.prems(2) by (auto simp: requests_cycle_def)
    have "storable ?c1" by (rule evidenceD(2) [OF keepsD(4) [OF powercycle_run_keeps] Cons.prems(1)])
    moreover have "last_boot (the_state c) \<noteq> Some boot" using Cons.prems(4) b by auto
    ultimately have d: "cycle_state ?d = (pr_cycle p, None, Some boot)" "storable ?d" "c_reboot_request ?d = None" "c_opts ?d = c_opts ?c1"
      using next_boot_state [OF _ p(3)] by blast+
    have "c_opts ?c1 = c_opts c" using keepsD(2) [OF powercycle_run_keeps [of c json env]] by (simp add: orchestration_def)
    then have t: "cycle_target ?d = cycle_target c" "st_reboot_cycles_done (the_state ?d) = st_reboot_cycles_done (the_state c) + 1"
      using d p(2) by (simp_all add: cycle_target_def cycle_state_def)
    have "last_boot (the_state ?d) \<notin> Some ` fst ` set bs" using d(1) Cons.prems(3) b by (auto simp: cycle_state_def)
    with Cons.IH [OF d(2,3)] Cons.prems(3) p(1) False show ?thesis
      by (auto simp: b Let_def t case_prod_beta)
  qed (simp add: b Let_def)
qed simp

text \<open>C10: on a storage that keeps what is written to it the planned reboots come to an end: over any
  boots with different boot ids, at most as many reboots follow as the configured cycles leave, and once
  the boots exceed that number the phase returns without asking for another.\<close>

theorem power_cycles_end:
  assumes "storable c" "c_reboot_request c = None" "distinct (map fst bs)" "last_boot (the_state c) \<notin> Some ` fst ` set bs"
    and "nat (cycle_target c - st_reboot_cycles_done (the_state c)) < length bs"
  shows "fst (power_cycles json rb bs c) \<le> nat (cycle_target c - st_reboot_cycles_done (the_state c)) \<and>
    c_reboot_request (snd (power_cycles json rb bs c)) = None"
  using power_cycles_bound [OF assms(1-4), of json rb] assms(5) by blast

definition cycling_ctx :: ctx where
  "cycling_ctx = fresh_ctx\<lparr>c_opts := default_options\<lparr>reboot_cycles := 1\<rparr>\<rparr>"

lemma power_cycles_end_witness:
  "\<forall>json rb env. fst (power_cycles json rb [(''boot2'', clock0, env), (''boot3'', clock0, env)] cycling_ctx) \<le> 1 \<and>
   c_reboot_request (snd (power_cycles json rb [(''boot2'', clock0, env), (''boot3'', clock0, env)] cycling_ctx)) = None"
proof -
  have c: "storable cycling_ctx" "cycle_target cycling_ctx = 1" "c_reboot_request cycling_ctx = None"
    "last_boot (the_state cycling_ctx) = Some ''boot1''" "st_reboot_cycles_done (the_state cycling_ctx) = 0"
    using fresh_storable by (simp_all add: cycling_ctx_def storable_def cycle_target_def)
      (simp_all add: fresh_ctx_def the_state_def, simp add: first_session_def make_session_def new_state_def)
  then have "fst (power_cycles json rb [(''boot2'', clock0, env), (''boot3'', clock0, env)] cycling_ctx) \<le> 1 \<and>
      c_reboot_request (snd (power_cycles json rb [(''boot2'', clock0, env), (''boot3'', clock0, env)] cycling_ctx)) = None" for json rb env
    using power_cycles_end [of cycling_ctx "[(''boot2'', clock0, env), (''boot3'', clock0, env)]" json rb] by auto
  then show ?thesis by blast
qed

section \<open>Too many resets\<close>

lemma too_many_frame [simp]: "too_many_reboots (enter_phase n c) = too_many_reboots c" "too_many_reboots (skip_phase n c) = too_many_reboots c"
  by (simp_all add: too_many_reboots_def enter_phase_def skip_phase_def put_phase_def the_state_def phase_state_of_def set_phase_def)

text \<open>A turn of the loop after too many resets.\<close>

lemma too_many_turn:
  "too_many_reboots c \<Longrightarrow> phase_turn tm rb de body p c =
     (if table c (pl_name p) \<noteq> P_pending then (Inr True, enter_phase (pl_name p) c)
      else if c_abort c then (Inr False, enter_phase (pl_name p) c)
      else (Inr True, skip_phase (pl_name p) (enter_phase (pl_name p) c)))"
  unfolding phase_turn_def Let_def enter_status by (simp add: stopped_def)

lemma too_many_run:
  "too_many_reboots c \<Longrightarrow> \<not> c_abort c \<Longrightarrow> table (snd (run_phases tm rb de body ps c)) n =
     (if table c n = P_pending \<and> n \<in> pl_name ` set ps then P_skipped else table c n)"
proof (induction ps arbitrary: c)
  case (Cons p ps)
  have "table (enter_phase m c) = table c" for m by (rule ext) (simp add: table_def)
  moreover have "table (skip_phase m (enter_phase m c)) = (table c)(m := P_skipped)" for m
    by (rule ext) (simp add: skip_phase_def put_phase_table table_def)
  ultimately show ?case using Cons by (auto simp: too_many_turn)
qed simp

text \<open>C26: after the configured number of resets no phase is run any more: every phase of the plan that is
  still pending is skipped, the others keep their status, and the outcome does not depend on what the
  phases or the end of the disk tests would do.\<close>

theorem too_many_resets_run_nothing:
  assumes "too_many_reboots c" "\<not> c_abort c"
  shows "table (snd (run_phases tm rb de body ps c)) n =
      (if table c n = P_pending \<and> n \<in> pl_name ` set ps then P_skipped else table c n) \<and>
    run_phases tm rb de body ps c = run_phases tm' rb' de' body' ps c"
proof -
  have "run_phases tm rb de body ps c = run_phases tm' rb' de' body' ps c" using assms
  proof (induction ps arbitrary: c)
    case (Cons p ps)
    then show ?case using Cons.IH [of "enter_phase (pl_name p) c"] Cons.IH [of "skip_phase (pl_name p) (enter_phase (pl_name p) c)"]
      by (simp add: too_many_turn)
  qed simp
  then show ?thesis using too_many_run [OF assms] by blast
qed

definition worn_ctx :: ctx where
  "worn_ctx = put_state (\<lambda>st. st\<lparr>st_unexpected_reboots := 3\<rparr>) fresh_ctx"

lemma too_many_resets_run_nothing_witness:
  "\<forall>tm rb de body. table (snd (run_phases tm rb de body [\<lparr>pl_name = ''cpu'', pl_duration = 60\<rparr>] worn_ctx)) ''cpu'' = P_skipped"
proof -
  have "too_many_reboots worn_ctx" "\<not> c_abort worn_ctx" "table worn_ctx ''cpu'' = P_pending"
    by (simp_all add: worn_ctx_def too_many_reboots_def table_def entry_def)
      (simp_all add: fresh_ctx_def default_options_def the_state_def first_fields dict_get_def pending_state_def)
  then have "table (snd (run_phases tm rb de body [\<lparr>pl_name = ''cpu'', pl_duration = 60\<rparr>] worn_ctx)) ''cpu'' = P_skipped" for tm rb de body
    using conjunct1 [OF too_many_resets_run_nothing [of worn_ctx tm rb de body "[\<lparr>pl_name = ''cpu'', pl_duration = 60\<rparr>]" "''cpu''"]] by simp
  then show ?thesis by blast
qed

end
