(* ===== verification/Storage.thy ===== *)
theory Storage
  imports Disks
begin

text \<open>
  Models \<open>storage.py\<close>: the boot disk, the log partition and the choice of the log storage.  The
  functions run commands that change the machine, so the environment answers by the history of the
  commands issued so far: \<open>w_run w h\<close> is the answer to the last command of \<open>h\<close>, and the other fields
  are what the file system shows after the commands \<open>h\<close>.  Every function returns its result with
  the extended history.
\<close>

section \<open>The machine\<close>

type_synonym command = "string list \<times> string"   \<comment> \<open>with the text on its standard input\<close>

type_synonym history = "command list"

datatype opened = Opened | Busy | Open_failed

record world =
  w_run :: "history \<Rightarrow> cmd_result"
  w_read :: "history \<Rightarrow> string \<Rightarrow> string"
  w_exists :: "history \<Rightarrow> string \<Rightarrow> bool"
  w_open :: "history \<Rightarrow> string \<Rightarrow> opened"         \<comment> \<open>\<open>os.open(dev, O_RDWR | O_EXCL)\<close>\<close>
  w_writable :: "history \<Rightarrow> string \<Rightarrow> bool"
  w_mounted :: "history \<Rightarrow> string \<Rightarrow> bool"
  w_header :: "history \<Rightarrow> string \<Rightarrow> string option"  \<comment> \<open>2048 bytes at offset 32768\<close>
  w_json :: "string \<Rightarrow> pyval option"

definition exec :: "world \<Rightarrow> string list \<Rightarrow> history \<Rightarrow> cmd_result \<times> history" where
  "exec w cmd h = (w_run w (h @ [(cmd, [])]), h @ [(cmd, [])])"

definition exec_input :: "world \<Rightarrow> string list \<Rightarrow> string \<Rightarrow> history \<Rightarrow> cmd_result \<times> history" where
  "exec_input w cmd text h = (w_run w (h @ [(cmd, text)]), h @ [(cmd, text)])"

definition exec_out :: "world \<Rightarrow> string list \<Rightarrow> history \<Rightarrow> string \<times> history" where
  "exec_out w cmd h = (case exec w cmd h of (res, h) \<Rightarrow> (if returncode res = 0 then stdout res else [], h))"

section \<open>Constants and helpers\<close>

definition DATA_LABEL :: string where "DATA_LABEL = ''PCCHECKDATA''"
definition MOUNT_POINT :: string where "MOUNT_POINT = ''/mnt/pccheck''"
definition LIVE_MEDIUM :: string where "LIVE_MEDIUM = ''/run/live/medium''"
definition RAM_FALLBACK :: string where "RAM_FALLBACK = ''/run/pccheck/storage''"
definition MIN_FREE_BYTES :: int where "MIN_FREE_BYTES = 256 * 1024 * 1024"

record storage_info =
  si_root :: string
  si_device :: string
  si_persistent :: bool
  si_note :: string
  si_boot_disk :: string

definition findmnt_source :: "world \<Rightarrow> string \<Rightarrow> history \<Rightarrow> string \<times> history" where
  "findmnt_source w path h = (case exec_out w [''findmnt'', ''-no'', ''SOURCE'', path] h of (t, h) \<Rightarrow> (strip t, h))"

definition fstype :: "world \<Rightarrow> string \<Rightarrow> history \<Rightarrow> string \<times> history" where
  "fstype w dev h = (case exec_out w [''blkid'', ''-o'', ''value'', ''-s'', ''TYPE'', dev] h of (t, h) \<Rightarrow> (strip t, h))"

definition parent_of :: "world \<Rightarrow> string \<Rightarrow> history \<Rightarrow> string \<times> history" where
  "parent_of w dev h = (if \<not> startswith dev ''/dev/'' then ([], h)
     else (case exec_out w [''lsblk'', ''-ndo'', ''PKNAME'', dev] h of (t, h) \<Rightarrow> (or_else (strip t) (basename dev), h)))"

text \<open>(boot disk, source device)\<close>

definition find_boot_disk :: "world \<Rightarrow> history \<Rightarrow> (string \<times> string) \<times> history" where
  "find_boot_disk w h = (case findmnt_source w LIVE_MEDIUM h of (src, h) \<Rightarrow>
     (let src = (if src = [] then fold (\<lambda>line _. strip line) (splitlines (w_read w h ''/run/live/medium-device'')) [] else src)
      in if src = [] then (([], src), h) else (case parent_of w src h of (d, h) \<Rightarrow> ((d, src), h))))"

definition labelled_devices :: "world \<Rightarrow> history \<Rightarrow> string list \<times> history" where
  "labelled_devices w h = (case exec w [''blkid'', ''-t'', ''LABEL='' @ DATA_LABEL, ''-o'', ''device''] h of (res, h) \<Rightarrow>
     (filter (\<lambda>d. d \<noteq> []) (map strip (splitlines (stdout res))), h))"

section \<open>A device that can be opened\<close>

definition int_of :: "string \<Rightarrow> exn + int" where
  "int_of s = (case py_int s of Some n \<Rightarrow> Inr n | None \<Rightarrow> Inl (ValueError (''invalid literal for int() with base 10: '' @ s)))"

definition losetup :: "string \<Rightarrow> int \<Rightarrow> int \<Rightarrow> string list" where
  "losetup disk start sz = [''losetup'', ''--find'', ''--show'', ''--offset'', int_str (start * 512),
     ''--sizelimit'', int_str (sz * 512), ''/dev/'' @ disk]"

definition map_loop :: "world \<Rightarrow> string \<Rightarrow> string \<Rightarrow> int \<Rightarrow> int \<Rightarrow> history \<Rightarrow> string \<times> history" where
  "map_loop w dev disk start sz h = (case exec w (losetup disk start sz) h of (res, h) \<Rightarrow>
     (let loop = strip (stdout res) in
      if returncode res \<noteq> 0 \<or> loop = [] then (dev, h)
      else (case exec w [''losetup'', ''--direct-io=on'', loop] h of (_, h) \<Rightarrow> (loop, h))))"

definition usable_device :: "world \<Rightarrow> string \<Rightarrow> history \<Rightarrow> (exn + string) \<times> history" where
  "usable_device w dev h = (case w_open w h dev of
     Opened \<Rightarrow> (Inr dev, h)
   | Open_failed \<Rightarrow> (Inr dev, h)
   | Busy \<Rightarrow> (let name = basename dev;
          start = strip (w_read w h (''/sys/class/block/'' @ name @ ''/start''));
          sz = strip (w_read w h (''/sys/class/block/'' @ name @ ''/size''))
        in case parent_of w dev h of (disk, h) \<Rightarrow>
          if start = [] \<or> sz = [] \<or> disk = [] \<or> disk = name then (Inr dev, h)
          else (case (int_of start, int_of sz) of
             (Inl e, _) \<Rightarrow> (Inl e, h)
           | (_, Inl e) \<Rightarrow> (Inl e, h)
           | (Inr a, Inr b) \<Rightarrow> (case map_loop w dev disk a b h of (t, h) \<Rightarrow> (Inr t, h)))))"

definition mount_options :: "string \<Rightarrow> string" where
  "mount_options t = (if t = ''vfat'' then ''rw,noatime,sync,flush,utf8,dmask=0022,fmask=0133''
     else if t = ''ext3'' \<or> t = ''ext4'' then ''rw,noatime,sync,data=journal'' else ''rw,noatime,sync'')"

definition check_fs :: "world \<Rightarrow> string \<Rightarrow> string \<Rightarrow> history \<Rightarrow> history" where
  "check_fs w t target h = (if t = ''vfat'' then snd (exec w [''fsck.vfat'', ''-a'', ''-w'', target] h)
     else if startswith t ''ext'' then snd (exec w [''fsck'', ''-p'', target] h) else h)"

definition mount_dev :: "world \<Rightarrow> string \<Rightarrow> string \<Rightarrow> history \<Rightarrow> (exn + bool) \<times> history" where
  "mount_dev w dev mount_point h = (case fstype w dev h of (t, h) \<Rightarrow> (case usable_device w dev h of
     (Inl e, h) \<Rightarrow> (Inl e, h)
   | (Inr target, h) \<Rightarrow> (case exec w [''mount'', ''-t'', or_else t ''auto'', ''-o'', mount_options t, target, mount_point]
         (check_fs w t target h) of (res, h) \<Rightarrow> (Inr (returncode res = 0), h))))"

section \<open>Where a partition fits\<close>

definition byte :: "string \<Rightarrow> nat \<Rightarrow> int" where
  "byte s i = int (code_point (s ! i))"

definition le16 :: "string \<Rightarrow> nat \<Rightarrow> int" where
  "le16 s i = byte s i + 256 * byte s (i + 1)"

definition le32 :: "string \<Rightarrow> nat \<Rightarrow> int" where
  "le32 s i = le16 s i + 65536 * le16 s (i + 2)"

definition iso_size_bytes :: "world \<Rightarrow> string \<Rightarrow> history \<Rightarrow> int" where
  "iso_size_bytes w dev h = (case w_header w h dev of None \<Rightarrow> 0
   | Some pvd \<Rightarrow> if length pvd < 136 \<or> take 5 (drop 1 pvd) \<noteq> ''CD001'' then 0
       else le32 pvd 80 * (if le16 pvd 128 = 0 then 2048 else le16 pvd 128))"

text \<open>The numbers of sfdisk are JSON integers; anything else raises as the arithmetic would.\<close>

fun json_int :: "pyval \<Rightarrow> exn + int" where
  "json_int (PInt n) = Inr n"
| "json_int _ = Inl (TypeError ''unsupported operand type'')"

definition part_end :: "pyval \<Rightarrow> int list \<Rightarrow> exn + int list" where
  "part_end p ends = ebind (ebind (py_item p ''start'') json_int) (\<lambda>a. ebind (ebind (py_item p ''size'') json_int) (\<lambda>b. Inr (ends @ [a + b])))"

definition floordiv :: "int \<Rightarrow> int \<Rightarrow> exn + int" where
  "floordiv a b = (if b = 0 then Inl (ZeroDivisionError ''integer division or modulo by zero'') else Inr (a div b))"

definition place_partition :: "string \<Rightarrow> int \<Rightarrow> int list \<Rightarrow> int \<Rightarrow> int \<Rightarrow> exn + (int \<times> string) option" where
  "place_partition lab sector ends disk_bytes iso_bytes =
    ebind (floordiv (iso_bytes + sector - 1) sector) (\<lambda>iso_end.
    ebind (floordiv (1024 * 1024) sector) (\<lambda>align. (let end_sector = max (Max (set (ends @ [0]))) iso_end in
    ebind (floordiv (end_sector + align - 1) align) (\<lambda>q. (let start = q * align;
        last_usable = disk_bytes div sector - (if lab = ''gpt'' then 34 else 1)
      in Inr (if (last_usable - start) * sector < MIN_FREE_BYTES then None else Some (start, lab)))))))"

definition plan_table :: "pyval \<Rightarrow> exn + pyval" where
  "plan_table sfdisk = py_path (if truthy sfdisk then sfdisk else PDict []) [''partitiontable''] (PDict [])"

definition sector_size :: "pyval \<Rightarrow> exn + int" where
  "sector_size table = ebind (py_get table ''sectorsize'' (PInt 512)) json_int"

definition partitions :: "pyval \<Rightarrow> exn + pyval list" where
  "partitions table = ebind (py_get table ''partitions'' (PList [])) py_iter"

definition part_ends :: "pyval list \<Rightarrow> exn + int list" where
  "part_ends parts = efold part_end parts []"

definition plan_partition :: "pyval \<Rightarrow> int \<Rightarrow> int \<Rightarrow> exn + (int \<times> string) option" where
  "plan_partition sfdisk disk_bytes iso_bytes =
    ebind (plan_table sfdisk) (\<lambda>table.
    ebind (py_get table ''label'' (PStr ''dos'')) (\<lambda>labv.
    ebind (sector_size table) (\<lambda>sector.
    ebind (partitions table) (\<lambda>parts.
    if labv = PStr ''dos'' \<and> 4 \<le> length parts then Inr None
    else ebind (part_ends parts) (\<lambda>ends. place_partition (py_str labv) sector ends disk_bytes iso_bytes)))))"

section \<open>Creating the partition\<close>

definition list_nodes :: "string \<Rightarrow> string list" where
  "list_nodes dev = [''lsblk'', ''-lnpo'', ''NAME'', dev]"

definition make_node :: "world \<Rightarrow> string \<Rightarrow> history \<Rightarrow> (exn + unit) \<times> history" where
  "make_node w part h = (let devnum = strip (w_read w h (''/sys/class/block/'' @ basename part @ ''/dev'')) in
     if w_exists w h part \<or> devnum = [] then (Inr (), h)
     else (case split_on (CHR '':'') devnum of
       [a, b] \<Rightarrow> (case (int_of a, int_of b) of
          (Inr _, Inr _) \<Rightarrow> (Inr (), snd (exec w [''mknod'', part, a, b] h))
        | (Inl e, _) \<Rightarrow> (Inl e, h)
        | (_, Inl e) \<Rightarrow> (Inl e, h))
     | _ \<Rightarrow> (Inl (ValueError ''wrong number of values to unpack''), h)))"

definition mkfs :: "string \<Rightarrow> string list" where
  "mkfs target = [''mkfs.vfat'', ''-F'', ''32'', ''-n'', DATA_LABEL, target]"

definition format_partition :: "world \<Rightarrow> string \<Rightarrow> history \<Rightarrow> (exn + string) \<times> history" where
  "format_partition w part h = (case make_node w part h of
     (Inl e, h) \<Rightarrow> (Inl e, h)
   | (Inr _, h) \<Rightarrow> (case usable_device w part h of
       (Inl e, h) \<Rightarrow> (Inl e, h)
     | (Inr target, h) \<Rightarrow> (case exec w (mkfs target) h of (res, h) \<Rightarrow>
         (Inr (if returncode res \<noteq> 0 then [] else part),
          if target \<noteq> part then snd (exec w [''losetup'', ''-d'', target] h) else h))))"

definition append_partition :: "world \<Rightarrow> string \<Rightarrow> int \<times> string \<Rightarrow> history \<Rightarrow> (exn + string) \<times> history" where
  "append_partition w dev plan h =
    (let gpt = (snd plan = ''gpt'');
         h = (if gpt then snd (exec w [''sfdisk'', ''--force'', ''--relocate'', ''gpt-bak-std'', dev] h) else h);
         ptype = (if gpt then ''EBD0A0A2-B9E5-4433-87C0-68B6B72699C7'' else ''c'')
     in case exec_out w (list_nodes dev) h of (before, h) \<Rightarrow>
        (case exec_input w [''sfdisk'', ''--force'', ''--append'', ''--no-reread'', ''--no-tell-kernel'', dev]
            (''start='' @ int_str (fst plan) @ '', type='' @ ptype @ newline) h of (res, h) \<Rightarrow>
          if returncode res \<noteq> 0 then (Inr [], h)
          else (let h = snd (exec w [''partx'', ''-a'', dev] h); h = snd (exec w [''udevadm'', ''settle''] h) in
            case exec_out w (list_nodes dev) h of (after, h) \<Rightarrow>
              (let new = filter (\<lambda>p. p \<notin> set (split_ws before) \<and> p \<noteq> dev) (split_ws after) in
               if new = [] then (Inr [], h) else format_partition w (last new) h))))"

definition create_data_partition :: "world \<Rightarrow> string \<Rightarrow> history \<Rightarrow> (exn + string) \<times> history" where
  "create_data_partition w disk h =
    (let dev = ''/dev/'' @ disk in
     case exec w [''sfdisk'', ''--json'', dev] h of (dump, h) \<Rightarrow>
      if returncode dump \<noteq> 0 then (Inr [], h)
      else (case w_json w (stdout dump) of
        None \<Rightarrow> (Inr [], h)
      | Some table \<Rightarrow> (case exec_out w [''blockdev'', ''--getsize64'', dev] h of (t, h) \<Rightarrow>
          (case ebind (int_of (or_else (strip t) ''0'')) (\<lambda>n. plan_partition table n (iso_size_bytes w dev h)) of
            Inl e \<Rightarrow> (Inl e, h)
          | Inr None \<Rightarrow> (Inr [], h)
          | Inr (Some plan) \<Rightarrow> append_partition w dev plan h))))"

section \<open>Choosing the storage\<close>

definition try_mount :: "world \<Rightarrow> string \<Rightarrow> history \<Rightarrow> (exn + bool) \<times> history" where
  "try_mount w dev h = (case mount_dev w dev MOUNT_POINT h of
     (Inl e, h) \<Rightarrow> (Inl e, h) | (Inr b, h) \<Rightarrow> (Inr (b \<and> w_writable w h MOUNT_POINT), h))"

text \<open>The sort key of each device, computed in order.\<close>

fun device_ranks :: "world \<Rightarrow> string \<Rightarrow> string list \<Rightarrow> history \<Rightarrow> (nat \<times> string) list \<times> history" where
  "device_ranks w boot [] h = ([], h)"
| "device_ranks w boot (d # ds) h =
    (case (if boot = [] then ([], h) else parent_of w d h) of (p, h1) \<Rightarrow>
     (case device_ranks w boot ds h1 of (rs, h2) \<Rightarrow> ((if boot \<noteq> [] \<and> p = boot then 0 else 1, d) # rs, h2)))"

fun first_mountable :: "world \<Rightarrow> string list \<Rightarrow> history \<Rightarrow> (exn + string option) \<times> history" where
  "first_mountable w [] h = (Inr None, h)"
| "first_mountable w (d # ds) h = (case try_mount w d h of
     (Inl e, h) \<Rightarrow> (Inl e, h) | (Inr True, h) \<Rightarrow> (Inr (Some d), h) | (Inr False, h) \<Rightarrow> first_mountable w ds h)"

definition MEDIUM_FS :: "string list" where
  "MEDIUM_FS = [''vfat'', ''exfat'', ''ext4'', ''ext3'', ''ext2'', ''ntfs'', ''ntfs3'']"

definition medium_usable :: "world \<Rightarrow> string \<Rightarrow> history \<Rightarrow> bool \<times> history" where
  "medium_usable w medium h = (if medium = [] then (False, h) else (case fstype w medium h of (t, h) \<Rightarrow>
     if t \<notin> set MEDIUM_FS then (False, h)
     else (let h = snd (exec w [''mount'', ''-o'', ''remount,rw'', LIVE_MEDIUM] h) in (w_writable w h LIVE_MEDIUM, h))))"

definition found :: "string \<Rightarrow> string \<Rightarrow> string \<Rightarrow> string \<Rightarrow> storage_info" where
  "found boot path dev note = \<lparr>si_root = path, si_device = dev, si_persistent = True, si_note = note, si_boot_disk = boot\<rparr>"

definition ram_storage :: "string \<Rightarrow> storage_info" where
  "ram_storage boot = \<lparr>si_root = RAM_FALLBACK, si_device = [], si_persistent = False,
     si_note = ''RAM only - logs are lost on reboot and unexpected reboots cannot be detected'', si_boot_disk = boot\<rparr>"

definition created_storage :: "world \<Rightarrow> string \<Rightarrow> history \<Rightarrow> (exn + storage_info) \<times> history" where
  "created_storage w boot h = (if boot = [] then (Inr (ram_storage boot), h)
     else (case create_data_partition w boot h of
       (Inl e, h) \<Rightarrow> (Inl e, h)
     | (Inr part, h) \<Rightarrow> if part = [] then (Inr (ram_storage boot), h)
         else (case try_mount w part h of
           (Inl e, h) \<Rightarrow> (Inl e, h)
         | (Inr b, h) \<Rightarrow> (Inr (if b then found boot MOUNT_POINT part ''data partition (created automatically)''
             else ram_storage boot), h))))"

definition setup_storage :: "world \<Rightarrow> history \<Rightarrow> (exn + storage_info) \<times> history" where
  "setup_storage w h = (case find_boot_disk w h of ((boot, medium), h) \<Rightarrow>
     if w_mounted w h MOUNT_POINT \<and> w_writable w h MOUNT_POINT
     then (case findmnt_source w MOUNT_POINT h of (src, h) \<Rightarrow> (Inr (found boot MOUNT_POINT src []), h))
     else (case labelled_devices w h of (ds, h) \<Rightarrow> (case device_ranks w boot ds h of (ranked, h) \<Rightarrow>
       (case first_mountable w (map snd (sort_key fst ranked)) h of
         (Inl e, h) \<Rightarrow> (Inl e, h)
       | (Inr (Some d), h) \<Rightarrow> (Inr (found boot MOUNT_POINT d ''data partition''), h)
       | (Inr None, h) \<Rightarrow> (case medium_usable w medium h of
           (True, h) \<Rightarrow> (Inr (found boot LIVE_MEDIUM medium ''boot medium''), h)
         | (False, h) \<Rightarrow> created_storage w boot h)))))"

section \<open>The planned partition overlaps nothing\<close>

lemma round_up_ge: "0 < (m::int) \<Longrightarrow> k \<le> (k + m - 1) div m * m"
proof -
  assume m: "0 < m"
  have "k + m - 1 = (k + m - 1) div m * m + (k + m - 1) mod m" by simp
  moreover have "(k + m - 1) mod m < m" using m by simp
  ultimately show ?thesis by linarith
qed

lemma place_fits:
  assumes "place_partition lab s ends disk_bytes iso_bytes = Inr (Some (start, l))" "0 < s"
  shows "(\<forall>e \<in> set ends. e \<le> start) \<and> 0 \<le> start \<and> iso_bytes \<le> start * s \<and> (s dvd 2 ^ 20 \<longrightarrow> 2 ^ 20 dvd start * s) \<and>
    start * s + MIN_FREE_BYTES \<le> disk_bytes - (if lab = ''gpt'' then 34 else 1) * s \<and> l = lab"
proof -
  let ?align = "2 ^ 20 div s" and ?k = "(iso_bytes + s - 1) div s"
  let ?last = "max (Max (set (ends @ [0]))) ?k"
  from assms have al: "?align \<noteq> 0" and st: "start = (?last + ?align - 1) div ?align * ?align"
    and room: "MIN_FREE_BYTES \<le> (disk_bytes div s - (if lab = ''gpt'' then 34 else 1) - start) * s" and l: "l = lab"
    by (auto simp: place_partition_def floordiv_def Let_def split: if_splits)
  have pos: "0 < ?align" using al assms(2) by (simp add: pos_imp_zdiv_nonneg_iff order_less_le)
  have e: "?last \<le> start" unfolding st by (rule round_up_ge [OF pos])
  have m: "e \<le> start" if "e \<in> set (ends @ [0])" for e
    using Max_ge [OF finite_set that] e by linarith
  have "iso_bytes \<le> ?k * s" by (rule round_up_ge [OF assms(2)])
  also have "\<dots> \<le> start * s" using e assms(2) by (intro mult_right_mono) auto
  finally have iso: "iso_bytes \<le> start * s" .
  have dv: "2 ^ 20 dvd start * s" if "s dvd 2 ^ 20"
  proof -
    have "?align * s = 2 ^ 20" using that by (rule dvd_div_mult_self)
    then have "start * s = (?last + ?align - 1) div ?align * 2 ^ 20" unfolding st by (metis mult.assoc)
    then show ?thesis by simp
  qed
  let ?k = "if lab = ''gpt'' then 34 else 1 :: int"
  have "(disk_bytes div s - ?k - start) * s = disk_bytes div s * s - ?k * s - start * s" by (simp add: algebra_simps)
  also have "\<dots> \<le> disk_bytes - ?k * s - start * s" by (simp add: minus_mod_eq_div_mult [symmetric] assms(2))
  finally show ?thesis using room m iso dv l by auto
qed

text \<open>The entry of a partition in the dump of sfdisk: its first sector and its number of sectors.\<close>

definition occupies :: "pyval \<Rightarrow> int \<Rightarrow> int \<Rightarrow> bool" where
  "occupies p first_sector sectors \<longleftrightarrow> (case p of
     PDict d \<Rightarrow> map_of d ''start'' = Some (PInt first_sector) \<and> map_of d ''size'' = Some (PInt sectors) | _ \<Rightarrow> False)"

lemma json_int_Inr: "json_int v = Inr n \<longleftrightarrow> v = PInt n"
  by (cases v) auto

lemma part_end_occupies: "part_end p ends = Inr ends' \<Longrightarrow> \<exists>a b. occupies p a b \<and> ends' = ends @ [a + b]"
  by (cases p) (auto simp: part_end_def occupies_def json_int_Inr split: option.splits)

lemma part_ends_occupy: "efold part_end parts es = Inr ends \<Longrightarrow> set es \<subseteq> set ends \<and> (\<forall>p \<in> set parts. \<exists>a b. occupies p a b \<and> a + b \<in> set ends)"
proof (induction parts arbitrary: es)
  case (Cons p parts)
  then obtain a b where p: "occupies p a b" "efold part_end parts (es @ [a + b]) = Inr ends"
    by (auto dest!: part_end_occupies)
  from Cons.IH [OF p(2)] p(1) show ?case by auto
qed simp

text \<open>C36: the partition that is planned for the logs lies in free space: it starts at or after the last
  sector of every partition in the table and after the ISO image, on a 1 MiB boundary, and leaves at
  least 256 MiB before the end of the disk, from which a GPT keeps 34 sectors for its backup and a DOS
  label one; a DOS label never gets a fifth partition.\<close>

theorem plan_partition_is_free:
  assumes "plan_partition (PDict dump) disk_bytes iso_bytes = Inr (Some (start, lab))"
    and "map_of dump ''partitiontable'' = Some (PDict t)"
    and "case map_of t ''partitions'' of None \<Rightarrow> parts = [] | Some v \<Rightarrow> v = PList parts"
    and "case map_of t ''sectorsize'' of None \<Rightarrow> s = 512 | Some v \<Rightarrow> v = PInt s" "0 < s"
  shows "(\<forall>p \<in> set parts. \<exists>a b. occupies p a b \<and> a + b \<le> start) \<and> 0 \<le> start \<and> iso_bytes \<le> start * s \<and>
    (s dvd 2 ^ 20 \<longrightarrow> 2 ^ 20 dvd start * s) \<and>
    start * s + 256 * 2 ^ 20 \<le> disk_bytes - (if lab = ''gpt'' then 34 else 1) * s \<and>
    (case map_of t ''label'' of None \<Rightarrow> lab = ''dos'' | Some v \<Rightarrow> lab = py_str v) \<and>
    (case map_of t ''label'' of None \<Rightarrow> length parts < 4 | Some v \<Rightarrow> v = PStr ''dos'' \<longrightarrow> length parts < 4)"
proof -
  let ?labv = "dict_get t ''label'' (PStr ''dos'')"
  have t: "plan_table (PDict dump) = Inr (PDict t)" "sector_size (PDict t) = Inr s" "partitions (PDict t) = Inr parts"
    using assms(2-4) by (auto simp: plan_table_def sector_size_def partitions_def dict_get_def py_or_def split: option.splits)
  obtain ends where p: "part_ends parts = Inr ends" "\<not> (?labv = PStr ''dos'' \<and> 4 \<le> length parts)"
    "place_partition (py_str ?labv) s ends disk_bytes iso_bytes = Inr (Some (start, lab))"
    using assms(1) t by (auto simp: plan_partition_def split: if_splits)
  have "\<forall>p \<in> set parts. \<exists>a b. occupies p a b \<and> a + b \<le> start"
    using part_ends_occupy [OF p(1) [unfolded part_ends_def]] place_fits [OF p(3) assms(5)] by blast
  then show ?thesis using place_fits [OF p(3) assms(5)] p(2)
    by (auto simp: dict_get_def MIN_FREE_BYTES_def split: option.splits)
qed

text \<open>A 16 GB stick with the partition of an ISO image.\<close>

definition stick :: pyval where
  "stick = PDict [(''partitiontable'', PDict [(''label'', PStr ''dos''), (''sectorsize'', PInt 512),
     (''partitions'', PList [PDict [(''start'', PInt 64), (''size'', PInt 1433600)]])])]"

lemma stick_plan: "plan_partition stick 16000000000 734036480 = Inr (Some (1435648, ''dos''))"
  by code_simp

theorem plan_partition_is_free_witness:
  "plan_partition stick 16000000000 734036480 = Inr (Some (1435648, ''dos'')) \<and> 64 + 1433600 \<le> (1435648 :: int) \<and>
   734036480 \<le> 1435648 * (512 :: int) \<and> 2 ^ 20 dvd 1435648 * (512 :: int)"
proof -
  have "plan_partition (PDict [(''partitiontable'', PDict [(''label'', PStr ''dos''), (''sectorsize'', PInt 512),
     (''partitions'', PList [PDict [(''start'', PInt 64), (''size'', PInt 1433600)]])])]) 16000000000 734036480
     = Inr (Some (1435648, ''dos''))" using stick_plan by (simp add: stick_def)
  from plan_partition_is_free [OF this, of _ "[PDict [(''start'', PInt 64), (''size'', PInt 1433600)]]" 512] stick_plan
  show ?thesis by (auto simp: occupies_def)
qed

section \<open>Only a new partition is formatted\<close>

text \<open>\<open>adds P h h'\<close>: the history \<open>h'\<close> extends \<open>h\<close> by commands that satisfy \<open>P\<close>.\<close>

definition adds :: "(string list \<Rightarrow> bool) \<Rightarrow> history \<Rightarrow> history \<Rightarrow> bool" where
  "adds P h h' \<longleftrightarrow> (\<exists>new. h' = h @ new \<and> (\<forall>c \<in> set new. P (fst c)))"

definition harmless :: "string list \<Rightarrow> bool" where
  "harmless cmd \<longleftrightarrow> cmd = [] \<or> hd cmd \<noteq> ''mkfs.vfat''"

lemma adds_refl [simp]: "adds P h h"
  by (simp add: adds_def)
















definition listing :: "string \<Rightarrow> command" where
  "listing dev = ([''lsblk'', ''-lnpo'', ''NAME'', dev], [])"

definition extension :: "string \<Rightarrow> string \<Rightarrow> command" where
  "extension dev line = ([''sfdisk'', ''--force'', ''--append'', ''--no-reread'', ''--no-tell-kernel'', dev], line)"

definition announcement :: "string \<Rightarrow> history" where
  "announcement dev = [([''partx'', ''-a'', dev], []), ([''udevadm'', ''settle''], [])]"


lemma harmless_steps [simp]: "harmless (fst (listing dev))" "harmless (fst (extension dev line))" "\<forall>c \<in> set (announcement dev). harmless (fst c)"
  by (auto simp: harmless_def listing_def extension_def announcement_def)




section \<open>Persistent storage was written to\<close>

text \<open>The storage is either RAM, or a root that was writable when it was chosen.\<close>

definition storage_ok :: "world \<Rightarrow> storage_info \<Rightarrow> bool" where
  "storage_ok w info \<longleftrightarrow> (if si_persistent info then si_root info \<in> {MOUNT_POINT, LIVE_MEDIUM} \<and> (\<exists>h. w_writable w h (si_root info))
     else si_root info = RAM_FALLBACK)"

lemma ok_found: "w_writable w h path \<Longrightarrow> path \<in> {MOUNT_POINT, LIVE_MEDIUM} \<Longrightarrow> storage_ok w (found boot path dev note)"
  by (auto simp: storage_ok_def found_def)

lemma ok_ram [simp]: "storage_ok w (ram_storage boot)"
  by (simp add: storage_ok_def ram_storage_def)

lemma try_mount_writable: "try_mount w d h = (Inr True, h') \<Longrightarrow> w_writable w h' MOUNT_POINT"
  by (auto simp: try_mount_def split: prod.splits sum.splits)

lemma first_mountable_writable: "first_mountable w ds h = (Inr (Some d), h') \<Longrightarrow> \<exists>h1. w_writable w h1 MOUNT_POINT"
  by (induction ds arbitrary: h) (auto split: prod.splits sum.splits bool.splits dest: try_mount_writable)

lemma medium_writable: "medium_usable w m h = (True, h') \<Longrightarrow> w_writable w h' LIVE_MEDIUM"
  by (auto simp: medium_usable_def Let_def split: if_splits prod.splits)

lemma created_ok: "created_storage w boot h = (Inr info, h') \<Longrightarrow> storage_ok w info"
  by (auto simp: created_storage_def split: if_splits prod.splits sum.splits intro: ok_found [OF try_mount_writable])

text \<open>The storage that is set up is honest about its persistence: it claims to be persistent only on a
  mount point where a probe file was written and synced, and otherwise it is the RAM directory.\<close>

theorem persistent_storage_writable:
  assumes "setup_storage w h = (Inr info, h')"
  shows "storage_ok w info"
proof -
  obtain boot medium h1 where b: "find_boot_disk w h = ((boot, medium), h1)" by (metis prod.collapse)
  show ?thesis
  proof (cases "w_mounted w h1 MOUNT_POINT \<and> w_writable w h1 MOUNT_POINT")
    case True
    then show ?thesis using assms b by (auto simp: setup_storage_def split: prod.splits intro: ok_found)
  next
    case False
    obtain ds h2 where d: "labelled_devices w h1 = (ds, h2)" by force
    obtain rs h3 where r: "device_ranks w boot ds h2 = (rs, h3)" by force
    obtain m h4 where m: "first_mountable w (map snd (sort_key fst rs)) h3 = (m, h4)" by force
    obtain u h5 where u: "medium_usable w medium h4 = (u, h5)" by force
    have e: "setup_storage w h = (case m of Inl e \<Rightarrow> (Inl e, h4) | Inr (Some d) \<Rightarrow> (Inr (found boot MOUNT_POINT d ''data partition''), h4)
        | Inr None \<Rightarrow> if u then (Inr (found boot LIVE_MEDIUM medium ''boot medium''), h5) else created_storage w boot h5)"
      using b d r m u False by (auto simp: setup_storage_def split: sum.split option.split)
    have "storage_ok w (found boot MOUNT_POINT d n)" if "m = Inr (Some d)" for d n
      using first_mountable_writable m that ok_found by blast
    moreover have "storage_ok w (found boot LIVE_MEDIUM medium n)" if "u" for n
      using medium_writable [of w medium h4 h5] u that ok_found by simp
    ultimately show ?thesis using assms e created_ok by (auto split: sum.splits option.splits if_splits)
  qed
qed

section \<open>A stick without a data partition\<close>

definition stick_answer :: "history \<Rightarrow> string" where
  "stick_answer h = (case fst (last h) of
     [] \<Rightarrow> []
   | cmd # args \<Rightarrow> if cmd = ''sfdisk'' then ''table'' else if cmd = ''blockdev'' then ''16000000000''
       else if cmd = ''lsblk'' then (if length h \<le> 3 then ''/dev/sdb'' else ''/dev/sdb /dev/sdb2'') else [])"

definition stick_world :: world where
  "stick_world = \<lparr>w_run = (\<lambda>h. \<lparr>returncode = 0, stdout = stick_answer h, stderr = []\<rparr>), w_read = (\<lambda>_ _. []),
     w_exists = (\<lambda>_ _. True), w_open = (\<lambda>_ _. Opened), w_writable = (\<lambda>_ _. True), w_mounted = (\<lambda>_ _. True),
     w_header = (\<lambda>_ _. None), w_json = (\<lambda>s. if s = ''table'' then Some stick else None)\<rparr>"



text \<open>When the first listing fails, a partition that was there before passes for the new one.\<close>

definition blind_world :: world where
  "blind_world = stick_world\<lparr>w_run := \<lambda>h. \<lparr>returncode = (if length h = 3 then 1 else 0),
     stdout = (if fst (last h) = list_nodes ''/dev/sdb'' then ''/dev/sdb /dev/sdb1'' else stick_answer h), stderr = []\<rparr>\<rparr>"

lemma unreadable_listing_formats_old:
  "(mkfs ''/dev/sdb1'', []) \<in> set (snd (create_data_partition blind_world ''sdb'' []))"
  by code_simp

theorem persistent_storage_writable_witness:
  "\<exists>info h. setup_storage stick_world [] = (Inr info, h) \<and> storage_ok stick_world info"
proof -
  have "\<exists>info h. setup_storage stick_world [] = (Inr info, h)"
    by (auto simp: setup_storage_def stick_world_def split: prod.split)
  then show ?thesis using persistent_storage_writable by blast
qed

end
