(* ===== verification/Console.thy ===== *)
theory Console
  imports Orchestrator
begin

text \<open>
  What the operator sees and does: the keys of the console (\<open>KeyReader\<close> of \<open>dashboard.py\<close>), the status file
  and the abort file of the orchestrator, and the commands of \<open>__main__.py\<close> that read and write them.  A
  reading of the keyboard is the text that \<open>os.read\<close> gave with the monotonic clock after it.
\<close>

section \<open>The keys\<close>

record console =
  cs_ctx :: ctx
  cs_confirm_until :: rat
  cs_scroll :: int
  cs_pending :: "bool option"       \<comment> \<open>\<open>pending_confirmation\<close>, with its flag\<close>

datatype action = Power_off | Reboot | Redraw

definition ESC_DOWN :: string where
  "ESC_DOWN = [CHR 0x1B, CHR ''['', CHR ''B'']"

definition ESC_UP :: string where
  "ESC_UP = [CHR 0x1B, CHR ''['', CHR ''A'']"

definition final_key :: "string \<Rightarrow> console \<Rightarrow> action list \<times> console" where
  "final_key ch s =
    (if ch \<in> {''p'', ''P''} then ([Power_off, Redraw], s)
     else if ch \<in> {''b'', ''B''} then ([Reboot, Redraw], s)
     else if ch \<in> {''j'', ESC_DOWN, '' ''} then ([Redraw], s\<lparr>cs_scroll := cs_scroll s + 5\<rparr>)
     else if ch \<in> {''k'', ESC_UP} then ([Redraw], s\<lparr>cs_scroll := max 0 (cs_scroll s - 5)\<rparr>)
     else ([Redraw], s))"

definition run_key :: "string \<Rightarrow> rat \<Rightarrow> console \<Rightarrow> action list \<times> console" where
  "run_key ch now s =
    (if ch \<in> {''q'', ''Q''} then
       (if now < cs_confirm_until s then ([], s\<lparr>cs_ctx := request_abort ''operator pressed q'' (cs_ctx s)\<rparr>)
        else ([Redraw], s\<lparr>cs_confirm_until := fl (now + 10),
               cs_ctx := set_note ''Press q again within 10 seconds to ABORT the test'' (cs_ctx s)\<rparr>))
     else if cs_pending s \<noteq> None \<and> ch \<in> {''n'', ''N'', ''a'', ''A''} then ([], s\<lparr>cs_pending := Some True\<rparr>)
     else ([], s))"

definition key_step :: "string \<times> rat \<Rightarrow> console \<Rightarrow> action list \<times> console" where
  "key_step k s = (if c_final_verdict (cs_ctx s) \<noteq> None then final_key (fst k) s else run_key (fst k) (snd k) s)"

fun keys_run :: "(string \<times> rat) list \<Rightarrow> console \<Rightarrow> action list \<times> console" where
  "keys_run [] s = ([], s)"
| "keys_run (k # ks) s = (let (a, s1) = key_step k s; (b, s2) = keys_run ks s1 in (a @ b, s2))"

definition abort_key :: "string \<Rightarrow> bool" where
  "abort_key ch \<longleftrightarrow> ch \<in> {''q'', ''Q''}"

text \<open>Two abort keys, the second before the time that the first has set.\<close>

definition confirmed_abort :: "(string \<times> rat) list \<Rightarrow> bool" where
  "confirmed_abort keys \<longleftrightarrow> (\<exists>ks1 q1 t1 ks2 q2 t2 ks3. keys = ks1 @ (q1, t1) # ks2 @ (q2, t2) # ks3 \<and>
     abort_key q1 \<and> abort_key q2 \<and> t2 < fl (t1 + 10))"

lemma confirmed_Cons: "confirmed_abort ks \<Longrightarrow> confirmed_abort (k # ks)"
  unfolding confirmed_abort_def by (metis append_Cons)

lemma step_abort:
  assumes "\<not> c_abort (cs_ctx s)" "c_abort (cs_ctx (snd (key_step (ch, now) s)))"
  shows "abort_key ch \<and> now < cs_confirm_until s"
  using assms by (auto simp: key_step_def final_key_def run_key_def abort_key_def set_note_def split: if_splits)

lemma step_confirm: "cs_confirm_until (snd (key_step (ch, now) s)) = cs_confirm_until s \<or>
    abort_key ch \<and> cs_confirm_until (snd (key_step (ch, now) s)) = fl (now + 10)"
  by (auto simp: key_step_def final_key_def run_key_def abort_key_def)

lemma keys_abort:
  "\<not> c_abort (cs_ctx s) \<Longrightarrow> c_abort (cs_ctx (snd (keys_run ks s))) \<Longrightarrow>
   confirmed_abort ks \<or> (\<exists>ks2 q2 t2 ks3. ks = ks2 @ (q2, t2) # ks3 \<and> abort_key q2 \<and> t2 < cs_confirm_until s)"
proof (induction ks arbitrary: s)
  case (Cons k ks)
  obtain ch now where k: "k = (ch, now)" by (cases k)
  let ?s = "snd (key_step k s)"
  have r: "snd (keys_run (k # ks) s) = snd (keys_run ks ?s)" by (simp add: case_prod_beta Let_def)
  show ?case
  proof (cases "c_abort (cs_ctx ?s)")
    case True
    then show ?thesis using step_abort [of s ch now] Cons.prems(1) k by blast
  next
    case False
    from Cons.IH [OF this] Cons.prems(2) r
    have "confirmed_abort ks \<or> (\<exists>ks2 q2 t2 ks3. ks = ks2 @ (q2, t2) # ks3 \<and> abort_key q2 \<and> t2 < cs_confirm_until ?s)" by simp
    then show ?thesis
    proof
      assume "\<exists>ks2 q2 t2 ks3. ks = ks2 @ (q2, t2) # ks3 \<and> abort_key q2 \<and> t2 < cs_confirm_until ?s"
      then obtain ks2 q2 t2 ks3 where later: "ks = ks2 @ (q2, t2) # ks3" "abort_key q2" "t2 < cs_confirm_until ?s" by blast
      from step_confirm [of ch now s] show ?thesis
      proof
        assume "cs_confirm_until (snd (key_step (ch, now) s)) = cs_confirm_until s"
        then show ?thesis using later k by (metis append_Cons)
      next
        assume "abort_key ch \<and> cs_confirm_until (snd (key_step (ch, now) s)) = fl (now + 10)"
        then have "confirmed_abort (k # ks)" unfolding confirmed_abort_def using later k by (metis append_Nil)
        then show ?thesis by blast
      qed
    qed (blast intro: confirmed_Cons)
  qed
qed simp

text \<open>C24: the console aborts a test only on two presses of q, the second within ten seconds of the first: one
  stray key, or keys further apart, never abort it, and no key powers the machine off or reboots it
  before the verdict is there.\<close>

theorem abort_needs_two_keys:
  assumes "\<not> c_abort (cs_ctx s)" "cs_confirm_until s = 0" "\<forall>k \<in> set keys. 0 \<le> snd k" "c_final_verdict (cs_ctx s) = None"
  shows "(c_abort (cs_ctx (snd (keys_run keys s))) \<longrightarrow> confirmed_abort keys) \<and> set (fst (keys_run keys s)) \<subseteq> {Redraw}"
proof
  show "c_abort (cs_ctx (snd (keys_run keys s))) \<longrightarrow> confirmed_abort keys"
    using keys_abort [OF assms(1), of keys] assms(2,3) by fastforce
  have "set (fst (keys_run keys s)) \<subseteq> {Redraw}" if "c_final_verdict (cs_ctx s) = None" for s
    using that
  proof (induction keys arbitrary: s)
    case (Cons k ks)
    have "c_final_verdict (cs_ctx (snd (key_step k s))) = None" "set (fst (key_step k s)) \<subseteq> {Redraw}"
      using Cons.prems by (auto simp: key_step_def run_key_def request_abort_def set_note_def)
    with Cons.IH show ?case by (auto simp: case_prod_beta Let_def)
  qed simp
  then show "set (fst (keys_run keys s)) \<subseteq> {Redraw}" using assms(4) .
qed

definition fresh_console :: console where
  "fresh_console = \<lparr>cs_ctx = fresh_ctx, cs_confirm_until = 0, cs_scroll = 0, cs_pending = None\<rparr>"

lemma abort_needs_two_keys_witness: "\<not> c_abort (cs_ctx (snd (keys_run [(''q'', 5), (''x'', 6)] fresh_console)))"
proof -
  have "\<not> confirmed_abort [(''q'', 5), (''x'', 6)]"
    by (auto simp: confirmed_abort_def abort_key_def Cons_eq_append_conv)
  moreover have "\<not> c_abort (cs_ctx fresh_console)" "cs_confirm_until fresh_console = 0" "c_final_verdict (cs_ctx fresh_console) = None"
    by (simp_all add: fresh_console_def fresh_ctx_def blank_ctx_def)
  ultimately show ?thesis
    using conjunct1 [OF abort_needs_two_keys [of fresh_console "[(''q'', 5), (''x'', 6)]"]] by fastforce
qed

section \<open>The status file\<close>

definition session_status_str :: "session_status \<Rightarrow> string" where
  "session_status_str r = (case r of S_running \<Rightarrow> ''running'' | S_complete \<Rightarrow> ''complete'' | S_aborted \<Rightarrow> ''aborted'')"

definition DESCRIPTIONS :: "(string, string) dict" where
  "DESCRIPTIONS = [(''inventory'', ''Lists hardware; checks DIMMs, CPUs, PCIe links, SMART, BMC log; starts disk scans''),
     (''cpu'', ''All cores run math/vector/crypto/cache workloads with verification where supported''),
     (''memory'', ''Fills RAM with verified data patterns: finds bad DIMMs / memory controller''),
     (''mprime'', ''Prime95 AVX torture test: detects miscalculation by unstable CPU/RAM/VRM''),
     (''ycruncher'', ''Six verified transform algorithms stress CPU arithmetic, caches and the memory path''),
     (''transient'', ''Switches full load on/off rapidly: stresses power supply and VRMs''),
     (''idle'', ''Machine idle: deep sleep states are a common cause of random reboots''),
     (''combined'', ''CPU + RAM + disks at full load together: maximum power draw and heat''),
     (''powercycle'', ''Reboots the machine repeatedly and checks all hardware comes back''),
     (''final'', ''Waits for disk scans/self-tests, compares before/after, writes the report'')]"

definition opt_str :: "string option \<Rightarrow> pyval" where
  "opt_str s = (case s of None \<Rightarrow> PNone | Some t \<Rightarrow> PStr t)"

text \<open>\<open>round(x, 3)\<close> of a finite float.\<close>

definition round_thousandth :: "rat \<Rightarrow> rat" where
  "round_thousandth x = fl (of_int (round_half_even (x * 1000)) / 1000)"

definition finding_line :: "finding \<Rightarrow> string" where
  "finding_line f = severity_str (f_severity f) @ '' '' @ f_component f @ '': '' @ f_title f @
     (if f_count f > 1 then '' (x'' @ int_str (f_count f) @ '')'' else [])"

definition top_findings :: "findings \<Rightarrow> string list" where
  "top_findings F = take 10 (map finding_line (filter (\<lambda>f. f_severity f \<noteq> INFO) (findings_all F)))"

definition identity_value :: "state \<Rightarrow> pyval" where
  "identity_value st = PDict (map (\<lambda>k. (k, opt_str (map_of (st_identity st) k)))
     [''system_manufacturer'', ''system_product'', ''display_serial''])"

definition step_value :: "(rat \<times> rat option) option \<Rightarrow> pyval" where
  "step_value running = (case running of None \<Rightarrow> PNone | Some (_, p) \<Rightarrow>
     (case p of None \<Rightarrow> PInt 0 | Some x \<Rightarrow> if x = 0 then PInt 0 else PFloat (Fin (round_thousandth x))))"

text \<open>
  The value that \<open>write_status\<close> saves; \<open>running\<close> is the phase object, if there is one, as its remaining time and its
  progress.
\<close>

definition status_value :: "string \<Rightarrow> (rat \<times> rat option) option \<Rightarrow> ctx \<Rightarrow> pyval" where
  "status_value now running c = (let st = the_state c; F = c_findings c in PDict
     [(''time'', PStr now), (''session_dir'', PStr (s_dir (c_session c))), (''status'', PStr (session_status_str (st_run_status st))),
      (''profile'', PStr (st_profile st)), (''phase'', PStr (fs_current_phase F)), (''note'', PStr (c_status_note c)),
      (''remaining_seconds'', PInt (trunc (remaining_estimate (map_option fst running) c))),
      (''unexpected_reboots'', PInt (st_unexpected_reboots st)),
      (''findings'', PDict (map (\<lambda>s. (severity_str s, PInt (int (findings_counts F s)))) [FAIL, WARN, INFO])),
      (''verdict'', opt_str (map_option verdict_str (c_final_verdict c))),
      (''telemetry'', case c_telemetry c of None \<Rightarrow> PDict [] | Some t \<Rightarrow> telemetry_value t),
      (''phases'', PDict (map (\<lambda>(k, v). (k, PStr (phase_status_str (ps_status v)))) (st_phases st))),
      (''plan'', PList (map (\<lambda>p. PStr (pl_name p)) (st_plan st))),
      (''step_progress'', step_value running),
      (''top_findings'', PList (map PStr (top_findings F))),
      (''identity'', identity_value st)])"

text \<open>A turn of \<open>status_loop\<close>: the request of \<open>pccheck abort\<close>, then the status that is written.  The result tells
  whether the abort file is gone.\<close>

definition status_turn :: "string \<Rightarrow> (rat \<times> rat option) option \<Rightarrow> bool \<times> ctx \<Rightarrow> pyval \<times> bool \<times> ctx" where
  "status_turn now running = (\<lambda>(abort_file, c). let c1 = (if abort_file then request_abort ''pccheck abort command'' c else c)
     in (status_value now running c1, False, c1))"

section \<open>The status command\<close>

text \<open>An f-string: its pieces are evaluated from left to right.\<close>

fun fcat :: "(exn + string) list \<Rightarrow> exn + string" where
  "fcat [] = Inr []"
| "fcat (x # xs) = ebind x (\<lambda>a. ebind (fcat xs) (\<lambda>b. Inr (a @ b)))"

definition fstr :: "exn + pyval \<Rightarrow> exn + string" where
  "fstr v = ebind v (\<lambda>x. Inr (py_str x))"

text \<open>\<open>{x.get(k)}\<close>, \<open>{x.get(k, d)}\<close> and \<open>{x.get(k) or ''}\<close>.\<close>

definition fget :: "pyval \<Rightarrow> string \<Rightarrow> exn + string" where
  "fget x k = fstr (py_get x k PNone)"

definition fget_or :: "pyval \<Rightarrow> string \<Rightarrow> exn + string" where
  "fget_or x k = fstr (py_or (py_get x k PNone) (Inr (PStr [])))"

definition or_empty :: "pyval \<Rightarrow> string \<Rightarrow> pyval \<Rightarrow> exn + pyval" where
  "or_empty x k e = py_or (py_get x k PNone) (Inr e)"

text \<open>\<open>fmt_duration\<close> of a value: \<open>None\<close> counts as zero, anything but a number raises.\<close>

fun duration_of :: "pyval \<Rightarrow> exn + string" where
  "duration_of PNone = Inr (fmt_duration 0)"
| "duration_of (PInt i) = Inr (fmt_duration (of_int i))"
| "duration_of (PBool b) = Inr (fmt_duration (if b then 1 else 0))"
| "duration_of (PFloat (Fin x)) = Inr (fmt_duration x)"
| "duration_of (PFloat NegInf) = Inr (fmt_duration 0)"
| "duration_of (PFloat NaN) = Inr (fmt_duration 0)"
| "duration_of (PFloat PosInf) = Inl (OverflowError ''cannot convert float infinity to integer'')"
| "duration_of v = (if truthy v then Inl (TypeError ''not supported between instances'') else Inr (fmt_duration 0))"

text \<open>\<open>{x:^11}\<close>: only a string accepts the width here; \<open>None\<close> and containers raise, numbers are not written.\<close>

definition center :: "nat \<Rightarrow> string \<Rightarrow> string" where
  "center n s = (let pad = n - length s; l = pad div 2 in replicate l (CHR '' '') @ s @ replicate (pad - l) (CHR '' ''))"

fun fcenter :: "pyval \<Rightarrow> exn + string" where
  "fcenter (PStr s) = Inr (center 11 s)"
| "fcenter (PInt i) = Inr (center 11 (int_str i))"
| "fcenter (PFloat x) = Inr (center 11 (float_repr x))"
| "fcenter (PBool b) = Inr (center 11 (if b then ''1'' else ''0''))"
| "fcenter _ = Inl (TypeError ''unsupported format string'')"

definition PRODUCT :: string where
  "PRODUCT = BRAND @ '' PC-Check''"

text \<open>\<open>TITLES.get(x, x)\<close> and \<open>DESCRIPTIONS.get(x, '')\<close>; an unhashable key raises.\<close>

definition lookup_text :: "(string, string) dict \<Rightarrow> string \<Rightarrow> pyval \<Rightarrow> exn + string" where
  "lookup_text d dflt x = ebind (py_key x) (\<lambda>k. Inr (case k of PStr t \<Rightarrow> dict_get d t dflt | _ \<Rightarrow> dflt))"

text \<open>\<open>plan.index(x) + 1\<close>, or a question mark.\<close>

fun index_text :: "int \<Rightarrow> pyval \<Rightarrow> pyval list \<Rightarrow> string" where
  "index_text i x [] = ''?''"
| "index_text i x (p # ps) = (if py_equal p x then int_str i else index_text (i + 1) x ps)"

text \<open>\<open>f" {prog * 100:.0f}%" if prog else ""\<close>.\<close>

fun percent_text :: "pyval \<Rightarrow> exn + string" where
  "percent_text (PFloat (Fin x)) = Inr (if x = 0 then [] else ''  '' @ fixed 0 (fl (x * 100)) @ ''%'')"
| "percent_text (PInt i) = Inr (if i = 0 then [] else ''  '' @ fixed 0 (of_int (i * 100)) @ ''%'')"
| "percent_text (PBool b) = Inr (if b then ''  100%'' else [])"
| "percent_text (PFloat x) = Inr (''  '' @ pf_fixed 0 x @ ''%'')"
| "percent_text v = (if truthy v then Inl (ValueError ''Unknown format code'') else Inr [])"

definition header_lines :: "pyval \<Rightarrow> pyval \<Rightarrow> exn + string list" where
  "header_lines st ident =
     ebind (fcat [Inr (PRODUCT @ '' '' @ version @ ''  |  ''), fget_or ident ''system_manufacturer'', Inr '' '',
       fget_or ident ''system_product'', Inr ''  SN '', fget_or ident ''display_serial'']) (\<lambda>l1.
     ebind (fcat [Inr ''Session : '', fget st ''session_dir'']) (\<lambda>l2.
     ebind (fcat [Inr ''Profile : '', fget st ''profile'', Inr ''   status: '', fget st ''status'', Inr ''   left ~'',
       ebind (py_get st ''remaining_seconds'' PNone) duration_of, Inr ''   unexpected reboots: '', fget st ''unexpected_reboots'']) (\<lambda>l3.
     Inr [l1, l2, l3])))"

definition step_lines :: "pyval \<Rightarrow> pyval list \<Rightarrow> pyval \<Rightarrow> exn + string list" where
  "step_lines st plan current =
     ebind (fcat [Inr (''Step    : '' @ index_text 1 current plan @ ''/'' @ nat_str (length plan) @ '' ''),
       lookup_text TITLES (py_str current) current, ebind (py_get st ''step_progress'' PNone) percent_text]) (\<lambda>l1.
     ebind (fcat [Inr ''          '', lookup_text DESCRIPTIONS [] current]) (\<lambda>l2.
     ebind (py_get st ''note'' PNone) (\<lambda>n.
     Inr ([l1, l2] @ (if truthy n then [''Now     : '' @ py_str n] else [])))))"

fun plan_lines :: "int \<Rightarrow> bool \<Rightarrow> pyval \<Rightarrow> pyval \<Rightarrow> pyval list \<Rightarrow> exn + string list" where
  "plan_lines i over phases current [] = Inr []"
| "plan_lines i over phases current (name # ps) =
     ebind (if py_equal name (PStr ''final'') \<and> over then Inr (PStr ''done'')
            else ebind (py_key name) (\<lambda>k. (case (phases, k) of
                (PDict d, PStr t) \<Rightarrow> Inr (dict_get d t (PStr (if py_equal name current then ''running'' else ''pending'')))
              | (PDict d, _) \<Rightarrow> Inr (PStr (if py_equal name current then ''running'' else ''pending''))
              | _ \<Rightarrow> Inl (AttributeError ''object has no attribute 'get' '')))) (\<lambda>status.
     ebind (fcat [Inr (''  '' @ int_str i @ ''. [''), fcenter status, Inr ''] '', lookup_text TITLES (py_str name) name]) (\<lambda>l.
     ebind (plan_lines (i + 1) over phases current ps) (\<lambda>ls. Inr (l # ls))))"

definition temps_line :: "pyval \<Rightarrow> exn + string" where
  "temps_line t = fcat [Inr ''Temps   : CPU '', fget t ''cpu_temp'', Inr ''C  drives '', fget t ''drive_temp'', Inr ''C  board '',
     fget t ''board_temp'', Inr ''C   load '', fget t ''load1'', Inr ''   free RAM '', fget t ''mem_available_mib'', Inr '' MiB'']"

definition counts_line :: "pyval \<Rightarrow> exn + string" where
  "counts_line f = fcat [Inr ''Findings: '', fstr (py_get f ''FAIL'' (PInt 0)), Inr '' FAIL  '', fstr (py_get f ''WARN'' (PInt 0)),
     Inr '' WARN  '', fstr (py_get f ''INFO'' (PInt 0)), Inr '' info'']"

text \<open>\<open>(st.get("plan") or []) + ["final"]\<close>: only a list can be extended by one.\<close>

fun plan_names :: "pyval \<Rightarrow> exn + pyval list" where
  "plan_names (PList ps) = Inr (ps @ [PStr ''final''])"
| "plan_names _ = Inl (TypeError ''can only concatenate list'')"

definition status_lines :: "pyval \<Rightarrow> exn + string list" where
  "status_lines st =
     ebind (or_empty st ''identity'' (PDict [])) (\<lambda>ident.
     ebind (header_lines st ident) (\<lambda>top.
     ebind (py_get st ''verdict'' PNone) (\<lambda>v. let over = truthy v in
     ebind (ebind (or_empty st ''plan'' (PList [])) plan_names) (\<lambda>plan.
     ebind (or_empty st ''phases'' (PDict [])) (\<lambda>phases.
     ebind (py_get st ''phase'' PNone) (\<lambda>current.
     ebind (if truthy current \<and> \<not> over then step_lines st plan current else Inr []) (\<lambda>now.
     ebind (plan_lines 1 over phases current plan) (\<lambda>steps.
     ebind (ebind (or_empty st ''telemetry'' (PDict [])) temps_line) (\<lambda>temps.
     ebind (ebind (or_empty st ''findings'' (PDict [])) counts_line) (\<lambda>counts.
     ebind (ebind (or_empty st ''top_findings'' (PList [])) py_iter) (\<lambda>tops.
     Inr (top @ (if over then [''RESULT  : '' @ py_str v] else []) @ now @ [[]] @ steps @ [[], temps, counts] @
       map (\<lambda>x. ''  - '' @ py_str x) tops))))))))))))"

text \<open>\<open>pccheck status\<close>: the text it prints and its exit code; \<open>None\<close> is a status file that cannot be read.\<close>

definition cmd_status :: "pyval option \<Rightarrow> exn + string list \<times> int" where
  "cmd_status st = (case st of None \<Rightarrow> Inr ([''PC-Check is not running (no status file).''], 1)
     | Some v \<Rightarrow> if \<not> truthy v then Inr ([''PC-Check is not running (no status file).''], 1)
         else ebind (status_lines v) (\<lambda>ls. Inr (ls, 0)))"

text \<open>\<open>pccheck abort\<close> leaves the abort file; \<open>pccheck report\<close> tells a failure by its exit code.\<close>

definition cmd_abort :: "bool \<Rightarrow> bool \<times> int" where
  "cmd_abort abort_file = (True, 0)"

text \<open>\<open>pccheck report\<close> writes the reports again: the files, and what it prints with its exit code.\<close>

definition cmd_report :: "report_env \<Rightarrow> session_fs \<Rightarrow> pyval list Util.disk \<Rightarrow> string \<Rightarrow> (string \<times> string) list \<times> (exn + string \<times> int)" where
  "cmd_report env fs disk dir = (case write_reports env fs disk dir False of (written, r) \<Rightarrow>
     (written, ebind r (\<lambda>(v, body). Inr (body, if verdict_str v \<noteq> ''FAIL'' then 0 else 2))))"

section \<open>The web server and the start of the program\<close>

datatype response = Json string | Redirect string | Static

text \<open>\<open>do_GET\<close>: the status (an empty object before the first one is written), the redirection to the report of the
  session (\<open>rel\<close> is its path relative to the served directory), or the file handler of the library.\<close>

definition do_GET :: "(string \<Rightarrow> bool) \<Rightarrow> string option \<Rightarrow> (string \<times> string) option \<Rightarrow> string \<Rightarrow> response" where
  "do_GET exists status session path =
    (if path \<in> {''/status.json'', ''/status''} then Json (the_default ''{}'' status)
     else if path = ''/'' then (case session of
         Some (dir, rel) \<Rightarrow> Redirect (if exists (path_join dir ''report.html'') then ''/'' @ rel @ ''/report.html'' else ''/'' @ rel @ ''/'')
       | None \<Rightarrow> Static)
     else Static)"

text \<open>\<open>main\<close> tests nothing under \<open>pccheck.auto=0\<close>, as read from the kernel command line or from the log storage, unless forced.\<close>

definition maintenance :: "bool \<Rightarrow> options \<Rightarrow> options \<Rightarrow> bool" where
  "maintenance force early opts \<longleftrightarrow> \<not> force \<and> (\<not> auto_start early \<or> \<not> auto_start opts)"

section \<open>The status command reads every status\<close>

lemma fcat_total: "(\<forall>x \<in> set xs. \<exists>a. x = Inr a) \<Longrightarrow> \<exists>b. fcat xs = Inr b"
  by (induction xs) auto

lemma text_total [simp]: "\<exists>a. fget (PDict d) k = Inr a" "\<exists>a. fget_or (PDict d) k = Inr a" "\<exists>a. fstr (Inr v) = Inr a"
    "\<exists>a. lookup_text D t (PStr n) = Inr a"
  by (auto simp: fget_def fget_or_def fstr_def py_or_def lookup_text_def)

lemma header_total:
  "\<exists>b. duration_of (dict_get d ''remaining_seconds'' PNone) = Inr b \<Longrightarrow> \<exists>top. header_lines (PDict d) (PDict e) = Inr top"
  using fcat_total [of "[Inr (PRODUCT @ '' '' @ version @ ''  |  ''), fget_or (PDict e) ''system_manufacturer'', Inr '' '',
      fget_or (PDict e) ''system_product'', Inr ''  SN '', fget_or (PDict e) ''display_serial'']"]
    fcat_total [of "[Inr ''Session : '', fget (PDict d) ''session_dir'']"]
    fcat_total [of "[Inr ''Profile : '', fget (PDict d) ''profile'', Inr ''   status: '', fget (PDict d) ''status'', Inr ''   left ~'',
      duration_of (dict_get d ''remaining_seconds'' PNone), Inr ''   unexpected reboots: '', fget (PDict d) ''unexpected_reboots'']"]
  by (auto simp: header_lines_def)

lemma step_total:
  "\<exists>b. percent_text (dict_get d ''step_progress'' PNone) = Inr b \<Longrightarrow> \<exists>ls. step_lines (PDict d) plan (PStr n) = Inr ls"
  using fcat_total [of "[Inr (''Step    : '' @ index_text 1 (PStr n) plan @ ''/'' @ nat_str (length plan) @ '' ''),
      lookup_text TITLES (py_str (PStr n)) (PStr n), percent_text (dict_get d ''step_progress'' PNone)]"]
    fcat_total [of "[Inr ''          '', lookup_text DESCRIPTIONS [] (PStr n)]"]
  by (auto simp: step_lines_def)

lemma dict_get_strs: "\<exists>t. dict_get (map (\<lambda>(k, v). (k, PStr (f v))) d) n (PStr u) = PStr t"
  by (induction d) (auto simp: dict_get_def)

lemma plan_total:
  "\<exists>ls. plan_lines i over (PDict (map (\<lambda>(k, v). (k, PStr (f v))) d)) current (map PStr names) = Inr ls"
proof (induction names arbitrary: i)
  case (Cons n ns)
  let ?d = "map (\<lambda>(k, v). (k, PStr (f v))) d"
  let ?u = "if py_equal (PStr n) current then ''running'' else ''pending''"
  obtain t where t: "dict_get ?d n (PStr ?u) = PStr t" using dict_get_strs [of f d n ?u] by blast
  have "\<exists>s. (if py_equal (PStr n) (PStr ''final'') \<and> over then Inr (PStr ''done'')
      else Inr (dict_get ?d n (PStr ?u))) = (Inr (PStr s) :: exn + pyval)" using t by auto
  then obtain s where s: "(if py_equal (PStr n) (PStr ''final'') \<and> over then Inr (PStr ''done'')
      else Inr (dict_get ?d n (PStr ?u))) = (Inr (PStr s) :: exn + pyval)" by blast
  have "\<exists>l. fcat [Inr (''  '' @ int_str i @ ''. [''), fcenter (PStr s), Inr ''] '', lookup_text TITLES (py_str (PStr n)) (PStr n)] = Inr l"
    by (rule fcat_total) simp
  then obtain l where l: "fcat [Inr (''  '' @ int_str i @ ''. [''), fcenter (PStr s), Inr ''] '', lookup_text TITLES (py_str (PStr n)) (PStr n)] = Inr l"
    by blast
  obtain ls where ls: "plan_lines (i + 1) over (PDict ?d) current (map PStr ns) = Inr ls" using Cons.IH by blast
  show ?case
    unfolding list.map plan_lines.simps py_key.simps ebind_simps pyval.case prod.case s l ls by simp
qed simp

lemma temps_total: "\<exists>l. temps_line (PDict d) = Inr l" and counts_total: "\<exists>l. counts_line (PDict d) = Inr l"
  unfolding temps_line_def counts_line_def by (rule fcat_total, simp)+

text \<open>Any status with the fields of the right kind can be read.\<close>

lemma status_lines_total:
  assumes "dict_get d ''identity'' PNone = PDict e" "\<exists>b. duration_of (dict_get d ''remaining_seconds'' PNone) = Inr b"
    and "dict_get d ''plan'' PNone = PList (map PStr names)" "dict_get d ''phases'' PNone = PDict (map (\<lambda>(k, v). (k, PStr (f v))) ph)"
    and "dict_get d ''phase'' PNone = PStr n" "\<exists>b. percent_text (dict_get d ''step_progress'' PNone) = Inr b"
    and "dict_get d ''telemetry'' PNone = PDict t" "dict_get d ''findings'' PNone = PDict fs"
    and "dict_get d ''top_findings'' PNone = PList tops"
  shows "\<exists>ls counts. status_lines (PDict d) = Inr ls \<and> counts_line (PDict fs) = Inr counts \<and> counts \<in> set ls \<and>
    (truthy (dict_get d ''verdict'' PNone) \<longrightarrow> ''RESULT  : '' @ py_str (dict_get d ''verdict'' PNone) \<in> set ls) \<and>
    (\<lambda>x. ''  - '' @ py_str x) ` set tops \<subseteq> set ls"
proof -
  have e: "or_empty (PDict d) ''identity'' (PDict []) = Inr (PDict e)" "or_empty (PDict d) ''telemetry'' (PDict []) = Inr (PDict t)"
    "or_empty (PDict d) ''findings'' (PDict []) = Inr (PDict fs)"
    "or_empty (PDict d) ''phases'' (PDict []) = Inr (PDict (map (\<lambda>(k, v). (k, PStr (f v))) ph))"
    "ebind (or_empty (PDict d) ''plan'' (PList [])) plan_names = Inr (map PStr (names @ [''final'']))"
    "ebind (or_empty (PDict d) ''top_findings'' (PList [])) py_iter = Inr tops"
    using assms by (auto simp: or_empty_def py_or_def)
  let ?v = "dict_get d ''verdict'' PNone"
  obtain top where top: "header_lines (PDict d) (PDict e) = Inr top" using header_total [OF assms(2)] by blast
  obtain now where now: "(if truthy (PStr n) \<and> \<not> truthy ?v then step_lines (PDict d) (map PStr (names @ [''final''])) (PStr n) else Inr []) = Inr now"
    using step_total [OF assms(6), of "map PStr (names @ [''final''])" n] by (cases "truthy (PStr n) \<and> \<not> truthy ?v") auto
  obtain steps where steps: "plan_lines 1 (truthy ?v) (PDict (map (\<lambda>(k, v). (k, PStr (f v))) ph)) (PStr n) (map PStr (names @ [''final''])) = Inr steps"
    using plan_total by blast
  obtain temps counts where tc: "temps_line (PDict t) = Inr temps" "counts_line (PDict fs) = Inr counts"
    using temps_total counts_total by blast
  have "status_lines (PDict d) = Inr (top @ (if truthy ?v then [''RESULT  : '' @ py_str ?v] else []) @ now @ [[]] @ steps @ [[], temps, counts] @
      map (\<lambda>x. ''  - '' @ py_str x) tops)"
    unfolding status_lines_def e py_get.simps ebind_simps assms(5) Let_def top now steps tc ..
  then show ?thesis using tc(2) by auto
qed

lemma step_value_total: "\<exists>b. percent_text (step_value running) = Inr b"
  by (auto simp: step_value_def split: option.split prod.split)

text \<open>C25: the status command can read whatever the program writes into its status file, with any session, phase or
  telemetry: it prints the findings of each severity, the most important problems and, once there is
  one, the verdict, and it returns zero.\<close>

theorem status_is_readable:
  "\<exists>ls counts. cmd_status (Some (status_value now running c)) = Inr (ls, 0) \<and>
    counts_line (PDict (map (\<lambda>s. (severity_str s, PInt (int (findings_counts (c_findings c) s)))) [FAIL, WARN, INFO])) = Inr counts \<and>
    set (counts # map (\<lambda>l. ''  - '' @ l) (top_findings (c_findings c)) @
      (case c_final_verdict c of None \<Rightarrow> [] | Some v \<Rightarrow> [''RESULT  : '' @ verdict_str v])) \<subseteq> set ls"
proof -
  obtain d where d: "status_value now running c = PDict d" "truthy (PDict d)" by (simp add: status_value_def Let_def)
  let ?st = "the_state c" let ?F = "c_findings c"
  let ?fs = "map (\<lambda>s. (severity_str s, PInt (int (findings_counts ?F s)))) [FAIL, WARN, INFO]"
  obtain e where e: "identity_value ?st = PDict e" by (simp add: identity_value_def)
  obtain t where t: "(case c_telemetry c of None \<Rightarrow> PDict [] | Some t \<Rightarrow> telemetry_value t) = PDict t"
    by (cases "c_telemetry c") (simp_all add: telemetry_value_def Let_def)
  have g: "dict_get d ''identity'' PNone = PDict e" "dict_get d ''remaining_seconds'' PNone = PInt (trunc (remaining_estimate (map_option fst running) c))"
    "dict_get d ''plan'' PNone = PList (map PStr (map pl_name (st_plan ?st)))"
    "dict_get d ''phases'' PNone = PDict (map (\<lambda>(k, v). (k, PStr (phase_status_str (ps_status v)))) (st_phases ?st))"
    "dict_get d ''phase'' PNone = PStr (fs_current_phase ?F)" "dict_get d ''step_progress'' PNone = step_value running"
    "dict_get d ''telemetry'' PNone = PDict t" "dict_get d ''findings'' PNone = PDict ?fs"
    "dict_get d ''top_findings'' PNone = PList (map PStr (top_findings ?F))"
    "dict_get d ''verdict'' PNone = opt_str (map_option verdict_str (c_final_verdict c))"
    using d(1) unfolding status_value_def Let_def pyval.inject by (auto simp: dict_get_def e t step_value_def comp_def)
  have "\<exists>b. duration_of (dict_get d ''remaining_seconds'' PNone) = Inr b" "\<exists>b. percent_text (dict_get d ''step_progress'' PNone) = Inr b"
    unfolding g(2,6) by (simp, rule step_value_total)
  from status_lines_total [OF g(1) this(1) g(3) g(4) g(5) this(2) g(7,8,9)]
  obtain ls counts where l: "status_lines (PDict d) = Inr ls" "counts_line (PDict ?fs) = Inr counts" "counts \<in> set ls"
    "truthy (opt_str (map_option verdict_str (c_final_verdict c))) \<longrightarrow>
       ''RESULT  : '' @ py_str (opt_str (map_option verdict_str (c_final_verdict c))) \<in> set ls"
    "(\<lambda>x. ''  - '' @ py_str x) ` set (map PStr (top_findings ?F)) \<subseteq> set ls"
    unfolding g(10) by blast
  have "verdict_str v \<noteq> []" for v by (cases v) simp_all
  then have "case c_final_verdict c of None \<Rightarrow> True | Some v \<Rightarrow> ''RESULT  : '' @ verdict_str v \<in> set ls"
    using l(4) by (auto simp: opt_str_def split: option.split)
  moreover have "cmd_status (Some (status_value now running c)) = Inr (ls, 0)" using l(1) d by (simp add: cmd_status_def)
  moreover have "(\<lambda>l. ''  - '' @ l) ` set (top_findings ?F) \<subseteq> set ls" using l(5) by (simp only: image_image set_map py_str.simps)
  ultimately show ?thesis using l(2,3) by (intro exI [of _ ls] exI [of _ counts]) (auto split: option.splits)
qed

end
