(* ===== verification/Dashboard.thy ===== *)
theory Dashboard
  imports Console
begin

text \<open>
  The live screen of \<open>dashboard.py\<close>: the steps, the screen of a running test and the final screen, as lists of lines
  with their escape sequences.  The size of the terminal, the addresses of the machine, the elapsed time and the
  local time of the end (\<open>time.strftime\<close>) are the fields of \<open>view\<close>.
\<close>

section \<open>Escape sequences\<close>

definition ansi :: "string \<Rightarrow> string" where
  "ansi code = [CHR 0x1B, CHR ''[''] @ code @ ''m''"

definition RESET :: string where
  "RESET = ansi ''0''"

definition BOLD :: string where
  "BOLD = ansi ''1''"

definition DIM :: string where
  "DIM = ansi ''2''"

definition REVERSE :: string where
  "REVERSE = ansi ''7''"

definition RED :: string where
  "RED = ansi ''31''"

definition GREEN :: string where
  "GREEN = ansi ''32''"

definition YELLOW :: string where
  "YELLOW = ansi ''33''"

definition CYAN :: string where
  "CYAN = ansi ''36''"

definition WHITE_ON_RED :: string where
  "WHITE_ON_RED = ansi ''1;37;41''"

definition WHITE_ON_GREEN :: string where
  "WHITE_ON_GREEN = ansi ''1;37;42''"

definition BLACK_ON_YELLOW :: string where
  "BLACK_ON_YELLOW = ansi ''1;30;43''"


fun SEV_COLOR :: "severity \<Rightarrow> string" where
  "SEV_COLOR FAIL = RED"
| "SEV_COLOR WARN = YELLOW"
| "SEV_COLOR INFO = CYAN"

section \<open>The view\<close>

text \<open>\<open>ip_addresses\<close> from the output of \<open>ip -o -4 addr show scope global\<close>.\<close>

definition ip_addresses :: "string \<Rightarrow> string list" where
  "ip_addresses output = concat (map (\<lambda>line. let parts = split_ws line in
     if length parts \<ge> 4 then [fst (split1 (CHR ''/'') (parts ! 3))] else []) (splitlines output))"

record view =
  vw_columns :: int
  vw_rows :: int
  vw_elapsed :: rat
  vw_finish :: string
  vw_ips :: "string list"
  vw_device :: string
  vw_running :: "(rat \<times> rat option) option"   \<comment> \<open>the phase object: remaining time and progress\<close>

definition view_width :: "view \<Rightarrow> nat" where
  "view_width w = nat (max 60 (vw_columns w))"

definition view_height :: "view \<Rightarrow> nat" where
  "view_height w = nat (max 20 (vw_rows w))"

section \<open>The steps\<close>

text \<open>The plan with the final analysis: name, planned seconds, status, elapsed seconds and result.\<close>

record step =
  sp_name :: string
  sp_planned :: int
  sp_status :: phase_status
  sp_elapsed :: int
  sp_result :: string

definition plan_step :: "state \<Rightarrow> plan_item \<Rightarrow> step" where
  "plan_step st p = (let ps = dict_get (st_phases st) (pl_name p) pending_state in
     \<lparr>sp_name = pl_name p, sp_planned = pl_duration p, sp_status = ps_status ps, sp_elapsed = ps_elapsed ps, sp_result = ps_result ps\<rparr>)"

definition final_step :: "ctx \<Rightarrow> step" where
  "final_step c = \<lparr>sp_name = ''final'', sp_planned = 0,
     sp_status = (if c_final_verdict c \<noteq> None then P_done else if fs_current_phase (c_findings c) = ''final'' then P_running else P_pending),
     sp_elapsed = 0, sp_result = []\<rparr>"

definition steps :: "ctx \<Rightarrow> step list" where
  "steps c = map (plan_step (the_state c)) (st_plan (the_state c)) @ [final_step c]"

fun running_step :: "nat \<Rightarrow> step list \<Rightarrow> (nat \<times> step) option" where
  "running_step i [] = None"
| "running_step i (s # ss) = (if sp_status s = P_running then Some (i, s) else running_step (i + 1) ss)"

section \<open>Pieces of the screen\<close>

definition bar :: "rat \<Rightarrow> nat \<Rightarrow> string" where
  "bar fraction width = (let f = max 0 (min 1 fraction); fill = nat (round_half_even (fl (f * of_nat width)))
     in GREEN @ replicate fill (CHR ''#'') @ RESET @ DIM @ replicate (width - fill) (CHR ''.'') @ RESET)"

definition percent :: "rat \<Rightarrow> string" where
  "percent x = rjust 3 (CHR '' '') (fixed 0 (fl (x * 100))) @ ''%''"

definition headline :: "nat \<Rightarrow> ctx \<Rightarrow> string" where
  "headline width c = (let st = Some (the_state c);
       model = strip (ident_get st ''system_manufacturer'' @ '' '' @ ident_get st ''system_product'');
       h = '' MASTER DA WEB PC-CHECK '' @ version @ '' | '' @ model @ '' | SN '' @ ident_get st ''display_serial''
     in REVERSE @ BOLD @ ljust width (take width h) @ RESET)"

definition overall_done :: "view \<Rightarrow> ctx \<Rightarrow> rat" where
  "overall_done w c = (let planned = sum_list (map pl_duration (st_plan (the_state c)));
       remaining = remaining_estimate (map_option fst (vw_running w)) c
     in fl (1 - min 1 (fl (remaining / of_int (if planned = 0 then 1 else planned)))))"

definition profile_line :: "view \<Rightarrow> ctx \<Rightarrow> string" where
  "profile_line w c = '' Profile '' @ BOLD @ st_profile (the_state c) @ RESET @ '' ('' @ float_repr (st_hours (the_state c)) @ '' h)  running '' @
     fmt_duration (vw_elapsed w) @ ''  left ~'' @ fmt_duration (remaining_estimate (map_option fst (vw_running w)) c) @
     '' (ends ~'' @ vw_finish w @ '')''"

definition bar_width :: "nat \<Rightarrow> nat" where
  "bar_width width = nat (max 10 (min 40 (int width - 46)))"

definition overall_line :: "view \<Rightarrow> ctx \<Rightarrow> string" where
  "overall_line w c = (let o' = overall_done w c; n = st_unexpected_reboots (the_state c) in
     '' Overall  ['' @ bar o' (bar_width (view_width w)) @ ''] '' @ percent o' @
     (if n \<noteq> 0 then ''  '' @ WHITE_ON_RED @ '' '' @ int_str n @ '' UNEXPECTED REBOOT(S) '' @ RESET else []))"

definition current_lines :: "view \<Rightarrow> bool \<Rightarrow> ctx \<Rightarrow> string list" where
  "current_lines w small c = (let width = view_width w in case running_step 0 (steps c) of
     Some (i, s) \<Rightarrow>
       [ '' '' @ BOLD @ CYAN @ ''STEP '' @ nat_str (i + 1) @ ''/'' @ nat_str (length (steps c)) @ '': '' @
           dict_get TITLES (sp_name s) (sp_name s) @ RESET,
         take width (''   '' @ dict_get DESCRIPTIONS (sp_name s) [])] @
       (case vw_running w of Some (left, Some prog) \<Rightarrow>
          [''   ['' @ bar prog (bar_width width) @ ''] '' @ percent prog @ ''  step time left '' @ fmt_duration left]
        | _ \<Rightarrow> []) @
       [take width (''   Now: '' @ (if c_status_note c \<noteq> [] then c_status_note c else ''working...''))] @
       (if small then [] else [[]])
   | None \<Rightarrow>
       ['' '' @ BOLD @ ''Starting...'' @ RESET] @
       (if c_status_note c \<noteq> [] then [take width (''   '' @ c_status_note c)] else []) @ [[]])"

fun step_mark :: "phase_status \<Rightarrow> string" where
  "step_mark P_done = GREEN @ ''[ OK ]'' @ RESET"
| "step_mark P_running = CYAN @ ''[ >> ]'' @ RESET"
| "step_mark P_pending = DIM @ ''[    ]'' @ RESET"
| "step_mark P_failed = RED @ ''[FAIL]'' @ RESET"
| "step_mark P_warn = YELLOW @ ''[WARN]'' @ RESET"
| "step_mark P_interrupted = WHITE_ON_RED @ ''[RSET]'' @ RESET"
| "step_mark P_skipped = DIM @ ''[skip]'' @ RESET"
| "step_mark P_error = YELLOW @ ''[ERR ]'' @ RESET"
| "step_mark P_aborted = YELLOW @ ''[STOP]'' @ RESET"

definition step_timing :: "step \<Rightarrow> string" where
  "step_timing s = (case sp_status s of
     P_pending \<Rightarrow> if sp_planned s \<noteq> 0 then DIM @ fmt_duration (of_int (sp_planned s)) @ RESET else []
   | P_running \<Rightarrow> CYAN @ ''running'' @ RESET
   | _ \<Rightarrow> fmt_duration (of_int (sp_elapsed s)) @ (if sp_result s \<noteq> [] then ''  '' @ DIM @ sp_result s @ RESET else []))"

definition name_width :: "nat \<Rightarrow> nat" where
  "name_width width = nat (max 20 (min 44 (int width - 36)))"

definition step_line :: "nat \<Rightarrow> nat \<times> step \<Rightarrow> string" where
  "step_line width = (\<lambda>(i, s). '' '' @ step_mark (sp_status s) @ '' '' @ nat_str (i + 1) @ ''. '' @
     ljust (name_width width) (take (name_width width) (dict_get TITLES (sp_name s) (sp_name s))) @ '' '' @ step_timing s)"

definition temp_text :: "(telemetry \<Rightarrow> pyfloat option) \<Rightarrow> ctx \<Rightarrow> string" where
  "temp_text f c = (case c_telemetry c of None \<Rightarrow> ''-'' | Some t \<Rightarrow> (case f t of None \<Rightarrow> ''-'' | Some v \<Rightarrow> pf_fixed 0 v @ ''C''))"

definition telemetry_text :: "ctx \<Rightarrow> string" where
  "telemetry_text c = '' Temp CPU '' @ BOLD @ temp_text te_cpu_temp c @ RESET @ '' drives '' @ temp_text te_drive_temp c @
     '' board '' @ temp_text te_board_temp c @ '' | load '' @
     (case c_telemetry c of None \<Rightarrow> ''-'' | Some t \<Rightarrow> float_repr (Fin (te_load1 t))) @ '' | free RAM '' @
     (case c_telemetry c of None \<Rightarrow> ''-'' | Some t \<Rightarrow> int_str (te_mem_available_mib t)) @ '' MiB''"

definition scan_text :: "scan_row \<Rightarrow> string" where
  "scan_text r = (if sr_mode r = M_read
     then sr_name r @ '' '' @ (if sr_done r then ''done'' else fixed 0 (fl (the_default 0 (sr_progress r) * 100)) @ ''%'') @
       (if sr_errors r \<noteq> 0 then '' '' @ RED @ nat_str (sr_errors r) @ '' errors'' @ RESET else [])
     else sr_name r @ '' write/verify '' @ (if sr_done r then ''done'' else ''running''))"

definition scan_lines :: "ctx \<Rightarrow> string list" where
  "scan_lines c = (case c_dm c of None \<Rightarrow> [] | Some dm \<Rightarrow>
     (if dm_summary dm = [] then [] else ['' Disk scan: '' @ join '', '' (map scan_text (dm_summary dm))]))"

definition web_text :: "string \<Rightarrow> view \<Rightarrow> ctx \<Rightarrow> string" where
  "web_text pre w c = (case vw_ips w of ip # _ \<Rightarrow> if http (c_opts c) then pre @ ''http://'' @ ip @ ''/'' else [] | [] \<Rightarrow> [])"

definition logs_line :: "view \<Rightarrow> ctx \<Rightarrow> string" where
  "logs_line w c = '' Logs: '' @ (if c_persistent c then vw_device w @ '' (saved on USB)''
     else RED @ ''RAM only - results lost on reboot!'' @ RESET) @ web_text '' | web '' w c"

definition problems_line :: "ctx \<Rightarrow> string" where
  "problems_line c = (let n = findings_counts (c_findings c) in
     '' Problems found so far: '' @
     (if n FAIL \<noteq> 0 then WHITE_ON_RED @ '' '' @ nat_str (n FAIL) @ '' FAIL '' @ RESET else GREEN @ ''0 FAIL'' @ RESET) @ ''  '' @
     (if n WARN \<noteq> 0 then BLACK_ON_YELLOW @ '' '' @ nat_str (n WARN) @ '' WARN '' @ RESET else ''0 WARN'') @ ''  '' @
     nat_str (n INFO) @ '' info'')"

definition problem_text :: "nat \<Rightarrow> finding \<Rightarrow> string" where
  "problem_text width f = ''   '' @ SEV_COLOR (f_severity f) @ severity_str (f_severity f) @ RESET @ '' '' @
     take (width - 10) (f_component f @ '': '' @ f_title f @ (if f_count f > 1 then '' (x'' @ int_str (f_count f) @ '')'' else []))"

text \<open>The listed problems end with the room on the screen or with the first informational finding.\<close>

fun problem_lines :: "nat \<Rightarrow> int \<Rightarrow> finding list \<Rightarrow> string list" where
  "problem_lines width room [] = []"
| "problem_lines width room (f # fs) = (if room \<le> 0 \<or> f_severity f = INFO then []
     else problem_text width f # problem_lines width (room - 1) fs)"

definition footer :: string where
  "footer = DIM @ '' [q][q] abort test | Alt+F2 root shell (pccheck status) | Alt+F1 this screen'' @ RESET"

definition render_running :: "view \<Rightarrow> ctx \<Rightarrow> string list" where
  "render_running w c = (let width = view_width w; height = view_height w; small = height < 32;
       gap = (if small then [] else [[]]);
       top = [headline width c, profile_line w c, overall_line w c, []] @ current_lines w small c @
         map (step_line width) (enumerate 0 (steps c)) @ gap @ [telemetry_text c] @ scan_lines c @ [logs_line w c, problems_line c];
       body = top @ problem_lines width (int height - int (length top) - 2) (findings_all (c_findings c))
     in take (height - 2) body @ [[], footer])"

section \<open>The final screen\<close>

fun verdict_banner :: "verdict \<Rightarrow> string" where
  "verdict_banner FAILED = WHITE_ON_RED"
| "verdict_banner PASS = WHITE_ON_GREEN"
| "verdict_banner v = BLACK_ON_YELLOW"

fun color_line :: "nat \<Rightarrow> severity list \<Rightarrow> string \<Rightarrow> string" where
  "color_line width [] line = take width line"
| "color_line width (s # ss) line = (if startswith line (''['' @ severity_str s @ '']'') then SEV_COLOR s @ take width line @ RESET
     else color_line width ss line)"

definition final_footer :: "view \<Rightarrow> ctx \<Rightarrow> string list" where
  "final_footer w c = [DIM @ '' Report: '' @ s_dir (c_session c) @ ''/report.txt (.html .json)'' @ web_text ''   web: '' w c @ RESET,
     DIM @ '' [p] power off   [b] reboot   [up/down/j/k] scroll   Alt+F2 root shell'' @ RESET]"

definition final_head :: "nat \<Rightarrow> verdict \<Rightarrow> string list" where
  "final_head width v = (let color = verdict_banner v in
     [REVERSE @ BOLD @ ljust width (take width ('' MASTER DA WEB PC-CHECK '' @ version @ '' - burn-in finished'')) @ RESET,
      color @ replicate width (CHR '' '') @ RESET, color @ center_str width (''RESULT: '' @ verdict_str v) @ RESET,
      color @ replicate width (CHR '' '') @ RESET, []])"

definition scroll_start :: "int \<Rightarrow> int \<Rightarrow> int \<Rightarrow> int" where
  "scroll_start scroll len room = max 0 (min scroll (max 0 (len - room)))"

text \<open>The lines, and the scroll position that the screen was drawn at; \<open>body\<close> is the text report.\<close>

definition render_final :: "view \<Rightarrow> verdict \<Rightarrow> string list \<Rightarrow> int \<Rightarrow> ctx \<Rightarrow> string list \<times> int" where
  "render_final w v body scroll c = (let width = view_width w; room = view_height w - 8;
       start = scroll_start scroll (int (length body)) (int room)
     in (final_head width v @ map (color_line width [FAIL, WARN, INFO]) (take room (drop (nat start) body)) @ [[]] @ final_footer w c, start))"

definition clear_screen :: string where
  "clear_screen = [CHR 0x1B] @ ''[H'' @ [CHR 0x1B] @ ''[2J''"

text \<open>\<open>draw\<close>: what is written to the terminal, if there is one, and the scroll position afterwards.\<close>

definition draw :: "bool \<Rightarrow> view \<Rightarrow> string list \<Rightarrow> int \<Rightarrow> ctx \<Rightarrow> string option \<times> int" where
  "draw enabled w body scroll c = (if \<not> enabled then (None, scroll) else
     (case (case c_final_verdict c of Some v \<Rightarrow> render_final w v body scroll c | None \<Rightarrow> (render_running w c, scroll)) of
       (lines, scroll1) \<Rightarrow> (Some (clear_screen @ join newline lines), scroll1)))"

section \<open>The screens fit\<close>

lemma current_length: "length (current_lines w b c) \<le> 4 + (if b then 0 else 1)"
  by (auto simp: current_lines_def Let_def split: option.split)

lemma problem_lines_length: "0 \<le> room \<Longrightarrow> int (length (problem_lines width room fs)) \<le> room"
  by (induction width room fs rule: problem_lines.induct) auto

text \<open>The screen of a running test never exceeds the terminal and ends with the keys; on a terminal of at least
  24 rows the number of failures is always on it, whatever phase is running, if the plan has at most nine
  phases (the program has nine).\<close>

theorem failures_on_screen:
  assumes "24 \<le> vw_rows w" "length (st_plan (the_state c)) \<le> 9"
  shows "problems_line c \<in> set (render_running w c) \<and> length (render_running w c) \<le> view_height w \<and>
    last (render_running w c) = footer"
proof -
  let ?small = "view_height w < 32" let ?width = "view_width w"
  define top where "top = [headline ?width c, profile_line w c, overall_line w c, []] @ current_lines w ?small c @
      map (step_line ?width) (enumerate 0 (steps c)) @ (if ?small then [] else [[]]) @ [telemetry_text c] @ scan_lines c @ [logs_line w c]"
  define rest where "rest = problem_lines ?width (int (view_height w) - int (length (top @ [problems_line c])) - 2) (findings_all (c_findings c))"
  have r: "render_running w c = take (view_height w - 2) (top @ problems_line c # rest) @ [[], footer]"
    unfolding render_running_def Let_def rest_def top_def by simp
  have "length (scan_lines c) \<le> 1" by (simp add: scan_lines_def split: option.split)
  moreover have "length (steps c) \<le> 10" using assms(2) by (simp add: steps_def)
  ultimately have "length top \<le> 21 + (if ?small then 0 else 2)"
    unfolding top_def using current_length [of w ?small c] by (cases ?small) simp_all
  moreover have "24 \<le> view_height w" using assms(1) by (simp add: view_height_def)
  ultimately have "length top < view_height w - 2" by (cases ?small) simp_all
  then obtain k where "view_height w - 2 = length top + Suc k" by (auto simp: less_iff_Suc_add)
  then have "problems_line c \<in> set (take (view_height w - 2) (top @ problems_line c # rest))" by simp
  moreover have "2 \<le> view_height w" by (simp add: view_height_def)
  ultimately show ?thesis unfolding r by simp
qed

definition vga :: view where
  "vga = \<lparr>vw_columns = 80, vw_rows = 25, vw_elapsed = 60, vw_finish = ''Mon 12:00'', vw_ips = [], vw_device = ''/dev/sdb3'', vw_running = None\<rparr>"

lemma failures_on_screen_witness: "problems_line fresh_ctx \<in> set (render_running vga fresh_ctx)"
proof -
  have "24 \<le> vw_rows vga" "length (st_plan (the_state fresh_ctx)) \<le> 9"
    by (simp_all add: vga_def fresh_ctx_def the_state_def first_session_def make_session_def new_state_def)
  then show ?thesis by (rule conjunct1 [OF failures_on_screen])
qed

text \<open>The final screen shows as much of the report as fits, and every line of it can be scrolled to.\<close>

lemma final_screen_fits: "length (fst (render_final w v body scroll c)) \<le> view_height w"
proof -
  have "8 \<le> view_height w" by (simp add: view_height_def)
  then show ?thesis by (simp add: render_final_def Let_def final_head_def final_footer_def)
qed

lemma final_scroll_covers:
  assumes "i < length body"
  shows "\<exists>scroll. color_line (view_width w) [FAIL, WARN, INFO] (body ! i) \<in> set (fst (render_final w v body scroll c))"
proof -
  let ?room = "view_height w - 8"
  have room: "1 \<le> ?room" by (simp add: view_height_def)
  define start where "start = nat (scroll_start (int i) (int (length body)) (int ?room))"
  have s: "start \<le> i" "i < start + ?room" using room assms by (auto simp: start_def scroll_start_def)
  then have "take ?room (drop start body) ! (i - start) = body ! i" "i - start < length (take ?room (drop start body))" using assms by auto
  then have "body ! i \<in> set (take ?room (drop start body))" by (metis nth_mem)
  then show ?thesis by (intro exI [of _ "int i"]) (simp add: render_final_def Let_def start_def)
qed

end
