(* ===== verification/Process.thy ===== *)
theory Process
  imports UtilText
begin

text \<open>
  Child processes and the durability of files: \<open>ManagedProcess\<close>, \<open>sync_storage\<close> and \<open>append_line\<close> of \<open>util.py\<close>.  What
  the kernel answers is given turn by turn: \<open>w i\<close> is the reading of turn \<open>i\<close> of a loop (the exit code that \<open>poll\<close>
  reports, the monotonic clock, the stop event).  A loop that waits for the kernel may run forever, so
  the loops are partial functions and that they end is a theorem.
\<close>

section \<open>Commands that cannot raise\<close>

text \<open>What \<open>subprocess.run\<close> does: a result, or one of the exceptions that \<open>run\<close> turns into one.\<close>

datatype subprocess = Completed cmd_result | Not_found | Timed_out string | Os_error string

definition run_result :: "string list \<Rightarrow> int \<Rightarrow> subprocess \<Rightarrow> cmd_result" where
  "run_result cmd seconds p = (case p of Completed r \<Rightarrow> r
     | Not_found \<Rightarrow> \<lparr>returncode = 127, stdout = [], stderr = hd cmd @ '': not found''\<rparr>
     | Timed_out printed \<Rightarrow> \<lparr>returncode = 124, stdout = printed, stderr = ''timeout after '' @ int_str seconds @ ''s''\<rparr>
     | Os_error msg \<Rightarrow> \<lparr>returncode = 126, stdout = [], stderr = msg\<rparr>)"

definition boot_id :: "sys \<Rightarrow> string" where
  "boot_id sy = (let s = strip (read_file sy ''/proc/sys/kernel/random/boot_id'') in if s = [] then ''unknown'' else s)"

section \<open>Loops over the turns of the clock\<close>

record tick =
  tk_poll :: "int option"
  tk_now :: rat
  tk_stop :: bool

text \<open>The turn in which a loop is left.\<close>

partial_function (option) first_turn :: "(tick \<Rightarrow> bool) \<Rightarrow> (nat \<Rightarrow> tick) \<Rightarrow> nat \<Rightarrow> nat option" where
  "first_turn leave w i = (if leave (w i) then Some i else first_turn leave w (i + 1))"

lemma first_turn_reaches:
  "leave (w (i + k)) \<Longrightarrow> \<exists>j \<le> k. first_turn leave w i = Some (i + j) \<and> leave (w (i + j)) \<and> (\<forall>m < j. \<not> leave (w (i + m)))"
proof (induction k arbitrary: i)
  case 0
  then show ?case by (subst first_turn.simps) simp
next
  case (Suc k)
  show ?case
  proof (cases "leave (w i)")
    case False
    obtain j where "j \<le> k" "first_turn leave w (i + 1) = Some (i + 1 + j)" "leave (w (i + 1 + j))" "\<forall>m < j. \<not> leave (w (i + 1 + m))"
      using Suc.IH [of "i + 1"] Suc.prems by auto
    with False show ?thesis by (intro exI [of _ "Suc j"]) (subst first_turn.simps, auto simp: less_Suc_eq_0_disj)
  qed (intro exI [of _ 0], subst first_turn.simps, simp)
qed

text \<open>The clock moves on by at least \<open>d\<close> in every turn: the loop sleeps.\<close>

definition clock_moves :: "rat \<Rightarrow> (nat \<Rightarrow> tick) \<Rightarrow> bool" where
  "clock_moves d w \<longleftrightarrow> (\<forall>i. tk_now (w i) + d \<le> tk_now (w (i + 1)))"

lemma clock_after: "clock_moves d w \<Longrightarrow> tk_now (w 0) + of_nat n * d \<le> tk_now (w n)"
proof (induction n)
  case (Suc n)
  then have "tk_now (w n) + d \<le> tk_now (w (Suc n))" by (simp add: clock_moves_def)
  with Suc show ?case by (simp add: algebra_simps)
qed simp

lemma first_turn_ends:
  assumes "clock_moves d w" "limit \<le> tk_now (w 0) + of_nat n * d" "\<And>t. tk_now t \<ge> limit \<Longrightarrow> leave t"
  obtains k where "k \<le> n" "first_turn leave w 0 = Some k" "leave (w k)" "\<forall>j < k. \<not> leave (w j)"
  using first_turn_reaches [of leave w 0 n] assms(3) [of "w n"] clock_after [OF assms(1), of n] assms(2) by auto

section \<open>Waiting for a process\<close>

definition wait_over :: "rat \<Rightarrow> tick \<Rightarrow> bool" where
  "wait_over deadline t \<longleftrightarrow> tk_poll t \<noteq> None \<or> tk_now t \<ge> deadline \<or> tk_stop t"

text \<open>The exit code, or \<open>None\<close> for a process that still runs, with the number of turns that were slept through.\<close>

definition process_wait :: "rat \<Rightarrow> (nat \<Rightarrow> tick) \<Rightarrow> (int option \<times> nat) option" where
  "process_wait deadline w = map_option (\<lambda>i. (tk_poll (w i), i)) (first_turn (wait_over deadline) w 0)"

text \<open>Waiting for a child process ends when the clock moves: after at most as many turns as the time to
  the deadline holds ticks it returns the exit code of the process, or no code, and then the
  deadline has passed or the stop event is set.\<close>

theorem wait_returns:
  assumes "clock_moves tick w" "deadline \<le> tk_now (w 0) + of_nat n * tick"
  shows "\<exists>r k. process_wait deadline w = Some (r, k) \<and> k \<le> n \<and> r = tk_poll (w k) \<and>
    (r = None \<longrightarrow> tk_now (w k) \<ge> deadline \<or> tk_stop (w k))"
proof -
  obtain k where "k \<le> n" "first_turn (wait_over deadline) w 0 = Some k" "wait_over deadline (w k)"
    by (rule first_turn_ends [OF assms, of "wait_over deadline"]) (auto simp: wait_over_def)
  then show ?thesis by (auto simp: process_wait_def wait_over_def)
qed

definition endless :: "nat \<Rightarrow> tick" where
  "endless i = \<lparr>tk_poll = None, tk_now = of_nat i, tk_stop = False\<rparr>"

lemma endless_moves: "clock_moves 1 endless"
  by (simp add: clock_moves_def endless_def)

lemma wait_returns_witness: "\<exists>k \<le> 5. process_wait 5 endless = Some (None, k)"
  using wait_returns [OF endless_moves, of 5 5] by (auto simp: endless_def)

section \<open>Stopping a process\<close>

datatype stop_signal = Sig_cont | Sig_term | Sig_int | Sig_kill

record stopped_process =
  sp_signals :: "stop_signal list"  \<comment> \<open>sent to the process group, in order\<close>
  sp_by_us :: bool
  sp_returncode :: "int option"

record stop_env =
  se_first :: "int option"          \<comment> \<open>the first poll\<close>
  se_start :: rat                   \<comment> \<open>the clock when the grace period starts\<close>
  se_turns :: "nat \<Rightarrow> tick"
  se_again :: "nat \<Rightarrow> int option"   \<comment> \<open>the poll after the turn that ended the grace period\<close>
  se_killed :: "int option"         \<comment> \<open>\<open>proc.wait(timeout=30)\<close>; \<open>None\<close> is \<open>TimeoutExpired\<close>\<close>

definition grace_over :: "rat \<Rightarrow> tick \<Rightarrow> bool" where
  "grace_over limit t \<longleftrightarrow> \<not> (tk_poll t = None \<and> tk_now t < limit)"

lemma grace_over_late: "tk_now t \<ge> limit \<Longrightarrow> grace_over limit t"
  by (simp add: grace_over_def)

definition process_stop :: "rat \<Rightarrow> stop_signal \<Rightarrow> stop_env \<Rightarrow> stopped_process option" where
  "process_stop grace sig env = (case se_first env of
     Some rc \<Rightarrow> Some \<lparr>sp_signals = [], sp_by_us = False, sp_returncode = Some rc\<rparr>
   | None \<Rightarrow> map_option (\<lambda>i. case se_again env i of
       Some rc \<Rightarrow> \<lparr>sp_signals = [Sig_cont, sig], sp_by_us = True, sp_returncode = Some rc\<rparr>
     | None \<Rightarrow> \<lparr>sp_signals = [Sig_cont, sig, Sig_kill], sp_by_us = True, sp_returncode = se_killed env\<rparr>)
       (first_turn (grace_over (se_start env + grace)) (se_turns env) 0))"

text \<open>A process that was reaped stays reaped: \<open>poll\<close> goes on to report its exit code.\<close>

definition reaped_stays :: "stop_env \<Rightarrow> bool" where
  "reaped_stays env \<longleftrightarrow> (\<forall>i. tk_poll (se_turns env i) \<noteq> None \<longrightarrow> se_again env i = tk_poll (se_turns env i))"

text \<open>C39: stopping a process always returns, and it escalates in order.  A process that has ended gets no
  signal at all (its process group may belong to someone else by now).  Any other is continued and
  asked to stop; then it is polled until it has ended or the grace period is over, whichever comes first
  (turn \<open>i\<close>), and it is killed if and only if it has not ended by then: a process that is still there after
  the whole grace period gets SIGKILL, one that ended in time does not.\<close>

theorem stop_escalates:
  assumes "clock_moves (1/2) (se_turns env)" "se_start env \<le> tk_now (se_turns env 0)" "reaped_stays env"
  shows "\<exists>s. process_stop grace sig env = Some s \<and> (case se_first env of
     Some rc \<Rightarrow> sp_signals s = [] \<and> sp_returncode s = Some rc
   | None \<Rightarrow> \<exists>i. (\<forall>j < i. tk_poll (se_turns env j) = None \<and> tk_now (se_turns env j) < se_start env + grace) \<and>
       (tk_poll (se_turns env i) \<noteq> None \<or> tk_now (se_turns env i) \<ge> se_start env + grace) \<and>
       (se_again env i = None \<longrightarrow> tk_poll (se_turns env i) = None \<and> tk_now (se_turns env i) \<ge> se_start env + grace \<and>
          sp_signals s = [Sig_cont, sig, Sig_kill] \<and> sp_returncode s = se_killed env) \<and>
       (se_again env i \<noteq> None \<longrightarrow> sp_signals s = [Sig_cont, sig] \<and> sp_returncode s = se_again env i))"
proof (cases "se_first env")
  case None
  have "\<exists>n. grace \<le> of_nat n * (1/2)" using real_arch_simple [of "2 * grace"] by (auto simp: field_simps)
  then obtain n where "grace \<le> of_nat n * (1/2)" by blast
  then have "se_start env + grace \<le> tk_now (se_turns env 0) + of_nat n * (1/2)" using assms(2) by linarith
  then obtain i where i: "first_turn (grace_over (se_start env + grace)) (se_turns env) 0 = Some i"
      "grace_over (se_start env + grace) (se_turns env i)" "\<forall>j < i. \<not> grace_over (se_start env + grace) (se_turns env j)"
    by (rule first_turn_ends [OF assms(1) _ grace_over_late])
  have before: "\<forall>j < i. tk_poll (se_turns env j) = None \<and> tk_now (se_turns env j) < se_start env + grace"
    and over: "tk_poll (se_turns env i) \<noteq> None \<or> tk_now (se_turns env i) \<ge> se_start env + grace"
    using i(2,3) by (auto simp: grace_over_def)
  have again: "se_again env i = None \<longrightarrow> tk_poll (se_turns env i) = None" using assms(3) by (metis reaped_stays_def)
  show ?thesis using before over again None
    by (cases "se_again env i") (auto simp: process_stop_def i(1) intro!: exI [of _ i])
qed (simp add: process_stop_def)

definition deaf_process :: stop_env where
  "deaf_process = \<lparr>se_first = None, se_start = 0, se_turns = endless, se_again = \<lambda>_. None, se_killed = Some (-9)\<rparr>"

lemma stop_escalates_witness: "\<exists>s. process_stop 45 Sig_term deaf_process = Some s \<and>
    sp_signals s = [Sig_cont, Sig_term, Sig_kill] \<and> sp_returncode s = Some (-9)"
proof -
  have "clock_moves (1/2) (se_turns deaf_process)" "se_start deaf_process \<le> tk_now (se_turns deaf_process 0)" "reaped_stays deaf_process"
    by (simp_all add: deaf_process_def clock_moves_def endless_def reaped_stays_def)
  from stop_escalates [OF this, of 45 Sig_term] show ?thesis by (auto simp: deaf_process_def)
qed

section \<open>The log of a process\<close>

text \<open>A log file is the list of its bytes.  \<open>encode\<close> is UTF-8, \<open>decode\<close> its inverse with replacement.\<close>

record 'b child =
  pr_cmd :: "string list"
  pr_output_start :: nat
  pr_log :: "'b list"               \<comment> \<open>the file right after the header line was written\<close>

definition header :: "string \<Rightarrow> string list \<Rightarrow> string" where
  "header now cmd = newline @ ''### '' @ now @ '' $ '' @ join '' '' cmd @ newline"

text \<open>The constructor; an error of \<open>Popen\<close> closes the log and is raised, the header line stays.\<close>

definition process_start :: "(string \<Rightarrow> 'b list) \<Rightarrow> (string list \<Rightarrow> exn option) \<Rightarrow> string \<Rightarrow> string list \<Rightarrow> 'b list \<Rightarrow>
    (exn + 'b child) \<times> 'b list" where
  "process_start encode spawn now cmd log0 = (let log1 = log0 @ encode (header now cmd) in
     (case spawn cmd of Some e \<Rightarrow> Inl e | None \<Rightarrow> Inr \<lparr>pr_cmd = cmd, pr_output_start = length log0, pr_log = log1\<rparr>, log1))"

text \<open>\<open>output_tail\<close> of the file as it is then; a file that cannot be read is \<open>None\<close>.\<close>

definition output_tail :: "('b list \<Rightarrow> string) \<Rightarrow> nat \<Rightarrow> 'b child \<Rightarrow> 'b list option \<Rightarrow> string" where
  "output_tail decode max_bytes p content = (case content of None \<Rightarrow> []
     | Some bs \<Rightarrow> decode (drop (nat (max (int (pr_output_start p)) (int (length bs) - int max_bytes))) bs))"

text \<open>C38: what is judged after a test is output of that test only: the tail of the log is the last
  \<open>max_bytes\<close> bytes at most of what was written after the process was created, so the PASS of an earlier
  invocation in the same log never counts for this one.\<close>

theorem tail_is_of_this_run:
  assumes "process_start encode spawn now cmd log0 = (Inr p, log1)"
  shows "\<exists>k. output_tail decode max_bytes p (Some (log1 @ later)) = decode (drop k (encode (header now cmd) @ later)) \<and>
    length (drop k (encode (header now cmd) @ later)) = min max_bytes (length (encode (header now cmd) @ later))"
proof -
  let ?new = "encode (header now cmd) @ later"
  have p: "pr_output_start p = length log0" "log1 @ later = log0 @ ?new"
    using assms by (auto simp: process_start_def Let_def split: option.splits)
  have n: "nat (max (int (length log0)) (int (length (log0 @ ?new)) - int max_bytes)) = length log0 + (length ?new - max_bytes)" by auto
  have "output_tail decode max_bytes p (Some (log1 @ later)) = decode (drop (length ?new - max_bytes) ?new)"
    unfolding output_tail_def option.case p n by simp
  then show ?thesis by (intro exI [of _ "length ?new - max_bytes"]) simp
qed

lemma tail_is_of_this_run_witness:
  "\<exists>p k. process_start (\<lambda>s. s) (\<lambda>_. None) ''t'' [''run''] ''PASS'' = (Inr p, ''PASS'' @ header ''t'' [''run'']) \<and>
     output_tail (\<lambda>b. b) 200000 p (Some ((''PASS'' @ header ''t'' [''run'']) @ ''FAIL'')) = drop k (header ''t'' [''run''] @ ''FAIL'')"
proof -
  obtain p where p: "process_start (\<lambda>s. s) (\<lambda>_. None) ''t'' [''run''] ''PASS'' = (Inr p, ''PASS'' @ header ''t'' [''run''])"
    by (simp add: process_start_def Let_def)
  from tail_is_of_this_run [OF this, of "\<lambda>b. b" 200000 "''FAIL''"] p show ?thesis by blast
qed

section \<open>Flushing to the storage\<close>

record sync_state =
  sy_last :: rat                    \<comment> \<open>\<open>_last_syncfs\<close>\<close>
  sy_device :: "string option"      \<comment> \<open>\<open>_flush_device\<close>\<close>

datatype flush = Sync_fs string | Flush_buffers string

definition set_flush_device :: "string \<Rightarrow> sync_state \<Rightarrow> sync_state" where
  "set_flush_device device st = st\<lparr>sy_device := Some device\<rparr>"

definition sync_target :: "(string \<Rightarrow> bool) \<Rightarrow> string \<Rightarrow> string" where
  "sync_target isdir path = (if isdir path then path else if dirname path = [] then ''.'' else dirname path)"

text \<open>The flushes that are done, in order.  \<open>opens\<close> tells which paths can be opened.\<close>

definition sync_storage :: "(string \<Rightarrow> bool) \<Rightarrow> (string \<Rightarrow> bool) \<Rightarrow> bool \<Rightarrow> rat \<Rightarrow> rat \<Rightarrow> string \<Rightarrow> sync_state \<Rightarrow> flush list \<times> sync_state" where
  "sync_storage isdir opens force min_interval now path st =
    (if \<not> force \<and> now - sy_last st < min_interval then ([], st)
     else let st1 = st\<lparr>sy_last := now\<rparr>; target = sync_target isdir path in
       if \<not> opens target then ([], st1)
       else (Sync_fs target # (case sy_device st of None \<Rightarrow> []
         | Some d \<Rightarrow> if d \<noteq> [] \<and> opens d then [Flush_buffers d] else []), st1))"

definition ends_line :: "string \<Rightarrow> bool" where
  "ends_line line \<longleftrightarrow> line \<noteq> [] \<and> last line = CHR 0x0A"

text \<open>\<open>append_line\<close>: the new content of the file, and the flushes.\<close>

definition append_line :: "(string \<Rightarrow> bool) \<Rightarrow> (string \<Rightarrow> bool) \<Rightarrow> rat \<Rightarrow> string \<Rightarrow> string \<Rightarrow> bool \<Rightarrow> string \<times> sync_state \<Rightarrow>
    flush list \<times> string \<times> sync_state" where
  "append_line isdir opens now path line sync = (\<lambda>(content, st).
     let content1 = content @ (if ends_line line then line else line @ newline);
         (fl, st1) = (if sync then sync_storage isdir opens False 1 now path st else ([], st))
     in (fl, content1, st1))"

lemma forced_sync: "opens (sync_target isdir path) \<Longrightarrow> Sync_fs (sync_target isdir path) \<in> set (fst (sync_storage isdir opens True m now path st))"
  by (simp add: sync_storage_def Let_def)

text \<open>An append is left unflushed only when the last flush is less than a second old.\<close>

lemma append_flushed:
  "opens (sync_target isdir path) \<Longrightarrow> Sync_fs (sync_target isdir path) \<in> set (fst (append_line isdir opens now path line True (content, st))) \<or>
     now - sy_last st < 1"
  by (simp add: append_line_def sync_storage_def Let_def)

end
